theory Spec2Isabelle
  imports Complex_Main "HOL-Library.AList" "HOL-Library.Word"
begin

unbundle bit_operations_syntax

section \<open>Data model (world.js)\<close>

text \<open>
  Constants of world.js. \<open>CHUNK_HEIGHT\<close> is \<open>WORLDGEN_CONFIG.CHUNK_HEIGHT || 64\<close>, and
  worldgen.js sets that field to 64.
\<close>

definition CHUNK_SIZE :: int where "CHUNK_SIZE = 16"
definition CHUNK_HEIGHT :: int where "CHUNK_HEIGHT = 64"
definition RENDER_DISTANCE :: int where "RENDER_DISTANCE = 6"
definition BLOCK_AIR :: int where "BLOCK_AIR = -1"

text \<open>
  A JavaScript exception is a value. \<open>TypeError\<close> is what indexing \<open>undefined\<close> throws;
  \<open>JsError\<close> stands for any other thrown error, with its message.
\<close>

datatype js_error = TypeError | JsError string

text \<open>
  The block grid is the nested array \<open>blocks[x][y][z]\<close>. A cell is \<open>Some id\<close>, or
  \<open>None\<close> for a hole of the array (what JavaScript reads as \<open>undefined\<close>).
\<close>

type_synonym grid = "int option list list list"
type_synonym chunkKey = "int \<times> int"

text \<open>\<open>arr[i]\<close>: the element, or \<open>undefined\<close> (here \<open>None\<close>) when \<open>i\<close> is no index of \<open>arr\<close>.\<close>

definition js_index :: "'a list \<Rightarrow> int \<Rightarrow> 'a option" where
  "js_index xs i = (if 0 \<le> i \<and> i < int (length xs) then Some (xs ! nat i) else None)"

text \<open>
  \<open>blocks[x][y][z]\<close>: indexing \<open>undefined\<close> at the first two levels throws a TypeError;
  at the last level an index out of range reads \<open>undefined\<close>.
\<close>

definition cell :: "grid \<Rightarrow> int \<Rightarrow> int \<Rightarrow> int \<Rightarrow> js_error + int option" where
  "cell g x y z =
     (case js_index g x of
        None \<Rightarrow> Inl TypeError
      | Some col \<Rightarrow>
          (case js_index col y of
             None \<Rightarrow> Inl TypeError
           | Some row \<Rightarrow> Inr (case js_index row z of None \<Rightarrow> None | Some v \<Rightarrow> v)))"

text \<open>\<open>row[i] = v\<close> for \<open>i \<ge> 0\<close>: an index past the end extends the array, leaving holes.\<close>

definition js_set :: "'a option list \<Rightarrow> nat \<Rightarrow> 'a \<Rightarrow> 'a option list" where
  "js_set row i v =
     (if i < length row then row[i := Some v]
      else row @ replicate (i - length row) None @ [Some v])"

text \<open>
  \<open>blocks[x][y][z] = v\<close>, reached only after \<open>blocks[x][y][z]\<close> has been read without
  a TypeError, so \<open>blocks[x][y]\<close> is an array.
\<close>

definition cell_set :: "grid \<Rightarrow> int \<Rightarrow> int \<Rightarrow> int \<Rightarrow> int \<Rightarrow> grid" where
  "cell_set g x y z v =
     g[nat x := (g ! nat x)[nat y := js_set (g ! nat x ! nat y) (nat z) v]]"

datatype chunk_state = UNKNOWN | LOADING_DATA | DATA_LOADED | MESHING | READY | UNLOADING

text \<open>The numeric codes of \<open>CHUNK_STATE\<close>, which the source compares with \<open><\<close> and \<open>>=\<close>.\<close>

fun CHUNK_STATE :: "chunk_state \<Rightarrow> nat" where
  "CHUNK_STATE UNKNOWN = 0"
| "CHUNK_STATE LOADING_DATA = 1"
| "CHUNK_STATE DATA_LOADED = 2"
| "CHUNK_STATE MESHING = 3"
| "CHUNK_STATE READY = 4"
| "CHUNK_STATE UNLOADING = 5"

text \<open>
  Geometry buffers as the worker fills them. Every number pushed is an integer (a cell
  coordinate plus a corner offset 0 or 1), so the buffers are lists of integers.
\<close>

record geometry =
  positions :: "int list"
  normals :: "int list"
  uvs :: "int list"
  indices :: "nat list"

record geometryData =
  opaque :: "geometry option"
  transparent :: "geometry option"

text \<open>
  A chunk's \<open>mesh\<close> is a THREE.Group; what is kept of it here are the geometries of its
  child meshes, in the order they are added. The scene and the materials belong to the
  rendering collaborator and are not modelled.
\<close>

type_synonym group = "geometry list"

record chunk =
  cx :: int
  cz :: int
  blocks :: "grid option"
  mesh :: "group option"
  state :: chunk_state

record blockType =
  bt_id :: int
  bt_name :: string
  bt_transparent :: bool

text \<open>
  \<open>neighbourData\<close> is an object keyed by the string \<open>"dx,dz"\<close>; each entry is
  \<open>{ blocks }\<close>. Keys are modelled as pairs of integers.
\<close>

record neighbourEntry =
  nb_blocks :: "grid option"

type_synonym neighbourData = "(chunkKey \<times> neighbourEntry) list"

record meshTask =
  m_cx :: int
  m_cz :: int
  m_blocks :: grid
  m_chunkSize :: int
  m_chunkHeight :: int
  m_neighbourData :: "neighbourData option"

text \<open>
  Messages to the worker, and messages from it. The worker reads the fields \<open>type\<close> and
  \<open>data\<close> of a message. \<open>Generate\<close> and \<open>MeshReq\<close> carry their payload in \<open>data\<close>.
  world.js posts its two initialisation messages with the payload beside \<open>type\<close>
  (\<open>atlasConfig\<close>, \<open>blockTypes\<close>) and with no \<open>data\<close> field: these are \<open>InitAtlas\<close> and
  \<open>InitBlocks\<close>. \<open>InitAtlasData\<close> and \<open>InitBlocksData\<close> are the messages with the payload
  inside \<open>data\<close>, the shape that the handler of the worker reads; world.js posts neither.
\<close>

datatype request =
    InitAtlas
  | InitBlocks "(int \<times> blockType) list"
  | InitAtlasData
  | InitBlocksData "(int \<times> blockType) list"
  | Generate int int
  | MeshReq meshTask

datatype response =
    Generated int int grid
  | Meshed int int geometryData
  | Log string
  | Error js_error

text \<open>
  The module state of world.js: \<open>chunkStorage\<close> (a Map, which keeps insertion order),
  \<open>meshRebuildQueue\<close> (a Set, which keeps insertion order) and the messages handed to
  \<open>worker.postMessage\<close>, oldest first.
\<close>

record world =
  chunkStorage :: "(chunkKey \<times> chunk) list"
  meshRebuildQueue :: "chunkKey list"
  posted :: "request list"

definition BLOCK_TYPES :: "(int \<times> blockType) list" where
  "BLOCK_TYPES =
     [(0, \<lparr>bt_id = 0, bt_name = ''grass'', bt_transparent = False\<rparr>),
      (1, \<lparr>bt_id = 1, bt_name = ''dirt'', bt_transparent = False\<rparr>),
      (2, \<lparr>bt_id = 2, bt_name = ''stone'', bt_transparent = False\<rparr>),
      (3, \<lparr>bt_id = 3, bt_name = ''water'', bt_transparent = True\<rparr>),
      (4, \<lparr>bt_id = 4, bt_name = ''sand'', bt_transparent = False\<rparr>),
      (5, \<lparr>bt_id = 5, bt_name = ''bedrock'', bt_transparent = False\<rparr>),
      (BLOCK_AIR, \<lparr>bt_id = BLOCK_AIR, bt_name = ''air'', bt_transparent = True\<rparr>)]"

section \<open>Chunk store operations (world.js)\<close>

definition getChunk :: "world \<Rightarrow> int \<Rightarrow> int \<Rightarrow> chunk option" where
  "getChunk w x z = map_of (chunkStorage w) (x, z)"

text \<open>
  A chunk object is reached only through \<open>chunkStorage\<close>; assigning to one of its fields
  is an update of the entry under its key.
\<close>

definition setChunk :: "world \<Rightarrow> chunkKey \<Rightarrow> chunk \<Rightarrow> world" where
  "setChunk w k c = w\<lparr>chunkStorage := AList.update k c (chunkStorage w)\<rparr>"

definition postMessage :: "world \<Rightarrow> request \<Rightarrow> world" where
  "postMessage w r = w\<lparr>posted := posted w @ [r]\<rparr>"

definition disposeChunkMesh :: "chunk \<Rightarrow> chunk" where
  "disposeChunkMesh c = (case mesh c of None \<Rightarrow> c | Some m \<Rightarrow> c\<lparr>mesh := None\<rparr>)"

text \<open>A child mesh is created for a bucket that is present and has positions.\<close>

definition group_children :: "geometryData \<Rightarrow> group" where
  "group_children gd =
     (case opaque gd of
        None \<Rightarrow> []
      | Some g \<Rightarrow> if length (positions g) > 0 then [g] else [])
     @ (case transparent gd of
        None \<Rightarrow> []
      | Some g \<Rightarrow> if length (positions g) > 0 then [g] else [])"

definition buildMeshFromData :: "chunk \<Rightarrow> geometryData \<Rightarrow> chunk" where
  "buildMeshFromData c gd = (disposeChunkMesh c)\<lparr>mesh := Some (group_children gd)\<rparr>"

definition requiredOffsets :: "(int \<times> int) list" where
  "requiredOffsets = [(1, 0), (-1, 0), (0, 1), (0, -1)]"

text \<open>The loop of \<open>getNeighbourDataForMeshing\<close>: \<open>None\<close> is the early \<open>return null\<close>.\<close>

fun neighbourLoop ::
  "world \<Rightarrow> int \<Rightarrow> int \<Rightarrow> (int \<times> int) list \<Rightarrow> neighbourData \<Rightarrow> neighbourData option" where
  "neighbourLoop w x z [] acc = Some acc"
| "neighbourLoop w x z ((dx, dz) # offs) acc =
     (case getChunk w (x + dx) (z + dz) of
        None \<Rightarrow> None
      | Some nc \<Rightarrow>
          (case blocks nc of
             None \<Rightarrow> None
           | Some g \<Rightarrow>
               if CHUNK_STATE (state nc) < CHUNK_STATE DATA_LOADED then None
               else neighbourLoop w x z offs
                      (AList.update (dx, dz) \<lparr>nb_blocks = Some g\<rparr> acc)))"

definition getNeighbourDataForMeshing :: "world \<Rightarrow> int \<Rightarrow> int \<Rightarrow> neighbourData option" where
  "getNeighbourDataForMeshing w x z = neighbourLoop w x z requiredOffsets []"

text \<open>
  \<open>requestChunkMesh(chunk)\<close>. The chunk object is named by the key it is stored under;
  an absent entry is the \<open>!chunk\<close> case.
\<close>

definition requestChunkMesh :: "world \<Rightarrow> chunkKey \<Rightarrow> world" where
  "requestChunkMesh w k =
     (case map_of (chunkStorage w) k of
        None \<Rightarrow> w
      | Some c \<Rightarrow>
          (case blocks c of
             None \<Rightarrow> w
           | Some g \<Rightarrow>
               if CHUNK_STATE (state c) < CHUNK_STATE DATA_LOADED \<or> state c = MESHING then w
               else
                 (case getNeighbourDataForMeshing w (cx c) (cz c) of
                    None \<Rightarrow> setChunk w k (c\<lparr>state := DATA_LOADED\<rparr>)
                  | Some nd \<Rightarrow>
                      postMessage (setChunk w k (c\<lparr>state := MESHING\<rparr>))
                        (MeshReq \<lparr>m_cx = cx c, m_cz = cz c, m_blocks = g,
                                  m_chunkSize = CHUNK_SIZE, m_chunkHeight = CHUNK_HEIGHT,
                                  m_neighbourData = Some nd\<rparr>))))"

fun updateNeighboursLoop :: "world \<Rightarrow> int \<Rightarrow> int \<Rightarrow> (int \<times> int) list \<Rightarrow> world" where
  "updateNeighboursLoop w x z [] = w"
| "updateNeighboursLoop w x z ((dx, dz) # offs) =
     updateNeighboursLoop
       (case getChunk w (x + dx) (z + dz) of
          None \<Rightarrow> w
        | Some n \<Rightarrow> if state n = DATA_LOADED then requestChunkMesh w (x + dx, z + dz) else w)
       x z offs"

definition updateNeighboursOf :: "world \<Rightarrow> int \<Rightarrow> int \<Rightarrow> world" where
  "updateNeighboursOf w x z = updateNeighboursLoop w x z requiredOffsets"

definition requestChunkGeneration :: "world \<Rightarrow> int \<Rightarrow> int \<Rightarrow> world" where
  "requestChunkGeneration w x z =
     (case map_of (chunkStorage w) (x, z) of
        Some c \<Rightarrow> w
      | None \<Rightarrow>
          postMessage
            (setChunk w (x, z)
               \<lparr>cx = x, cz = z, blocks = None, mesh = None, state = LOADING_DATA\<rparr>)
            (Generate x z))"

text \<open>\<open>worker.onmessage\<close>: the handler of the messages that come back from the worker.\<close>

fun onmessage :: "world \<Rightarrow> response \<Rightarrow> world" where
  "onmessage w (Generated dcx dcz g) =
     (case getChunk w dcx dcz of
        None \<Rightarrow> w
      | Some c \<Rightarrow>
          if state c = LOADING_DATA
          then requestChunkMesh
                 (setChunk w (dcx, dcz) (c\<lparr>blocks := Some g, state := DATA_LOADED\<rparr>))
                 (dcx, dcz)
          else w)"
| "onmessage w (Meshed dcx dcz gd) =
     (case getChunk w dcx dcz of
        None \<Rightarrow> w
      | Some c \<Rightarrow>
          if state c = MESHING
          then updateNeighboursOf
                 (setChunk w (dcx, dcz) ((buildMeshFromData c gd)\<lparr>state := READY\<rparr>))
                 (cx c) (cz c)
          else w)"
| "onmessage w (Log m) = w"
| "onmessage w (Error e) = w"

text \<open>
  \<open>worldToVoxelCoords\<close>. The horizontal coordinates are block coordinates, integers, as
  every caller passes them; on integers \<open>Math.floor(x / 16)\<close> is \<open>x div 16\<close> and
  \<open>euclideanModulo(x, 16)\<close> is \<open>x mod 16\<close>. The height is floored by the code itself.
\<close>

definition worldToVoxelCoords :: "int \<Rightarrow> real \<Rightarrow> int \<Rightarrow> int \<times> int \<times> int \<times> int \<times> int" where
  "worldToVoxelCoords x y z =
     (x div CHUNK_SIZE, z div CHUNK_SIZE, x mod CHUNK_SIZE, \<lfloor>y\<rfloor>, z mod CHUNK_SIZE)"

definition getBlock :: "world \<Rightarrow> int \<Rightarrow> real \<Rightarrow> int \<Rightarrow> js_error + int" where
  "getBlock w x y z =
     (case worldToVoxelCoords x y z of
        (ccx, ccz, lx, ly, lz) \<Rightarrow>
          if ly < 0 \<or> ly \<ge> CHUNK_HEIGHT then Inr BLOCK_AIR
          else
            (case getChunk w ccx ccz of
               None \<Rightarrow> Inr BLOCK_AIR
             | Some c \<Rightarrow>
                 (case blocks c of
                    None \<Rightarrow> Inr BLOCK_AIR
                  | Some g \<Rightarrow>
                      if CHUNK_STATE (state c) < CHUNK_STATE DATA_LOADED then Inr BLOCK_AIR
                      else
                        (case cell g lx ly lz of
                           Inl e \<Rightarrow> Inl e
                         | Inr None \<Rightarrow> Inr BLOCK_AIR
                         | Inr (Some b) \<Rightarrow> Inr b))))"

text \<open>A JavaScript Set keeps one copy of a key, in insertion order.\<close>

definition set_add :: "'a list \<Rightarrow> 'a \<Rightarrow> 'a list" where
  "set_add q k = (if k \<in> set q then q else q @ [k])"

definition flagChunkForRebuild :: "world \<Rightarrow> int \<Rightarrow> int \<Rightarrow> world" where
  "flagChunkForRebuild w x z =
     (case map_of (chunkStorage w) (x, z) of
        None \<Rightarrow> w
      | Some c \<Rightarrow>
          (case blocks c of
             None \<Rightarrow> w
           | Some g \<Rightarrow>
               if CHUNK_STATE (state c) \<ge> CHUNK_STATE DATA_LOADED \<and> state c \<noteq> MESHING
               then w\<lparr>meshRebuildQueue := set_add (meshRebuildQueue w) (x, z)\<rparr>
               else w))"

text \<open>
  \<open>addBlock\<close>. Reading \<open>chunk.blocks[lx][ly][lz]\<close> can throw on a grid that lacks the
  column or the row, so the result is an error or the new module state.
\<close>

definition addBlock :: "world \<Rightarrow> int \<Rightarrow> real \<Rightarrow> int \<Rightarrow> int \<Rightarrow> js_error + world" where
  "addBlock w x y z blockId =
     (case worldToVoxelCoords x y z of
        (ccx, ccz, lx, ly, lz) \<Rightarrow>
          if ly < 0 \<or> ly \<ge> CHUNK_HEIGHT then Inr w
          else
            (case getChunk w ccx ccz of
               None \<Rightarrow> Inr w
             | Some c \<Rightarrow>
                 (case blocks c of
                    None \<Rightarrow> Inr w
                  | Some g \<Rightarrow>
                      if CHUNK_STATE (state c) < CHUNK_STATE DATA_LOADED then Inr w
                      else
                        (case cell g lx ly lz of
                           Inl e \<Rightarrow> Inl e
                         | Inr old \<Rightarrow>
                             if old = Some blockId then Inr w
                             else
                               let w1 = setChunk w (ccx, ccz)
                                          (c\<lparr>blocks := Some (cell_set g lx ly lz blockId)\<rparr>);
                                   w2 = flagChunkForRebuild w1 ccx ccz;
                                   w3 = (if lx = 0 then flagChunkForRebuild w2 (ccx - 1) ccz else w2);
                                   w4 = (if lx = CHUNK_SIZE - 1
                                         then flagChunkForRebuild w3 (ccx + 1) ccz else w3);
                                   w5 = (if lz = 0 then flagChunkForRebuild w4 ccx (ccz - 1) else w4);
                                   w6 = (if lz = CHUNK_SIZE - 1
                                         then flagChunkForRebuild w5 ccx (ccz + 1) else w5)
                               in Inr w6))))"

definition removeBlock :: "world \<Rightarrow> int \<Rightarrow> real \<Rightarrow> int \<Rightarrow> js_error + world" where
  "removeBlock w x y z = addBlock w x y z BLOCK_AIR"

text \<open>
  The loop of \<open>processRebuildQueue\<close> over the snapshot of the queue; \<open>processed\<close> counts
  the requests made, and reaching \<open>maxPerFrame\<close> is the \<open>break\<close>.
\<close>

fun rebuildLoop :: "nat \<Rightarrow> chunkKey list \<Rightarrow> nat \<Rightarrow> world \<Rightarrow> world" where
  "rebuildLoop maxPerFrame [] processed w = w"
| "rebuildLoop maxPerFrame (k # ks) processed w =
     (if processed \<ge> maxPerFrame then w
      else
        (case map_of (chunkStorage w) k of
           None \<Rightarrow>
             rebuildLoop maxPerFrame ks processed
               (w\<lparr>meshRebuildQueue := removeAll k (meshRebuildQueue w)\<rparr>)
         | Some c \<Rightarrow>
             if state c \<noteq> MESHING \<and> CHUNK_STATE (state c) \<ge> CHUNK_STATE DATA_LOADED
             then
               (let w1 = requestChunkMesh w k
                in rebuildLoop maxPerFrame ks (processed + 1)
                     (w1\<lparr>meshRebuildQueue := removeAll k (meshRebuildQueue w1)\<rparr>))
             else if state c = UNLOADING
             then rebuildLoop maxPerFrame ks processed
                    (w\<lparr>meshRebuildQueue := removeAll k (meshRebuildQueue w)\<rparr>)
             else if state c = MESHING
             then rebuildLoop maxPerFrame ks processed
                    (w\<lparr>meshRebuildQueue := removeAll k (meshRebuildQueue w)\<rparr>)
             else rebuildLoop maxPerFrame ks processed w))"

definition processRebuildQueue :: "world \<Rightarrow> nat \<Rightarrow> world" where
  "processRebuildQueue w maxPerFrame = rebuildLoop maxPerFrame (meshRebuildQueue w) 0 w"

text \<open>The offsets \<open>-RENDER_DISTANCE .. RENDER_DISTANCE\<close>, and the keys in range, in loop order.\<close>

definition renderOffsets :: "int list" where
  "renderOffsets = [- RENDER_DISTANCE ..  RENDER_DISTANCE]"

definition inRangeKeys :: "int \<Rightarrow> int \<Rightarrow> chunkKey list" where
  "inRangeKeys pcx pcz =
     map (\<lambda>(dx, dz). (pcx + dx, pcz + dz)) (List.product renderOffsets renderOffsets)"

text \<open>Phase 1 of \<open>updateWorld\<close>, for one key in range.\<close>

definition ensureChunk :: "world \<Rightarrow> chunkKey \<Rightarrow> world" where
  "ensureChunk w k =
     (case map_of (chunkStorage w) k of
        None \<Rightarrow> requestChunkGeneration w (fst k) (snd k)
      | Some c \<Rightarrow>
          if state c = UNKNOWN then requestChunkGeneration w (fst k) (snd k)
          else if state c = UNLOADING then setChunk w k (c\<lparr>state := READY\<rparr>)
          else w)"

text \<open>
  Phase 2 of \<open>updateWorld\<close>, for one stored entry: the chunk is marked UNLOADING, its
  mesh disposed, and the entry deleted at once.
\<close>

definition unloadEntry :: "chunkKey list \<Rightarrow> world \<Rightarrow> chunkKey \<times> chunk \<Rightarrow> world" where
  "unloadEntry keys w e =
     (if fst e \<notin> set keys \<and> state (snd e) \<noteq> UNLOADING
      then w\<lparr>chunkStorage := AList.delete (fst e) (chunkStorage w)\<rparr>
      else w)"

definition updateWorld :: "world \<Rightarrow> real \<Rightarrow> real \<Rightarrow> world" where
  "updateWorld w px pz =
     (let playerCX = \<lfloor>px / real_of_int CHUNK_SIZE\<rfloor>;
          playerCZ = \<lfloor>pz / real_of_int CHUNK_SIZE\<rfloor>;
          keys = inRangeKeys playerCX playerCZ;
          w1 = foldl ensureChunk w keys;
          w2 = foldl (unloadEntry keys) w1 (chunkStorage w1)
      in processRebuildQueue w2 1)"

definition emptyWorld :: world where
  "emptyWorld = \<lparr>chunkStorage = [], meshRebuildQueue = [], posted = []\<rparr>"

text \<open>
  \<open>initializeWorldResources\<close> posts \<open>{ type: 'initAtlas', atlasConfig }\<close> and then
  \<open>{ type: 'initBlocks', blockTypes }\<close>, neither with a \<open>data\<close> field.
\<close>

definition initializeWorldResources :: "world \<Rightarrow> world" where
  "initializeWorldResources w = postMessage (postMessage w InitAtlas) (InitBlocks BLOCK_TYPES)"

text \<open>
  The states of the chunk store that the module can be in: it starts empty, and moves by
  the exported calls and by the messages that arrive from the worker. Any message is
  allowed to arrive, which covers late and stale ones.
\<close>

inductive reachable :: "world \<Rightarrow> bool" where
  reach_init: "reachable emptyWorld"
| reach_resources: "reachable w \<Longrightarrow> reachable (initializeWorldResources w)"
| reach_update: "reachable w \<Longrightarrow> reachable (updateWorld w px pz)"
| reach_message: "reachable w \<Longrightarrow> reachable (onmessage w m)"
| reach_addBlock: "reachable w \<Longrightarrow> addBlock w x y z b = Inr w' \<Longrightarrow> reachable w'"
| reach_rebuild: "reachable w \<Longrightarrow> reachable (processRebuildQueue w n)"

text \<open>
  The same moves as events, and the history of the module state under a sequence of them,
  oldest state first. A call of \<open>addBlock\<close> that throws has thrown on reading the cell,
  before anything is written, and leaves the state as it was.
\<close>

datatype event =
    Resources
  | Update real real
  | Message response
  | AddBlock int real int int
  | Rebuild nat

fun perform :: "world \<Rightarrow> event \<Rightarrow> world" where
  "perform w Resources = initializeWorldResources w"
| "perform w (Update px pz) = updateWorld w px pz"
| "perform w (Message m) = onmessage w m"
| "perform w (AddBlock x y z b) = (case addBlock w x y z b of Inl e \<Rightarrow> w | Inr w' \<Rightarrow> w')"
| "perform w (Rebuild n) = processRebuildQueue w n"

fun run :: "world \<Rightarrow> event list \<Rightarrow> world list" where
  "run w [] = [w]"
| "run w (ev # evs) = w # run (perform w ev) evs"

subsection \<open>Properties named by the specification\<close>

text \<open>
  The chunks that \<open>addBlock\<close> is to flag, in the words of the specification: the owning
  chunk, and each lateral neighbour whose shared face the written cell touches.
\<close>

definition rebuildTargets :: "int \<Rightarrow> int \<Rightarrow> int \<Rightarrow> int \<Rightarrow> chunkKey list" where
  "rebuildTargets ccx ccz lx lz =
     [(ccx, ccz)]
     @ (if lx = 0 then [(ccx - 1, ccz)] else [])
     @ (if lx = CHUNK_SIZE - 1 then [(ccx + 1, ccz)] else [])
     @ (if lz = 0 then [(ccx, ccz - 1)] else [])
     @ (if lz = CHUNK_SIZE - 1 then [(ccx, ccz + 1)] else [])"

definition flagAll :: "world \<Rightarrow> chunkKey list \<Rightarrow> world" where
  "flagAll w ks = foldl (\<lambda>v k. flagChunkForRebuild v (fst k) (snd k)) w ks"

text \<open>The guard of \<open>flagChunkForRebuild\<close>: the chunk has block data and is not being meshed.\<close>

definition rebuildable :: "world \<Rightarrow> chunkKey \<Rightarrow> bool" where
  "rebuildable w k =
     (case map_of (chunkStorage w) k of
        None \<Rightarrow> False
      | Some c \<Rightarrow>
          blocks c \<noteq> None \<and> CHUNK_STATE (state c) \<ge> CHUNK_STATE DATA_LOADED
          \<and> state c \<noteq> MESHING)"

text \<open>
  The lifecycle invariant as the specification words it, and the states that a chunk with
  a mesh can be in.
\<close>

definition geometry_only_when_READY :: "world \<Rightarrow> bool" where
  "geometry_only_when_READY w =
     list_all (\<lambda>e. mesh (snd e) \<noteq> None \<longrightarrow> state (snd e) = READY) (chunkStorage w)"

definition geometry_only_with_data :: "world \<Rightarrow> bool" where
  "geometry_only_with_data w =
     list_all (\<lambda>e. mesh (snd e) \<noteq> None \<longrightarrow>
                 state (snd e) = DATA_LOADED \<or> state (snd e) = MESHING \<or> state (snd e) = READY)
       (chunkStorage w)"

text \<open>
  The lifecycle invariant over a history: in its last state, a chunk whose mesh is
  non-null is READY, or it is in MESHING or DATA_LOADED and the chunk under its key held
  that same mesh in an earlier state of the history, in which it was READY.
\<close>

definition held_when_READY :: "world \<Rightarrow> chunkKey \<Rightarrow> group option \<Rightarrow> bool" where
  "held_when_READY v k m =
     (case map_of (chunkStorage v) k of
        None \<Rightarrow> False
      | Some c \<Rightarrow> state c = READY \<and> mesh c = m)"

definition geometry_since_READY :: "world list \<Rightarrow> bool" where
  "geometry_since_READY ws =
     list_all (\<lambda>e. mesh (snd e) \<noteq> None \<longrightarrow>
                 state (snd e) = READY
                 \<or> ((state (snd e) = MESHING \<or> state (snd e) = DATA_LOADED)
                     \<and> list_ex (\<lambda>v. held_when_READY v (fst e) (mesh (snd e))) (butlast ws)))
       (chunkStorage (last ws))"

text \<open>
  Two relations used in the proofs: the keys of the store are distinct, and every mesh
  of the second state is the mesh of the chunk under the same key in the first.
\<close>

definition distinct_keys :: "world \<Rightarrow> bool" where
  "distinct_keys w = distinct (map fst (chunkStorage w))"

definition mesh_kept :: "world \<Rightarrow> world \<Rightarrow> bool" where
  "mesh_kept w w' =
     (\<forall>k c'. map_of (chunkStorage w') k = Some c' \<and> mesh c' \<noteq> None \<longrightarrow>
        (\<exists>c. map_of (chunkStorage w) k = Some c \<and> mesh c = mesh c'))"

definition state_of :: "world \<Rightarrow> int \<Rightarrow> int \<Rightarrow> chunk_state option" where
  "state_of w x z = map_option state (getChunk w x z)"

definition has_data :: "world \<Rightarrow> int \<Rightarrow> int \<Rightarrow> bool" where
  "has_data w x z =
     (case getChunk w x z of
        None \<Rightarrow> False
      | Some c \<Rightarrow> blocks c \<noteq> None \<and> CHUNK_STATE (state c) \<ge> CHUNK_STATE DATA_LOADED)"

definition is_MeshReq :: "request \<Rightarrow> bool" where
  "is_MeshReq r = (case r of MeshReq t \<Rightarrow> True | _ \<Rightarrow> False)"

subsection \<open>Concrete stores\<close>

definition uniformGrid :: "int \<Rightarrow> grid" where
  "uniformGrid b =
     replicate (nat CHUNK_SIZE)
       (replicate (nat CHUNK_HEIGHT) (replicate (nat CHUNK_SIZE) (Some b)))"

definition noGeometry :: geometryData where
  "noGeometry = \<lparr>opaque = None, transparent = None\<rparr>"

definition freshChunk :: "chunkKey \<Rightarrow> chunk" where
  "freshChunk k = \<lparr>cx = fst k, cz = snd k, blocks = None, mesh = None, state = LOADING_DATA\<rparr>"

text \<open>The player stands at the origin: the 13 by 13 chunks around it are requested.\<close>

definition started :: world where
  "started = updateWorld emptyWorld 0 0"

text \<open>The four neighbours of chunk (0,0) load first, then the chunk itself, which is meshed.\<close>

definition centreMeshed :: world where
  "centreMeshed =
     foldl onmessage started
       [Generated 1 0 (uniformGrid 2), Generated (-1) 0 (uniformGrid 2),
        Generated 0 1 (uniformGrid 2), Generated 0 (-1) (uniformGrid 2),
        Generated 0 0 (uniformGrid 2), Meshed 0 0 noGeometry]"

text \<open>A grass block is then placed inside chunk (0,0), and the rebuild queue processed.\<close>

definition edited :: world where
  "edited = (case addBlock centreMeshed 5 5 5 0 of Inr w \<Rightarrow> w | Inl e \<Rightarrow> centreMeshed)"

definition remeshing :: world where
  "remeshing = processRebuildQueue edited 1"

text \<open>
  The same, as events. In \<open>deferEvents\<close> the player has instead moved six chunks east
  when the queue is processed: chunk (-1,0) is out of range and unloaded, and the request
  for chunk (0,0) is deferred.
\<close>

definition meshedEvents :: "event list" where
  "meshedEvents =
     [Update 0 0,
      Message (Generated 1 0 (uniformGrid 2)), Message (Generated (-1) 0 (uniformGrid 2)),
      Message (Generated 0 1 (uniformGrid 2)), Message (Generated 0 (-1) (uniformGrid 2)),
      Message (Generated 0 0 (uniformGrid 2)), Message (Meshed 0 0 noGeometry),
      AddBlock 5 5 5 0]"

definition remeshEvents :: "event list" where
  "remeshEvents = meshedEvents @ [Rebuild 1]"

definition deferEvents :: "event list" where
  "deferEvents = meshedEvents @ [Update 96 0]"

definition deferredRemesh :: world where
  "deferredRemesh = updateWorld edited 96 0"

text \<open>
  Chunk (0,0) loads first and is deferred; three of its neighbours load; the fourth,
  (-1,0), loads last.
\<close>

definition centreWaiting :: world where
  "centreWaiting =
     foldl onmessage started
       [Generated 0 0 (uniformGrid 2), Generated 1 0 (uniformGrid 2),
        Generated 0 1 (uniformGrid 2), Generated 0 (-1) (uniformGrid 2)]"

definition lastNeighbourLoaded :: world where
  "lastNeighbourLoaded = onmessage centreWaiting (Generated (-1) 0 (uniformGrid 2))"

section \<open>The mesher and the worker (worldWorker.js)\<close>

record direction =
  dir :: "int \<times> int \<times> int"
  dname :: string
  corners :: "(int \<times> int \<times> int) list"

text \<open>
  The direction table of worldWorker.js. Its literal holds nothing but the comment
  \<open>Same as in your previous mesher\<close>: the array is empty.
\<close>

definition DIRECTIONS :: "direction list" where
  "DIRECTIONS = []"

text \<open>The direction table of worldMesher.js, the mesher that the comment refers to.\<close>

definition mesher_DIRECTIONS :: "direction list" where
  "mesher_DIRECTIONS =
     [\<lparr>dir = (1, 0, 0), dname = ''right'',
        corners = [(1, 1, 1), (1, 1, 0), (1, 0, 0), (1, 0, 1)]\<rparr>,
      \<lparr>dir = (-1, 0, 0), dname = ''left'',
        corners = [(0, 1, 0), (0, 1, 1), (0, 0, 1), (0, 0, 0)]\<rparr>,
      \<lparr>dir = (0, 1, 0), dname = ''top'',
        corners = [(1, 1, 1), (0, 1, 1), (0, 1, 0), (1, 1, 0)]\<rparr>,
      \<lparr>dir = (0, -1, 0), dname = ''bottom'',
        corners = [(0, 0, 1), (1, 0, 1), (1, 0, 0), (0, 0, 0)]\<rparr>,
      \<lparr>dir = (0, 0, 1), dname = ''front'',
        corners = [(0, 1, 1), (1, 1, 1), (1, 0, 1), (0, 0, 1)]\<rparr>,
      \<lparr>dir = (0, 0, -1), dname = ''back'',
        corners = [(1, 1, 0), (0, 1, 0), (0, 0, 0), (1, 0, 0)]\<rparr>]"

definition calculateUVForWorker :: "blockType \<Rightarrow> string \<Rightarrow> int \<times> int \<times> int \<Rightarrow> int list" where
  "calculateUVForWorker bt faceName corner =
     (case corner of
        (c0, c1, c2) \<Rightarrow>
          [if faceName = ''right'' \<or> faceName = ''left'' then c2 else c0,
           if faceName = ''top'' \<or> faceName = ''bottom'' then c2 else c1])"

text \<open>\<open>blocks[x]?.[y]?.[z]\<close>: optional chaining reads \<open>undefined\<close> instead of throwing.\<close>

definition cell_opt :: "grid \<Rightarrow> int \<Rightarrow> int \<Rightarrow> int \<Rightarrow> int option" where
  "cell_opt g x y z =
     (case js_index g x of
        None \<Rightarrow> None
      | Some col \<Rightarrow>
          (case js_index col y of
             None \<Rightarrow> None
           | Some row \<Rightarrow> (case js_index row z of None \<Rightarrow> None | Some v \<Rightarrow> v)))"

text \<open>
  The closure \<open>getBlock\<close> of \<open>buildMeshGeometryData\<close>. The mesher calls it from inside
  its loops only, where \<open>chunkSize\<close> is positive; for \<open>chunkSize = 0\<close> the division
  yields a key that names no neighbour, which is the AIR branch.
\<close>

definition mesherGetBlock ::
  "meshTask \<Rightarrow> neighbourData option \<Rightarrow> int \<Rightarrow> int \<Rightarrow> int \<Rightarrow> js_error + int" where
  "mesherGetBlock t nd lx ly lz =
     (if ly < 0 \<or> ly \<ge> m_chunkHeight t then Inr BLOCK_AIR
      else if lx \<ge> 0 \<and> lx < m_chunkSize t \<and> lz \<ge> 0 \<and> lz < m_chunkSize t
      then
        (case cell (m_blocks t) lx ly lz of
           Inl e \<Rightarrow> Inl e
         | Inr None \<Rightarrow> Inr BLOCK_AIR
         | Inr (Some b) \<Rightarrow> Inr b)
      else if m_chunkSize t = 0 then Inr BLOCK_AIR
      else
        (let dx = lx div m_chunkSize t;
             dz = lz div m_chunkSize t
         in case nd of
              None \<Rightarrow> Inr BLOCK_AIR
            | Some entries \<Rightarrow>
                (case map_of entries (dx, dz) of
                   None \<Rightarrow> Inr BLOCK_AIR
                 | Some nb \<Rightarrow>
                     (case nb_blocks nb of
                        None \<Rightarrow> Inr BLOCK_AIR
                      | Some g \<Rightarrow>
                          let nx = lx - dx * m_chunkSize t;
                              nz = lz - dz * m_chunkSize t
                          in if nx < 0 \<or> nx \<ge> m_chunkSize t \<or> nz < 0 \<or> nz \<ge> m_chunkSize t
                             then Inr BLOCK_AIR
                             else Inr (case cell_opt g nx ly nz of
                                         None \<Rightarrow> BLOCK_AIR
                                       | Some b \<Rightarrow> b)))))"

record geometries =
  geo_opaque :: geometry
  geo_transparent :: geometry

definition emptyGeometry :: geometry where
  "emptyGeometry = \<lparr>positions = [], normals = [], uvs = [], indices = []\<rparr>"

definition emptyGeometries :: geometries where
  "emptyGeometries = \<lparr>geo_opaque = emptyGeometry, geo_transparent = emptyGeometry\<rparr>"

text \<open>One pass of the loop over the corners of a face.\<close>

definition pushCorner ::
  "blockType \<Rightarrow> int \<Rightarrow> int \<Rightarrow> int \<Rightarrow> direction \<Rightarrow> geometry \<Rightarrow> int \<times> int \<times> int \<Rightarrow> geometry" where
  "pushCorner ct x y z d geo corner =
     (case corner of
        (c0, c1, c2) \<Rightarrow>
          (case dir d of
             (d0, d1, d2) \<Rightarrow>
               geo\<lparr>positions := positions geo @ [x + c0, y + c1, z + c2],
                   normals := normals geo @ [d0, d1, d2],
                   uvs := uvs geo @ calculateUVForWorker ct (dname d) corner\<rparr>))"

text \<open>
  The body of \<open>if (shouldRenderFace)\<close> on the chosen bucket. \<open>indexOffset\<close> is
  \<open>geo.positions.length / 3\<close>; three numbers are pushed per vertex, so the division is exact.
\<close>

definition pushFace ::
  "blockType \<Rightarrow> int \<Rightarrow> int \<Rightarrow> int \<Rightarrow> direction \<Rightarrow> geometry \<Rightarrow> geometry" where
  "pushFace ct x y z d geo =
     (let indexOffset = length (positions geo) div 3;
          geo1 = foldl (pushCorner ct x y z d) geo (corners d)
      in geo1\<lparr>indices := indices geo1 @
                  [indexOffset, indexOffset + 1, indexOffset + 2,
                   indexOffset + 2, indexOffset + 1, indexOffset + 3]\<rparr>)"

definition shouldRenderFace :: "(int \<times> blockType) list \<Rightarrow> blockType \<Rightarrow> int \<Rightarrow> bool" where
  "shouldRenderFace blockTypes currentBlockType neighbourBlockID =
     (case map_of blockTypes neighbourBlockID of
        None \<Rightarrow> True
      | Some neighbourBlockType \<Rightarrow>
          if neighbourBlockID = BLOCK_AIR then True
          else if bt_transparent neighbourBlockType \<and> \<not> bt_transparent currentBlockType then True
          else False)"

text \<open>The body of the loop over the directions, for the block at \<open>(x, y, z)\<close>.\<close>

definition meshDirection ::
  "meshTask \<Rightarrow> neighbourData option \<Rightarrow> (int \<times> blockType) list \<Rightarrow> blockType \<Rightarrow>
   int \<Rightarrow> int \<Rightarrow> int \<Rightarrow> geometries \<Rightarrow> direction \<Rightarrow> js_error + geometries" where
  "meshDirection t nd blockTypes ct x y z gs d =
     (case dir d of
        (d0, d1, d2) \<Rightarrow>
          (case mesherGetBlock t nd (x + d0) (y + d1) (z + d2) of
             Inl e \<Rightarrow> Inl e
           | Inr neighbourBlockID \<Rightarrow>
               if shouldRenderFace blockTypes ct neighbourBlockID
               then
                 (if bt_transparent ct
                  then Inr (gs\<lparr>geo_transparent := pushFace ct x y z d (geo_transparent gs)\<rparr>)
                  else Inr (gs\<lparr>geo_opaque := pushFace ct x y z d (geo_opaque gs)\<rparr>))
               else Inr gs))"

text \<open>A loop whose body can throw: the first exception ends it.\<close>

fun forEachE :: "('s \<Rightarrow> 'a \<Rightarrow> js_error + 's) \<Rightarrow> 's \<Rightarrow> 'a list \<Rightarrow> js_error + 's" where
  "forEachE f s [] = Inr s"
| "forEachE f s (x # xs) = (case f s x of Inl e \<Rightarrow> Inl e | Inr s' \<Rightarrow> forEachE f s' xs)"

text \<open>
  The body of the innermost cell loop. A hole of the grid reads \<open>undefined\<close>, for which
  \<open>blockTypes[undefined]\<close> is \<open>undefined\<close> too, and the cell is skipped.
\<close>

definition meshCell ::
  "direction list \<Rightarrow> meshTask \<Rightarrow> neighbourData option \<Rightarrow> (int \<times> blockType) list \<Rightarrow>
   geometries \<Rightarrow> int \<times> int \<times> int \<Rightarrow> js_error + geometries" where
  "meshCell dirs t nd blockTypes gs c =
     (case c of
        (x, y, z) \<Rightarrow>
          (case cell (m_blocks t) x y z of
             Inl e \<Rightarrow> Inl e
           | Inr None \<Rightarrow> Inr gs
           | Inr (Some currentBlockID) \<Rightarrow>
               (case map_of blockTypes currentBlockID of
                  None \<Rightarrow> Inr gs
                | Some ct \<Rightarrow>
                    if currentBlockID = BLOCK_AIR then Inr gs
                    else forEachE (meshDirection t nd blockTypes ct x y z) gs dirs)))"

text \<open>The cells in the order of the three nested loops: y outermost, then z, then x.\<close>

definition cellOrder :: "meshTask \<Rightarrow> (int \<times> int \<times> int) list" where
  "cellOrder t =
     concat (map (\<lambda>y. concat (map (\<lambda>z. map (\<lambda>x. (x, y, z)) [0 ..  m_chunkSize t - 1])
                                   [0 ..  m_chunkSize t - 1]))
                 [0 ..  m_chunkHeight t - 1])"

definition finalizeGeometry :: "geometry \<Rightarrow> geometry option" where
  "finalizeGeometry geo = (if length (indices geo) = 0 then None else Some geo)"

text \<open>
  The body of \<open>buildMeshGeometryData\<close> over a direction table, and the function itself,
  which loops over the module constant \<open>DIRECTIONS\<close>.
\<close>

definition buildMeshGeometryDataOver ::
  "direction list \<Rightarrow> meshTask \<Rightarrow> neighbourData option \<Rightarrow> (int \<times> blockType) list \<Rightarrow>
   js_error + geometryData" where
  "buildMeshGeometryDataOver dirs t nd blockTypes =
     (case forEachE (meshCell dirs t nd blockTypes) emptyGeometries (cellOrder t) of
        Inl e \<Rightarrow> Inl e
      | Inr gs \<Rightarrow>
          Inr \<lparr>opaque = finalizeGeometry (geo_opaque gs),
               transparent = finalizeGeometry (geo_transparent gs)\<rparr>)"

definition buildMeshGeometryData ::
  "meshTask \<Rightarrow> neighbourData option \<Rightarrow> (int \<times> blockType) list \<Rightarrow> js_error + geometryData" where
  "buildMeshGeometryData t nd blockTypes = buildMeshGeometryDataOver DIRECTIONS t nd blockTypes"

text \<open>
  The face-culling decision of \<open>buildChunkMesh\<close> in worldMesher.js, whose branch for two
  different transparent blocks is commented out.
\<close>

definition buildChunkMesh_shouldRenderFace ::
  "(int \<times> blockType) list \<Rightarrow> int \<Rightarrow> blockType \<Rightarrow> int \<Rightarrow> bool" where
  "buildChunkMesh_shouldRenderFace blockTypes currentBlockID currentBlockType neighbourBlockID =
     (case map_of blockTypes neighbourBlockID of
        None \<Rightarrow> True
      | Some neighbourBlockType \<Rightarrow>
          if neighbourBlockID = BLOCK_AIR then True
          else if bt_transparent neighbourBlockType
          then (if \<not> bt_transparent currentBlockType then True
                else if currentBlockID \<noteq> neighbourBlockID then False
                else False)
          else False)"

text \<open>
  The worker. Its state is the block-type table \<open>BLOCK_TYPES\<close>, which starts empty (the
  atlas configuration is not read by the placeholder UV function). \<open>generateChunkData\<close>
  draws on noise seeded from \<open>Math.random\<close>; the worker takes the generator as a parameter,
  whose result is the grid or the exception thrown. \<open>self.onmessage\<close> returns the new
  state and the messages posted; the \<open>catch\<close> turns an exception into an \<open>error\<close>
  message. For a message without a \<open>data\<close> field, \<open>data.blockTypes\<close> and
  \<open>data.atlasConfig\<close> read a property of \<open>undefined\<close>, which throws a TypeError.
\<close>

record worker =
  w_BLOCK_TYPES :: "(int \<times> blockType) list"

definition initialWorker :: worker where
  "initialWorker = \<lparr>w_BLOCK_TYPES = []\<rparr>"

fun worker_onmessage ::
  "(int \<Rightarrow> int \<Rightarrow> js_error + grid) \<Rightarrow> worker \<Rightarrow> request \<Rightarrow> worker \<times> response list" where
  "worker_onmessage gen ws (InitBlocksData bts) = (ws\<lparr>w_BLOCK_TYPES := bts\<rparr>, [])"
| "worker_onmessage gen ws InitAtlasData = (ws, [])"
| "worker_onmessage gen ws (InitBlocks bts) = (ws, [Error TypeError])"
| "worker_onmessage gen ws InitAtlas = (ws, [Error TypeError])"
| "worker_onmessage gen ws (Generate x z) =
     (case gen x z of
        Inl e \<Rightarrow> (ws, [Error e])
      | Inr g \<Rightarrow> (ws, [Generated x z g]))"
| "worker_onmessage gen ws (MeshReq t) =
     (case buildMeshGeometryData t (m_neighbourData t) (w_BLOCK_TYPES ws) of
        Inl e \<Rightarrow> (ws, [Error e])
      | Inr gd \<Rightarrow> (ws, [Meshed (m_cx t) (m_cz t) gd]))"

text \<open>The emission rule in the words of the specification, and the faces it selects.\<close>

definition face_emitted :: "(int \<times> blockType) list \<Rightarrow> blockType \<Rightarrow> int \<Rightarrow> bool" where
  "face_emitted blockTypes ct nb =
     (nb = BLOCK_AIR \<or> map_of blockTypes nb = None
      \<or> (case map_of blockTypes nb of
            None \<Rightarrow> False
          | Some nt \<Rightarrow> bt_transparent nt \<and> \<not> bt_transparent ct))"

text \<open>The block type of a cell that the mesher does not skip.\<close>

definition solidType :: "meshTask \<Rightarrow> (int \<times> blockType) list \<Rightarrow> int \<times> int \<times> int \<Rightarrow> blockType option" where
  "solidType t blockTypes c =
     (case c of
        (x, y, z) \<Rightarrow>
          (case cell (m_blocks t) x y z of
             Inr (Some b) \<Rightarrow> if b = BLOCK_AIR then None else map_of blockTypes b
           | _ \<Rightarrow> None))"

definition neighbourID :: "meshTask \<Rightarrow> neighbourData option \<Rightarrow> int \<times> int \<times> int \<Rightarrow> direction \<Rightarrow> int" where
  "neighbourID t nd c d =
     (case c of
        (x, y, z) \<Rightarrow>
          (case dir d of
             (d0, d1, d2) \<Rightarrow>
               (case mesherGetBlock t nd (x + d0) (y + d1) (z + d2) of
                  Inl e \<Rightarrow> BLOCK_AIR
                | Inr b \<Rightarrow> b)))"

text \<open>
  The faces of one bucket, in loop order: a cell that is not skipped, a direction of
  the table, the bucket of the cell's own transparency flag, and the emission rule.
\<close>

definition emittedFaces ::
  "direction list \<Rightarrow> meshTask \<Rightarrow> neighbourData option \<Rightarrow> (int \<times> blockType) list \<Rightarrow> bool \<Rightarrow>
   ((int \<times> int \<times> int) \<times> blockType \<times> direction) list" where
  "emittedFaces dirs t nd blockTypes bucket =
     concat (map (\<lambda>c. case solidType t blockTypes c of
                         None \<Rightarrow> []
                       | Some ct \<Rightarrow>
                           map (\<lambda>d. (c, ct, d))
                             (filter (\<lambda>d. bt_transparent ct = bucket
                                           \<and> face_emitted blockTypes ct (neighbourID t nd c d))
                                dirs))
                 (cellOrder t))"

definition assemble :: "((int \<times> int \<times> int) \<times> blockType \<times> direction) list \<Rightarrow> geometry" where
  "assemble fs =
     foldl (\<lambda>geo f. case f of ((x, y, z), ct, d) \<Rightarrow> pushFace ct x y z d geo) emptyGeometry fs"

text \<open>No read of the task's own grid inside the chunk bounds throws.\<close>

definition grid_readable :: "meshTask \<Rightarrow> bool" where
  "grid_readable t =
     list_all (\<lambda>c. case c of
                     (x, y, z) \<Rightarrow>
                       (case cell (m_blocks t) x y z of Inl e \<Rightarrow> False | Inr v \<Rightarrow> True))
       (cellOrder t)"

text \<open>The lateral neighbour that holds \<open>(lx, lz)\<close> has no entry, or no block data.\<close>

definition neighbourMissing :: "meshTask \<Rightarrow> neighbourData option \<Rightarrow> int \<Rightarrow> int \<Rightarrow> bool" where
  "neighbourMissing t nd lx lz =
     (case nd of
        None \<Rightarrow> True
      | Some entries \<Rightarrow>
          (case map_of entries (lx div m_chunkSize t, lz div m_chunkSize t) of
             None \<Rightarrow> True
           | Some nb \<Rightarrow> nb_blocks nb = None))"

text \<open>The numbers that one face adds to the position buffer.\<close>

definition facePositions :: "(int \<times> int \<times> int) \<times> blockType \<times> direction \<Rightarrow> int list" where
  "facePositions f =
     (case f of
        ((x, y, z), ct, d) \<Rightarrow>
          concat (map (\<lambda>corner. case corner of (c0, c1, c2) \<Rightarrow> [x + c0, y + c1, z + c2])
                    (corners d)))"

text \<open>The loop bodies when nothing throws, as state transformers.\<close>

definition dirStep ::
  "meshTask \<Rightarrow> neighbourData option \<Rightarrow> (int \<times> blockType) list \<Rightarrow> blockType \<Rightarrow>
   int \<times> int \<times> int \<Rightarrow> geometries \<Rightarrow> direction \<Rightarrow> geometries" where
  "dirStep t nd blockTypes ct c gs d =
     (case c of
        (x, y, z) \<Rightarrow>
          if face_emitted blockTypes ct (neighbourID t nd c d)
          then (if bt_transparent ct
                then gs\<lparr>geo_transparent := pushFace ct x y z d (geo_transparent gs)\<rparr>
                else gs\<lparr>geo_opaque := pushFace ct x y z d (geo_opaque gs)\<rparr>)
          else gs)"

definition cellStep ::
  "direction list \<Rightarrow> meshTask \<Rightarrow> neighbourData option \<Rightarrow> (int \<times> blockType) list \<Rightarrow>
   geometries \<Rightarrow> int \<times> int \<times> int \<Rightarrow> geometries" where
  "cellStep dirs t nd blockTypes gs c =
     (case solidType t blockTypes c of
        None \<Rightarrow> gs
      | Some ct \<Rightarrow> foldl (dirStep t nd blockTypes ct c) gs dirs)"

definition bucketOf :: "bool \<Rightarrow> geometries \<Rightarrow> geometry" where
  "bucketOf b gs = (if b then geo_transparent gs else geo_opaque gs)"

definition pushFaceOf :: "geometry \<Rightarrow> (int \<times> int \<times> int) \<times> blockType \<times> direction \<Rightarrow> geometry" where
  "pushFaceOf geo f = (case f of ((x, y, z), ct, d) \<Rightarrow> pushFace ct x y z d geo)"

definition water :: blockType where
  "water = \<lparr>bt_id = 3, bt_name = ''water'', bt_transparent = True\<rparr>"

definition stone :: blockType where
  "stone = \<lparr>bt_id = 2, bt_name = ''stone'', bt_transparent = False\<rparr>"

text \<open>
  A chunk of size 2 and height 1: a water block at (0,0,0) beside a stone block at
  (1,0,0), and air behind them at z = 1. No neighbour chunk has data.
\<close>

definition waterBesideStone :: meshTask where
  "waterBesideStone =
     \<lparr>m_cx = 0, m_cz = 0, m_blocks = [[[Some 3, Some (-1)]], [[Some 2, Some (-1)]]],
      m_chunkSize = 2, m_chunkHeight = 1, m_neighbourData = Some []\<rparr>"

text \<open>Two water blocks side by side along x, air behind them.\<close>

definition waterBesideWater :: meshTask where
  "waterBesideWater =
     \<lparr>m_cx = 0, m_cz = 0, m_blocks = [[[Some 3, Some (-1)]], [[Some 3, Some (-1)]]],
      m_chunkSize = 2, m_chunkHeight = 1, m_neighbourData = Some []\<rparr>"

text \<open>
  The mesh task that \<open>requestChunkMesh\<close> posts for chunk (0,0) when the chunk and its four
  neighbours are filled with stone.
\<close>

definition stoneTask :: meshTask where
  "stoneTask =
     \<lparr>m_cx = 0, m_cz = 0, m_blocks = uniformGrid 2,
      m_chunkSize = CHUNK_SIZE, m_chunkHeight = CHUNK_HEIGHT,
      m_neighbourData =
        Some [((1, 0), \<lparr>nb_blocks = Some (uniformGrid 2)\<rparr>),
              ((-1, 0), \<lparr>nb_blocks = Some (uniformGrid 2)\<rparr>),
              ((0, 1), \<lparr>nb_blocks = Some (uniformGrid 2)\<rparr>),
              ((0, -1), \<lparr>nb_blocks = Some (uniformGrid 2)\<rparr>)]\<rparr>"


section \<open>Biome weights (worldgen.js)\<close>

text \<open>
  JavaScript numbers are modelled as real numbers: rounding is not modelled. Of a biome
  definition, the fields that \<open>calculateBiomeWeights\<close> reads are kept.
\<close>

record biome =
  b_name :: string
  noiseCenter :: real
  noiseRadius :: real

definition BIOMES :: "biome list" where
  "BIOMES =
     [\<lparr>b_name = ''desert'', noiseCenter = 15 / 100, noiseRadius = 2 / 10\<rparr>,
      \<lparr>b_name = ''plains'', noiseCenter = 5 / 10, noiseRadius = 25 / 100\<rparr>,
      \<lparr>b_name = ''hills'', noiseCenter = 85 / 100, noiseRadius = 2 / 10\<rparr>]"

text \<open>
  The first loop of \<open>calculateBiomeWeights\<close>: the weights object (keys in insertion
  order) and the running total. For a radius of 0 JavaScript divides to Infinity or NaN,
  which the division of HOL does not; the table has positive radii.
\<close>

fun weightLoop ::
  "biome list \<Rightarrow> real \<Rightarrow> (string \<times> real) list \<Rightarrow> real \<Rightarrow> (string \<times> real) list \<times> real" where
  "weightLoop [] v weights totalWeight = (weights, totalWeight)"
| "weightLoop (b # bs) v weights totalWeight =
     (let dist = \<bar>v - noiseCenter b\<bar>;
          weight = max 0 (1 - dist / noiseRadius b)
      in weightLoop bs v (AList.update (b_name b) weight weights) (totalWeight + weight))"

text \<open>The loop of the fallback; \<open>minDist = None\<close> stands for \<open>Infinity\<close>.\<close>

fun closestLoop :: "biome list \<Rightarrow> real \<Rightarrow> biome \<Rightarrow> real option \<Rightarrow> biome" where
  "closestLoop [] v closestBiome minDist = closestBiome"
| "closestLoop (b # bs) v closestBiome minDist =
     (let dist = \<bar>v - noiseCenter b\<bar>
      in if (case minDist of None \<Rightarrow> True | Some m \<Rightarrow> dist < m)
         then closestLoop bs v b (Some dist)
         else closestLoop bs v closestBiome minDist)"

text \<open>
  \<open>calculateBiomeWeights\<close> over a biome table. With an empty table \<open>BIOMES[0]\<close> is
  \<open>undefined\<close>, and reading its name throws.
\<close>

definition calculateBiomeWeightsOver :: "biome list \<Rightarrow> real \<Rightarrow> js_error + (string \<times> real) list" where
  "calculateBiomeWeightsOver table biomeNoiseValue =
     (case weightLoop table biomeNoiseValue [] 0 of
        (weights, totalWeight) \<Rightarrow>
          if totalWeight > 0
          then Inr (map (\<lambda>e. (fst e, snd e / totalWeight)) weights)
          else
            (case table of
               [] \<Rightarrow> Inl TypeError
             | b0 # rest \<Rightarrow>
                 let closestBiome = closestLoop table biomeNoiseValue b0 None;
                     weights1 = AList.update (b_name closestBiome) 1 weights
                 in Inr (map (\<lambda>e. if fst e \<noteq> b_name closestBiome then (fst e, 0) else e)
                           weights1)))"

definition calculateBiomeWeights :: "real \<Rightarrow> js_error + (string \<times> real) list" where
  "calculateBiomeWeights biomeNoiseValue = calculateBiomeWeightsOver BIOMES biomeNoiseValue"

text \<open>The triangular weight of a biome, in the words of the specification.\<close>

definition triangularWeight :: "biome \<Rightarrow> real \<Rightarrow> real" where
  "triangularWeight b selector = max 0 (1 - \<bar>selector - noiseCenter b\<bar> / noiseRadius b)"

section \<open>Noise (perlin.js)\<close>

text \<open>
  \<open>mulberry32\<close>: one call of the generator returned, as a function from the 32-bit
  state to the new state and the 32-bit output; the number returned is the output divided
  by 4294967296. Every operation of the source is taken modulo 2^32 by \<open>| 0\<close>,
  \<open>Math.imul\<close>, \<open>^\<close> or \<open>>>>\<close>.
\<close>

definition mulberry32 :: "32 word \<Rightarrow> 32 word \<times> 32 word" where
  "mulberry32 seed =
     (let seed1 = seed + 0x6D2B79F5;
          t1 = (seed1 XOR drop_bit 15 seed1) * (1 OR seed1);
          t2 = (t1 + (t1 XOR drop_bit 7 t1) * (61 OR t1)) XOR t1
      in (seed1, t2 XOR drop_bit 14 t2))"

text \<open>
  The shuffle loop of \<open>generatePermutation\<close>, for \<open>i\<close> from 255 down to 1. The index is
  \<open>Math.floor(random() * (i + 1))\<close>; the product is exact in a double, being below 2^40.
\<close>

fun shuffleLoop :: "nat \<Rightarrow> 32 word \<Rightarrow> nat list \<Rightarrow> nat list" where
  "shuffleLoop 0 seed p = p"
| "shuffleLoop (Suc n) seed p =
     (case mulberry32 seed of
        (seed', u) \<Rightarrow>
          let i = Suc n;
              index = nat ((uint u * (int i + 1)) div 4294967296)
          in shuffleLoop n seed' (p[i := p ! index, index := p ! i]))"

text \<open>
  \<open>generatePermutation(seed)\<close> for an integer seed: the generator starts from
  \<open>seed * 10000 + 1234\<close>, and the shuffled table is written out twice.
\<close>

definition generatePermutation :: "int \<Rightarrow> nat list" where
  "generatePermutation seed =
     (let p = shuffleLoop 255 (word_of_int (seed * 10000 + 1234)) [0 ..< 256]
      in map (\<lambda>i. p ! (i mod 256)) [0 ..< 512])"

record Perlin =
  permutation :: "nat list"

definition newPerlin :: "int \<Rightarrow> Perlin" where
  "newPerlin seed = \<lparr>permutation = generatePermutation seed\<rparr>"

definition fade :: "real \<Rightarrow> real" where
  "fade t = t * t * t * (t * (t * 6 - 15) + 10)"

definition lerp :: "real \<Rightarrow> real \<Rightarrow> real \<Rightarrow> real" where
  "lerp a b t = a + t * (b - a)"

definition grad :: "nat \<Rightarrow> real \<Rightarrow> real \<Rightarrow> real \<Rightarrow> real" where
  "grad hash x y z =
     (let h = hash mod 16
      in if h = 0 then x + y
         else if h = 1 then - x + y
         else if h = 2 then x - y
         else if h = 3 then - x - y
         else if h = 4 then x + z
         else if h = 5 then - x + z
         else if h = 6 then x - z
         else if h = 7 then - x - z
         else if h = 8 then y + z
         else if h = 9 then - y + z
         else if h = 10 then y - z
         else if h = 11 then - y - z
         else if h = 12 then x + y
         else if h = 13 then - x + y
         else if h = 14 then x - y
         else - x - y)"

text \<open>
  \<open>noise(x, y, z)\<close>. \<open>Math.floor(x) & 255\<close> is the floor modulo 256. The table has 512
  entries below 256, so every index used is inside it.
\<close>

definition noise :: "Perlin \<Rightarrow> real \<Rightarrow> real \<Rightarrow> real \<Rightarrow> real" where
  "noise p x y z =
     (let floorX = nat (\<lfloor>x\<rfloor> mod 256);
          floorY = nat (\<lfloor>y\<rfloor> mod 256);
          floorZ = nat (\<lfloor>z\<rfloor> mod 256);
          X = x - of_int \<lfloor>x\<rfloor>;
          Y = y - of_int \<lfloor>y\<rfloor>;
          Z = z - of_int \<lfloor>z\<rfloor>;
          u = fade X;
          v = fade Y;
          w = fade Z;
          A = permutation p ! floorX + floorY;
          AA = permutation p ! A + floorZ;
          AB = permutation p ! (A + 1) + floorZ;
          B = permutation p ! (floorX + 1) + floorY;
          BA = permutation p ! B + floorZ;
          BB = permutation p ! (B + 1) + floorZ;
          gradAA = grad (permutation p ! AA) X Y Z;
          gradBA = grad (permutation p ! BA) (X - 1) Y Z;
          gradAB = grad (permutation p ! AB) X (Y - 1) Z;
          gradBB = grad (permutation p ! BB) (X - 1) (Y - 1) Z;
          gradAA1 = grad (permutation p ! (AA + 1)) X Y (Z - 1);
          gradBA1 = grad (permutation p ! (BA + 1)) (X - 1) Y (Z - 1);
          gradAB1 = grad (permutation p ! (AB + 1)) X (Y - 1) (Z - 1);
          gradBB1 = grad (permutation p ! (BB + 1)) (X - 1) (Y - 1) (Z - 1);
          lerpX1 = lerp gradAA gradBA u;
          lerpX2 = lerp gradAB gradBB u;
          lerpX3 = lerp gradAA1 gradBA1 u;
          lerpX4 = lerp gradAB1 gradBB1 u;
          lerpY1 = lerp lerpX1 lerpX2 v;
          lerpY2 = lerp lerpX3 lerpX4 v
      in lerp lerpY1 lerpY2 w)"

text \<open>
  The loop of \<open>fbm\<close>, for an integer number of octaves, and \<open>fbm\<close> itself with its
  guard against a zero sum of amplitudes.
\<close>

function fbmLoop ::
  "Perlin \<Rightarrow> real \<Rightarrow> real \<Rightarrow> real \<Rightarrow> int \<Rightarrow> real \<Rightarrow> real \<Rightarrow>
   int \<Rightarrow> real \<Rightarrow> real \<Rightarrow> real \<Rightarrow> real \<Rightarrow> real \<times> real" where
  "fbmLoop p x y z octaves persistence lacunarity i tot frequency amplitude maxValue =
     (if i < octaves
      then fbmLoop p x y z octaves persistence lacunarity (i + 1)
             (tot + noise p (x * frequency) (y * frequency) (z * frequency) * amplitude)
             (frequency * lacunarity) (amplitude * persistence) (maxValue + amplitude)
      else (tot, maxValue))"
  by pat_completeness auto
termination
  by (relation "measure (\<lambda>(p, x, y, z, octaves, persistence, lacunarity, i, rest). nat (octaves - i))")
     auto

definition fbm :: "Perlin \<Rightarrow> real \<Rightarrow> real \<Rightarrow> real \<Rightarrow> int \<Rightarrow> real \<Rightarrow> real \<Rightarrow> real" where
  "fbm p x y z octaves persistence lacunarity =
     (case fbmLoop p x y z octaves persistence lacunarity 0 0 1 1 0 of
        (tot, maxValue) \<Rightarrow> if maxValue = 0 then 0 else tot / maxValue)"

text \<open>The sums that the specification names: the octave samples and the amplitudes.\<close>

definition octaveSum :: "Perlin \<Rightarrow> real \<Rightarrow> real \<Rightarrow> real \<Rightarrow> real \<Rightarrow> real \<Rightarrow> nat \<Rightarrow> real" where
  "octaveSum p x y z persistence lacunarity n =
     (\<Sum>k < n. noise p (x * lacunarity ^ k) (y * lacunarity ^ k) (z * lacunarity ^ k)
               * persistence ^ k)"

definition amplitudeSum :: "real \<Rightarrow> nat \<Rightarrow> real" where
  "amplitudeSum persistence n = (\<Sum>k < n. persistence ^ k)"

text \<open>
  The shuffle read position by position: the pairs \<open>(i, index)\<close> of the swaps in the
  order they are made, and the position in the start array whose entry ends up at a
  given position.
\<close>

fun shuffleIndices :: "nat \<Rightarrow> 32 word \<Rightarrow> (nat \<times> nat) list" where
  "shuffleIndices 0 seed = []"
| "shuffleIndices (Suc n) seed =
     (case mulberry32 seed of
        (seed', u) \<Rightarrow>
          (Suc n, nat ((uint u * (int (Suc n) + 1)) div 4294967296)) # shuffleIndices n seed')"

definition swapPos :: "nat \<Rightarrow> nat \<Rightarrow> nat \<Rightarrow> nat" where
  "swapPos i j k = (if k = j then i else if k = i then j else k)"

fun tracePos :: "(nat \<times> nat) list \<Rightarrow> nat \<Rightarrow> nat" where
  "tracePos [] k = k"
| "tracePos (s # rest) k = swapPos (fst s) (snd s) (tracePos rest k)"

definition mb_t1 :: "32 word \<Rightarrow> 32 word" where
  "mb_t1 seed1 = (seed1 XOR drop_bit 15 seed1) * (1 OR seed1)"

definition mb_t2 :: "32 word \<Rightarrow> 32 word" where
  "mb_t2 t1 = (t1 + (t1 XOR drop_bit 7 t1) * (61 OR t1)) XOR t1"

definition mb_out :: "32 word \<Rightarrow> 32 word" where
  "mb_out t2 = t2 XOR drop_bit 14 t2"

definition pick :: "32 word \<Rightarrow> nat \<Rightarrow> nat" where
  "pick u i = nat ((uint u * (int i + 1)) div 4294967296)"

text \<open>The swaps that the default seed 0 produces, and the generator of that seed.\<close>

definition seed0Indices :: "(nat \<times> nat) list" where
  "seed0Indices =
    [(255, 18), (254, 179), (253, 229), (252, 245), (251, 10), (250, 29), (249, 40),
     (248, 199), (247, 98), (246, 31), (245, 133), (244, 78), (243, 242), (242, 132),
     (241, 63), (240, 100), (239, 119), (238, 21), (237, 227), (236, 205), (235, 118),
     (234, 231), (233, 213), (232, 55), (231, 148), (230, 45), (229, 128), (228, 137),
     (227, 202), (226, 222), (225, 73), (224, 39), (223, 118), (222, 72), (221, 151),
     (220, 215), (219, 97), (218, 94), (217, 4), (216, 139), (215, 199), (214, 210),
     (213, 151), (212, 18), (211, 19), (210, 63), (209, 166), (208, 12), (207, 152),
     (206, 33), (205, 110), (204, 104), (203, 108), (202, 56), (201, 148), (200, 62),
     (199, 93), (198, 169), (197, 90), (196, 27), (195, 58), (194, 132), (193, 29),
     (192, 179), (191, 137), (190, 126), (189, 87), (188, 184), (187, 109), (186, 154),
     (185, 37), (184, 142), (183, 113), (182, 180), (181, 163), (180, 100), (179, 4),
     (178, 119), (177, 40), (176, 53), (175, 21), (174, 122), (173, 173), (172, 56),
     (171, 167), (170, 44), (169, 33), (168, 43), (167, 106), (166, 159), (165, 89),
     (164, 68), (163, 120), (162, 126), (161, 37), (160, 141), (159, 69), (158, 153),
     (157, 60), (156, 131), (155, 101), (154, 129), (153, 3), (152, 140), (151, 101),
     (150, 72), (149, 137), (148, 12), (147, 135), (146, 35), (145, 42), (144, 11),
     (143, 47), (142, 114), (141, 29), (140, 106), (139, 58), (138, 9), (137, 50),
     (136, 128), (135, 66), (134, 51), (133, 82), (132, 67), (131, 71), (130, 17),
     (129, 112), (128, 51), (127, 80), (126, 65), (125, 123), (124, 43), (123, 44),
     (122, 62), (121, 15), (120, 89), (119, 71), (118, 8), (117, 102), (116, 22),
     (115, 28), (114, 35), (113, 87), (112, 87), (111, 108), (110, 33), (109, 11),
     (108, 34), (107, 73), (106, 44), (105, 0), (104, 74), (103, 25), (102, 23), (101, 50),
     (100, 68), (99, 62), (98, 74), (97, 30), (96, 11), (95, 94), (94, 75), (93, 15),
     (92, 6), (91, 35), (90, 13), (89, 0), (88, 75), (87, 44), (86, 53), (85, 51),
     (84, 53), (83, 65), (82, 20), (81, 15), (80, 55), (79, 56), (78, 70), (77, 45),
     (76, 62), (75, 20), (74, 21), (73, 18), (72, 17), (71, 30), (70, 5), (69, 63),
     (68, 27), (67, 22), (66, 61), (65, 5), (64, 31), (63, 40), (62, 47), (61, 38),
     (60, 35), (59, 19), (58, 31), (57, 6), (56, 38), (55, 38), (54, 51), (53, 49),
     (52, 35), (51, 0), (50, 19), (49, 0), (48, 20), (47, 40), (46, 2), (45, 16), (44, 23),
     (43, 1), (42, 36), (41, 39), (40, 3), (39, 2), (38, 13), (37, 11), (36, 31), (35, 19),
     (34, 25), (33, 8), (32, 19), (31, 26), (30, 30), (29, 7), (28, 11), (27, 11),
     (26, 15), (25, 13), (24, 4), (23, 19), (22, 11), (21, 21), (20, 11), (19, 1),
     (18, 18), (17, 5), (16, 13), (15, 15), (14, 14), (13, 11), (12, 1), (11, 4), (10, 7),
     (9, 7), (8, 4), (7, 7), (6, 2), (5, 5), (4, 0), (3, 2), (2, 2), (1, 0)]"

definition Perlin0 :: Perlin where
  "Perlin0 = newPerlin 0"

section \<open>Facts about the concrete stores\<close>

lemma update_absent: "k \<notin> fst ` set al \<Longrightarrow> AList.update k v al = al @ [(k, v)]"
  by (induction al) auto

lemma foldl_ensure_fresh:
  "distinct (dn @ ks) \<Longrightarrow>
   foldl ensureChunk
     \<lparr>chunkStorage = map (\<lambda>k. (k, freshChunk k)) dn, meshRebuildQueue = q, posted = p\<rparr> ks =
   \<lparr>chunkStorage = map (\<lambda>k. (k, freshChunk k)) (dn @ ks), meshRebuildQueue = q,
    posted = p @ map (\<lambda>k. Generate (fst k) (snd k)) ks\<rparr>"
proof (induction ks arbitrary: dn p)
  case Nil
  show ?case by simp
next
  case (Cons k ks)
  have absent: "map_of (map (\<lambda>k. (k, freshChunk k)) dn) k = None"
    using Cons.prems by (auto simp: map_of_eq_None_iff image_iff)
  have notin: "k \<notin> fst ` set (map (\<lambda>k. (k, freshChunk k)) dn)"
    using Cons.prems by (auto simp: image_iff)
  have step: "ensureChunk \<lparr>chunkStorage = map (\<lambda>k. (k, freshChunk k)) dn, meshRebuildQueue = q, posted = p\<rparr> k
      = \<lparr>chunkStorage = map (\<lambda>k. (k, freshChunk k)) (dn @ [k]), meshRebuildQueue = q,
         posted = p @ [Generate (fst k) (snd k)]\<rparr>"
    using absent update_absent[OF notin]
    by (simp add: ensureChunk_def requestChunkGeneration_def setChunk_def postMessage_def freshChunk_def)
  have "distinct ((dn @ [k]) @ ks)" using Cons.prems by simp
  from Cons.IH[OF this] show ?case by (simp add: step)
qed

lemma inRangeKeys_set:
  "k \<in> set (inRangeKeys a b) \<longleftrightarrow>
     \<bar>fst k - a\<bar> \<le> RENDER_DISTANCE \<and> \<bar>snd k - b\<bar> \<le> RENDER_DISTANCE"
proof
  assume "k \<in> set (inRangeKeys a b)"
  then show "\<bar>fst k - a\<bar> \<le> RENDER_DISTANCE \<and> \<bar>snd k - b\<bar> \<le> RENDER_DISTANCE"
    by (auto simp: inRangeKeys_def renderOffsets_def)
next
  assume h: "\<bar>fst k - a\<bar> \<le> RENDER_DISTANCE \<and> \<bar>snd k - b\<bar> \<le> RENDER_DISTANCE"
  then have "(fst k - a, snd k - b) \<in> set (List.product renderOffsets renderOffsets)"
    by (auto simp: renderOffsets_def)
  moreover have "k = (\<lambda>(dx, dz). (a + dx, b + dz)) (fst k - a, snd k - b)"
    by simp
  ultimately show "k \<in> set (inRangeKeys a b)"
    unfolding inRangeKeys_def set_map by (rule image_eqI[rotated])
qed

lemma inRangeKeys_distinct: "distinct (inRangeKeys a b)"
  unfolding inRangeKeys_def renderOffsets_def
  by (auto simp: distinct_map distinct_product inj_on_def)

lemma unload_noop:
  "\<forall>e \<in> set es. fst e \<in> set keys \<Longrightarrow> foldl (unloadEntry keys) w es = w"
  by (induction es arbitrary: w) (auto simp: unloadEntry_def)

lemma started_eq:
  "started =
     \<lparr>chunkStorage = map (\<lambda>k. (k, freshChunk k)) (inRangeKeys 0 0), meshRebuildQueue = [],
      posted = map (\<lambda>k. Generate (fst k) (snd k)) (inRangeKeys 0 0)\<rparr>"
proof -
  have "distinct ([] @ inRangeKeys 0 0)" by (simp add: inRangeKeys_distinct)
  from foldl_ensure_fresh[OF this, of "[]" "[]"]
  have e: "foldl ensureChunk emptyWorld (inRangeKeys 0 0) =
     \<lparr>chunkStorage = map (\<lambda>k. (k, freshChunk k)) (inRangeKeys 0 0), meshRebuildQueue = [],
      posted = map (\<lambda>k. Generate (fst k) (snd k)) (inRangeKeys 0 0)\<rparr>"
    by (simp add: emptyWorld_def)
  show ?thesis
    unfolding started_def updateWorld_def Let_def
    by (simp add: e unload_noop processRebuildQueue_def)
qed

lemma map_of_fresh:
  "map_of (map (\<lambda>k. (k, freshChunk k)) ks) k = (if k \<in> set ks then Some (freshChunk k) else None)"
  by (induction ks) auto

lemma getChunk_started:
  "map_of (chunkStorage started) (x, z) =
     (if \<bar>x\<bar> \<le> 6 \<and> \<bar>z\<bar> \<le> 6 then Some (freshChunk (x, z)) else None)"
  by (simp add: started_eq map_of_fresh inRangeKeys_set RENDER_DISTANCE_def)



lemma queue_started: "meshRebuildQueue started = []"
  by (simp add: started_eq)

lemma posted_started: "posted started = map (\<lambda>k. Generate (fst k) (snd k)) (inRangeKeys 0 0)"
  by (simp add: started_eq)

lemmas store_simps =
  getChunk_def setChunk_def postMessage_def requestChunkMesh_def getNeighbourDataForMeshing_def
  requiredOffsets_def updateNeighboursOf_def AList.update_conv' getChunk_started freshChunk_def
  buildMeshFromData_def disposeChunkMesh_def

lemma centreMeshed_centre:
  "map_of (chunkStorage centreMeshed) (0, 0) =
     Some \<lparr>cx = 0, cz = 0, blocks = Some (uniformGrid 2), mesh = Some [], state = READY\<rparr>"
  unfolding centreMeshed_def
  by (simp add: store_simps group_children_def noGeometry_def)

lemma centreMeshed_west:
  "map_of (chunkStorage centreMeshed) (-1, 0) =
     Some \<lparr>cx = -1, cz = 0, blocks = Some (uniformGrid 2), mesh = None, state = DATA_LOADED\<rparr>"
  unfolding centreMeshed_def
  by (simp add: store_simps)

lemma centreMeshed_queue: "meshRebuildQueue centreMeshed = []"
  unfolding centreMeshed_def
  by (simp add: store_simps queue_started)

lemma reachable_messages: "reachable w \<Longrightarrow> reachable (foldl onmessage w ms)"
  by (induction ms arbitrary: w) (auto intro: reach_message)

lemma reachable_started: "reachable started"
  unfolding started_def by (intro reach_update reach_init)

lemma reachable_centreMeshed: "reachable centreMeshed"
  unfolding centreMeshed_def by (intro reachable_messages reachable_started)


section \<open>Block reads and writes\<close>

lemma cell_uniformGrid:
  "0 \<le> x \<Longrightarrow> x < CHUNK_SIZE \<Longrightarrow> 0 \<le> y \<Longrightarrow> y < CHUNK_HEIGHT \<Longrightarrow> 0 \<le> z \<Longrightarrow> z < CHUNK_SIZE \<Longrightarrow>
   cell (uniformGrid b) x y z = Inr (Some b)"
  by (simp add: cell_def js_index_def uniformGrid_def)

lemma setChunk_queue [simp]: "meshRebuildQueue (setChunk w k c) = meshRebuildQueue w"
  by (simp add: setChunk_def)

lemma setChunk_posted [simp]: "posted (setChunk w k c) = posted w"
  by (simp add: setChunk_def)

lemma flag_storage [simp]: "chunkStorage (flagChunkForRebuild w a b) = chunkStorage w"
  by (simp add: flagChunkForRebuild_def split: option.splits)

lemma flag_posted [simp]: "posted (flagChunkForRebuild w a b) = posted w"
  by (simp add: flagChunkForRebuild_def split: option.splits)

lemma flag_queue:
  "set (meshRebuildQueue (flagChunkForRebuild w a b)) =
     set (meshRebuildQueue w) \<union> (if rebuildable w (a, b) then {(a, b)} else {})"
  by (auto simp: flagChunkForRebuild_def rebuildable_def set_add_def split: option.splits)

lemma rebuildable_flag [simp]: "rebuildable (flagChunkForRebuild w a b) k = rebuildable w k"
  by (simp add: rebuildable_def)

lemma flagAll_storage [simp]: "chunkStorage (flagAll w ks) = chunkStorage w"
  unfolding flagAll_def by (induction ks arbitrary: w) auto

lemma flagAll_posted [simp]: "posted (flagAll w ks) = posted w"
  unfolding flagAll_def by (induction ks arbitrary: w) auto

lemma flagAll_queue:
  "set (meshRebuildQueue (flagAll w ks)) =
     set (meshRebuildQueue w) \<union> {k \<in> set ks. rebuildable w k}"
  unfolding flagAll_def
proof (induction ks arbitrary: w)
  case Nil
  show ?case by simp
next
  case (Cons k ks)
  show ?case
    by (cases k) (auto simp: Cons.IH flag_queue)
qed

lemma rebuildable_write:
  assumes "map_of (chunkStorage w) k = Some c" and "blocks c = Some g"
  shows "rebuildable (setChunk w k (c\<lparr>blocks := Some g'\<rparr>)) k' = rebuildable w k'"
  using assms by (simp add: rebuildable_def setChunk_def AList.update_conv')

lemma addBlock_write:
  assumes "0 \<le> \<lfloor>y\<rfloor>" and "\<lfloor>y\<rfloor> < CHUNK_HEIGHT"
    and "getChunk w (x div CHUNK_SIZE) (z div CHUNK_SIZE) = Some c"
    and "blocks c = Some g"
    and "CHUNK_STATE DATA_LOADED \<le> CHUNK_STATE (state c)"
    and "cell g (x mod CHUNK_SIZE) \<lfloor>y\<rfloor> (z mod CHUNK_SIZE) = Inr old"
    and "old \<noteq> Some blockId"
  shows "addBlock w x y z blockId =
           Inr (flagAll
                  (setChunk w (x div CHUNK_SIZE, z div CHUNK_SIZE)
                     (c\<lparr>blocks := Some (cell_set g (x mod CHUNK_SIZE) \<lfloor>y\<rfloor> (z mod CHUNK_SIZE) blockId)\<rparr>))
                  (rebuildTargets (x div CHUNK_SIZE) (z div CHUNK_SIZE) (x mod CHUNK_SIZE) (z mod CHUNK_SIZE)))"
  using assms
  by (simp add: addBlock_def worldToVoxelCoords_def flagAll_def rebuildTargets_def Let_def CHUNK_SIZE_def)


text \<open>
  Claim C8. A successful block write (owning chunk with block data at state DATA_LOADED or
  later, floor of y inside the chunk height, new ID different from the stored cell) writes
  the cell and then applies \<open>flagChunkForRebuild\<close> to the owning chunk and to exactly
  those lateral neighbours whose shared face the cell touches: local x = 0 gives cx - 1,
  x = CHUNK_SIZE - 1 gives cx + 1, z = 0 gives cz - 1, z = CHUNK_SIZE - 1 gives cz + 1.
  Flagging enqueues a chunk that has block data and is not MESHING, so the rebuild queue
  grows by exactly the flagged chunks that pass this guard. A write at a non-boundary cell
  flags the owning chunk only.
\<close>

theorem addBlock_flags_owner_and_touched_neighbours:
  assumes "0 \<le> \<lfloor>y\<rfloor>" and "\<lfloor>y\<rfloor> < CHUNK_HEIGHT"
    and "getChunk w (x div CHUNK_SIZE) (z div CHUNK_SIZE) = Some c"
    and "blocks c = Some g"
    and "CHUNK_STATE DATA_LOADED \<le> CHUNK_STATE (state c)"
    and "cell g (x mod CHUNK_SIZE) \<lfloor>y\<rfloor> (z mod CHUNK_SIZE) = Inr old"
    and "old \<noteq> Some blockId"
  shows "\<exists>w'. addBlock w x y z blockId = Inr w'
     \<and> w' = flagAll
              (setChunk w (x div CHUNK_SIZE, z div CHUNK_SIZE)
                 (c\<lparr>blocks := Some (cell_set g (x mod CHUNK_SIZE) \<lfloor>y\<rfloor> (z mod CHUNK_SIZE) blockId)\<rparr>))
              (rebuildTargets (x div CHUNK_SIZE) (z div CHUNK_SIZE) (x mod CHUNK_SIZE) (z mod CHUNK_SIZE))
     \<and> set (meshRebuildQueue w') =
         set (meshRebuildQueue w)
         \<union> {k \<in> set (rebuildTargets (x div CHUNK_SIZE) (z div CHUNK_SIZE)
                        (x mod CHUNK_SIZE) (z mod CHUNK_SIZE)). rebuildable w k}
     \<and> (\<forall>k. k \<in> set (rebuildTargets (x div CHUNK_SIZE) (z div CHUNK_SIZE)
                        (x mod CHUNK_SIZE) (z mod CHUNK_SIZE)) \<longleftrightarrow>
            k = (x div CHUNK_SIZE, z div CHUNK_SIZE)
          \<or> x mod CHUNK_SIZE = 0 \<and> k = (x div CHUNK_SIZE - 1, z div CHUNK_SIZE)
          \<or> x mod CHUNK_SIZE = CHUNK_SIZE - 1 \<and> k = (x div CHUNK_SIZE + 1, z div CHUNK_SIZE)
          \<or> z mod CHUNK_SIZE = 0 \<and> k = (x div CHUNK_SIZE, z div CHUNK_SIZE - 1)
          \<or> z mod CHUNK_SIZE = CHUNK_SIZE - 1 \<and> k = (x div CHUNK_SIZE, z div CHUNK_SIZE + 1))
     \<and> (0 < x mod CHUNK_SIZE \<and> x mod CHUNK_SIZE < CHUNK_SIZE - 1
          \<and> 0 < z mod CHUNK_SIZE \<and> z mod CHUNK_SIZE < CHUNK_SIZE - 1 \<longrightarrow>
        w' = flagChunkForRebuild
               (setChunk w (x div CHUNK_SIZE, z div CHUNK_SIZE)
                  (c\<lparr>blocks := Some (cell_set g (x mod CHUNK_SIZE) \<lfloor>y\<rfloor> (z mod CHUNK_SIZE) blockId)\<rparr>))
               (x div CHUNK_SIZE) (z div CHUNK_SIZE))"
proof -
  let ?k = "(x div CHUNK_SIZE, z div CHUNK_SIZE)"
  let ?w1 = "setChunk w ?k
               (c\<lparr>blocks := Some (cell_set g (x mod CHUNK_SIZE) \<lfloor>y\<rfloor> (z mod CHUNK_SIZE) blockId)\<rparr>)"
  let ?ts = "rebuildTargets (x div CHUNK_SIZE) (z div CHUNK_SIZE) (x mod CHUNK_SIZE) (z mod CHUNK_SIZE)"
  have eq: "addBlock w x y z blockId = Inr (flagAll ?w1 ?ts)"
    by (rule addBlock_write[OF assms])
  have stored: "map_of (chunkStorage w) ?k = Some c"
    using assms(3) by (simp add: getChunk_def)
  have queue: "set (meshRebuildQueue (flagAll ?w1 ?ts)) =
      set (meshRebuildQueue w) \<union> {k \<in> set ?ts. rebuildable w k}"
    by (simp add: flagAll_queue rebuildable_write[OF stored assms(4)])
  have targets: "\<forall>k. k \<in> set ?ts \<longleftrightarrow>
            k = ?k
          \<or> x mod CHUNK_SIZE = 0 \<and> k = (x div CHUNK_SIZE - 1, z div CHUNK_SIZE)
          \<or> x mod CHUNK_SIZE = CHUNK_SIZE - 1 \<and> k = (x div CHUNK_SIZE + 1, z div CHUNK_SIZE)
          \<or> z mod CHUNK_SIZE = 0 \<and> k = (x div CHUNK_SIZE, z div CHUNK_SIZE - 1)
          \<or> z mod CHUNK_SIZE = CHUNK_SIZE - 1 \<and> k = (x div CHUNK_SIZE, z div CHUNK_SIZE + 1)"
    by (auto simp: rebuildTargets_def)
  have inner: "0 < x mod CHUNK_SIZE \<and> x mod CHUNK_SIZE < CHUNK_SIZE - 1
          \<and> 0 < z mod CHUNK_SIZE \<and> z mod CHUNK_SIZE < CHUNK_SIZE - 1 \<longrightarrow>
        flagAll ?w1 ?ts = flagChunkForRebuild ?w1 (x div CHUNK_SIZE) (z div CHUNK_SIZE)"
    by (simp add: rebuildTargets_def flagAll_def)
  show ?thesis
    using eq queue targets inner by blast
qed



theorem addBlock_flags_witness:
  "\<exists>w'. addBlock centreMeshed 0 5 5 0 = Inr w'
       \<and> set (meshRebuildQueue w') = {(0, 0), (-1, 0)}"
proof -
  let ?c = "\<lparr>cx = 0, cz = 0, blocks = Some (uniformGrid 2), mesh = Some [], state = READY\<rparr>"
  have h1: "0 \<le> \<lfloor>5::real\<rfloor>" and h2: "\<lfloor>5::real\<rfloor> < CHUNK_HEIGHT"
    by (simp_all add: CHUNK_HEIGHT_def)
  have h3: "getChunk centreMeshed (0 div CHUNK_SIZE) (5 div CHUNK_SIZE) = Some ?c"
    by (simp add: getChunk_def CHUNK_SIZE_def centreMeshed_centre)
  have h4: "blocks ?c = Some (uniformGrid 2)" by simp
  have h5: "CHUNK_STATE DATA_LOADED \<le> CHUNK_STATE (state ?c)" by simp
  have h6: "cell (uniformGrid 2) (0 mod CHUNK_SIZE) \<lfloor>5::real\<rfloor> (5 mod CHUNK_SIZE) = Inr (Some 2)"
    by (simp add: cell_uniformGrid CHUNK_SIZE_def CHUNK_HEIGHT_def)
  have h7: "Some (2::int) \<noteq> Some 0" by simp
  from addBlock_flags_owner_and_touched_neighbours[OF h1 h2 h3 h4 h5 h6 h7]
  obtain w' where r: "addBlock centreMeshed 0 5 5 0 = Inr w'"
    and q: "set (meshRebuildQueue w') =
         set (meshRebuildQueue centreMeshed)
         \<union> {k \<in> set (rebuildTargets (0 div CHUNK_SIZE) (5 div CHUNK_SIZE)
                        (0 mod CHUNK_SIZE) (5 mod CHUNK_SIZE)). rebuildable centreMeshed k}"
    by blast
  have "set (meshRebuildQueue w') = {(0, 0), (-1, 0)}"
    unfolding q
    by (auto simp: centreMeshed_queue rebuildTargets_def CHUNK_SIZE_def rebuildable_def
        centreMeshed_centre centreMeshed_west)
  with r show ?thesis by blast
qed


text \<open>
  Claim C9. \<open>getBlock\<close> returns AIR when the floor of y is outside the chunk height, when
  the containing chunk record is absent, and when its block data is not loaded (no grid,
  or a state below DATA_LOADED); otherwise it returns the block ID stored at the local
  cell (x mod 16, floor y, z mod 16) of the owning chunk.
\<close>

theorem getBlock_cases:
  "(\<lfloor>y\<rfloor> < 0 \<or> CHUNK_HEIGHT \<le> \<lfloor>y\<rfloor> \<longrightarrow> getBlock w x y z = Inr BLOCK_AIR)
   \<and> (getChunk w (x div CHUNK_SIZE) (z div CHUNK_SIZE) = None \<longrightarrow>
        getBlock w x y z = Inr BLOCK_AIR)
   \<and> (\<forall>c. getChunk w (x div CHUNK_SIZE) (z div CHUNK_SIZE) = Some c
          \<and> (blocks c = None \<or> CHUNK_STATE (state c) < CHUNK_STATE DATA_LOADED)
        \<longrightarrow> getBlock w x y z = Inr BLOCK_AIR)
   \<and> (\<forall>c g b. 0 \<le> \<lfloor>y\<rfloor> \<and> \<lfloor>y\<rfloor> < CHUNK_HEIGHT
          \<and> getChunk w (x div CHUNK_SIZE) (z div CHUNK_SIZE) = Some c
          \<and> blocks c = Some g \<and> CHUNK_STATE DATA_LOADED \<le> CHUNK_STATE (state c)
          \<and> cell g (x mod CHUNK_SIZE) \<lfloor>y\<rfloor> (z mod CHUNK_SIZE) = Inr (Some b)
        \<longrightarrow> getBlock w x y z = Inr b)"
  by (auto simp: getBlock_def worldToVoxelCoords_def split: option.splits)

theorem getBlock_cases_witness:
  "getBlock centreMeshed 5 64 5 = Inr BLOCK_AIR
   \<and> getBlock centreMeshed 5 (-1/2) 5 = Inr BLOCK_AIR
   \<and> getBlock centreMeshed 200 5 5 = Inr BLOCK_AIR
   \<and> getBlock centreMeshed 37 5 5 = Inr BLOCK_AIR
   \<and> getBlock centreMeshed 5 (11/2) 5 = Inr 2"
proof -
  let ?c = "\<lparr>cx = 0, cz = 0, blocks = Some (uniformGrid 2), mesh = Some [], state = READY\<rparr>"
  have above: "CHUNK_HEIGHT \<le> \<lfloor>64::real\<rfloor>" by (simp add: CHUNK_HEIGHT_def)
  have below: "\<lfloor>-1/2::real\<rfloor> < 0" by simp
  have absent: "getChunk centreMeshed (200 div CHUNK_SIZE) (5 div CHUNK_SIZE) = None"
    unfolding centreMeshed_def by (simp add: store_simps CHUNK_SIZE_def)
  have loading: "getChunk centreMeshed (37 div CHUNK_SIZE) (5 div CHUNK_SIZE) = Some (freshChunk (2, 0))"
    unfolding centreMeshed_def by (simp add: store_simps CHUNK_SIZE_def)
  have loading': "blocks (freshChunk (2, 0)) = None
      \<or> CHUNK_STATE (state (freshChunk (2, 0))) < CHUNK_STATE DATA_LOADED"
    by (simp add: freshChunk_def)
  have stored: "0 \<le> \<lfloor>11/2::real\<rfloor> \<and> \<lfloor>11/2::real\<rfloor> < CHUNK_HEIGHT
      \<and> getChunk centreMeshed (5 div CHUNK_SIZE) (5 div CHUNK_SIZE) = Some ?c
      \<and> blocks ?c = Some (uniformGrid 2) \<and> CHUNK_STATE DATA_LOADED \<le> CHUNK_STATE (state ?c)
      \<and> cell (uniformGrid 2) (5 mod CHUNK_SIZE) \<lfloor>11/2::real\<rfloor> (5 mod CHUNK_SIZE) = Inr (Some 2)"
    by (simp add: getChunk_def centreMeshed_centre cell_uniformGrid CHUNK_SIZE_def CHUNK_HEIGHT_def)
  show ?thesis
    using getBlock_cases[of 64 centreMeshed 5 5] above
      getBlock_cases[of "-1/2" centreMeshed 5 5] below
      getBlock_cases[of 5 centreMeshed 200 5] absent
      getBlock_cases[of 5 centreMeshed 37 5] loading loading'
      getBlock_cases[of "11/2" centreMeshed 5 5] stored
    by blast
qed

text \<open>
  Claim C10. An in-bounds \<open>addBlock\<close> on a loaded chunk with the ID that the cell already
  holds returns the module state as it was: every chunk's grid, state and mesh, the
  rebuild queue and the messages posted are unchanged.
\<close>

theorem addBlock_same_id_noop:
  assumes "0 \<le> \<lfloor>y\<rfloor>" and "\<lfloor>y\<rfloor> < CHUNK_HEIGHT"
    and "getChunk w (x div CHUNK_SIZE) (z div CHUNK_SIZE) = Some c"
    and "blocks c = Some g"
    and "CHUNK_STATE DATA_LOADED \<le> CHUNK_STATE (state c)"
    and "cell g (x mod CHUNK_SIZE) \<lfloor>y\<rfloor> (z mod CHUNK_SIZE) = Inr (Some blockId)"
  shows "addBlock w x y z blockId = Inr w"
  using assms by (simp add: addBlock_def worldToVoxelCoords_def)

theorem addBlock_same_id_noop_witness:
  "addBlock centreMeshed 5 5 5 2 = Inr centreMeshed"
proof -
  let ?c = "\<lparr>cx = 0, cz = 0, blocks = Some (uniformGrid 2), mesh = Some [], state = READY\<rparr>"
  have h1: "0 \<le> \<lfloor>5::real\<rfloor>" and h2: "\<lfloor>5::real\<rfloor> < CHUNK_HEIGHT"
    by (simp_all add: CHUNK_HEIGHT_def)
  have h3: "getChunk centreMeshed (5 div CHUNK_SIZE) (5 div CHUNK_SIZE) = Some ?c"
    by (simp add: getChunk_def CHUNK_SIZE_def centreMeshed_centre)
  have h4: "blocks ?c = Some (uniformGrid 2)" by simp
  have h5: "CHUNK_STATE DATA_LOADED \<le> CHUNK_STATE (state ?c)" by simp
  have h6: "cell (uniformGrid 2) (5 mod CHUNK_SIZE) \<lfloor>5::real\<rfloor> (5 mod CHUNK_SIZE) = Inr (Some 2)"
    by (simp add: cell_uniformGrid CHUNK_SIZE_def CHUNK_HEIGHT_def)
  show ?thesis
    by (rule addBlock_same_id_noop[OF h1 h2 h3 h4 h5 h6])
qed

section \<open>The chunk store, entry by entry\<close>

lemma lookup_setChunk:
  "map_of (chunkStorage (setChunk w k' c')) k = (if k = k' then Some c' else map_of (chunkStorage w) k)"
  by (simp add: setChunk_def AList.update_conv')

lemma lookup_postMessage [simp]:
  "chunkStorage (postMessage w r) = chunkStorage w"
  by (simp add: postMessage_def)

lemma lookup_requestChunkMesh_other:
  "k \<noteq> k' \<Longrightarrow> map_of (chunkStorage (requestChunkMesh w k')) k = map_of (chunkStorage w) k"
  by (simp add: requestChunkMesh_def lookup_setChunk split: option.splits)





lemma requestChunkMesh_state_only:
  "map_of (chunkStorage (requestChunkMesh w k')) k = Some c' \<Longrightarrow>
   \<exists>c. map_of (chunkStorage w) k = Some c \<and> mesh c = mesh c' \<and> blocks c = blocks c'"
  by (cases "k = k'")
     (auto simp: requestChunkMesh_def lookup_setChunk split: option.splits if_splits)

lemma lookup_ensureChunk_keeps:
  assumes "map_of (chunkStorage w) k = Some c" "state c \<noteq> UNLOADING"
  shows "map_of (chunkStorage (ensureChunk w k')) k = Some c"
proof (cases "k = k'")
  case True
  then show ?thesis using assms
    by (simp add: ensureChunk_def requestChunkGeneration_def)
next
  case False
  then show ?thesis using assms
    by (auto simp: ensureChunk_def requestChunkGeneration_def lookup_setChunk split: option.splits)
qed

lemma lookup_ensureAll_keeps:
  "map_of (chunkStorage w) k = Some c \<Longrightarrow> state c \<noteq> UNLOADING \<Longrightarrow>
   map_of (chunkStorage (foldl ensureChunk w ks)) k = Some c"
  by (induction ks arbitrary: w) (simp_all add: lookup_ensureChunk_keeps)

lemma queue_ensureChunk [simp]: "meshRebuildQueue (ensureChunk w k) = meshRebuildQueue w"
  by (simp add: ensureChunk_def requestChunkGeneration_def postMessage_def split: option.splits)

lemma queue_ensureAll [simp]: "meshRebuildQueue (foldl ensureChunk w ks) = meshRebuildQueue w"
  by (induction ks arbitrary: w) simp_all

lemma queue_unloadEntry [simp]: "meshRebuildQueue (unloadEntry keys w e) = meshRebuildQueue w"
  by (simp add: unloadEntry_def)

lemma queue_unloadAll [simp]: "meshRebuildQueue (foldl (unloadEntry keys) w es) = meshRebuildQueue w"
  by (induction es arbitrary: w) simp_all

lemma posted_unloadEntry [simp]: "posted (unloadEntry keys w e) = posted w"
  by (simp add: unloadEntry_def)

lemma posted_unloadAll [simp]: "posted (foldl (unloadEntry keys) w es) = posted w"
  by (induction es arbitrary: w) simp_all

lemma lookup_unloadEntry_in_range:
  "k \<in> set keys \<Longrightarrow> map_of (chunkStorage (unloadEntry keys w e)) k = map_of (chunkStorage w) k"
  by (auto simp: unloadEntry_def AList.delete_conv')

lemma lookup_unloadAll_in_range:
  "k \<in> set keys \<Longrightarrow>
   map_of (chunkStorage (foldl (unloadEntry keys) w es)) k = map_of (chunkStorage w) k"
  by (induction es arbitrary: w) (simp_all add: lookup_unloadEntry_in_range)

lemma lookup_unloadEntry_none:
  "map_of (chunkStorage w) k = None \<Longrightarrow> map_of (chunkStorage (unloadEntry keys w e)) k = None"
  by (auto simp: unloadEntry_def AList.delete_conv')

lemma lookup_unloadAll_none:
  "map_of (chunkStorage w) k = None \<Longrightarrow>
   map_of (chunkStorage (foldl (unloadEntry keys) w es)) k = None"
  by (induction es arbitrary: w) (simp_all add: lookup_unloadEntry_none)

lemma lookup_unloadAll_out_of_range:
  "(k, c) \<in> set es \<Longrightarrow> k \<notin> set keys \<Longrightarrow> state c \<noteq> UNLOADING \<Longrightarrow>
   map_of (chunkStorage (foldl (unloadEntry keys) w es)) k = None"
proof (induction es arbitrary: w)
  case Nil
  then show ?case by simp
next
  case (Cons e es)
  show ?case
  proof (cases "e = (k, c)")
    case True
    have "map_of (chunkStorage (unloadEntry keys w e)) k = None"
      using Cons.prems(2,3) True by (simp add: unloadEntry_def AList.delete_conv')
    then show ?thesis by (simp add: lookup_unloadAll_none)
  next
    case False
    then have "(k, c) \<in> set es" using Cons.prems(1) by auto
    from Cons.IH[OF this Cons.prems(2,3)] show ?thesis by simp
  qed
qed



lemma updateWorld_phases:
  "updateWorld w px pz =
     rebuildLoop 1
       (meshRebuildQueue w) 0
       (foldl (unloadEntry (inRangeKeys \<lfloor>px / real_of_int CHUNK_SIZE\<rfloor> \<lfloor>pz / real_of_int CHUNK_SIZE\<rfloor>))
          (foldl ensureChunk w (inRangeKeys \<lfloor>px / real_of_int CHUNK_SIZE\<rfloor> \<lfloor>pz / real_of_int CHUNK_SIZE\<rfloor>))
          (chunkStorage (foldl ensureChunk w (inRangeKeys \<lfloor>px / real_of_int CHUNK_SIZE\<rfloor> \<lfloor>pz / real_of_int CHUNK_SIZE\<rfloor>))))"
  by (simp add: updateWorld_def Let_def processRebuildQueue_def)












lemma neighbourLoop_None_iff:
  "neighbourLoop w x z offs acc = None \<longleftrightarrow>
     (\<exists>d \<in> set offs. \<not> has_data w (x + fst d) (z + snd d))"
  by (induction w x z offs acc rule: neighbourLoop.induct)
     (auto simp: has_data_def split: option.splits)

lemma getNeighbourData_None_iff:
  "getNeighbourDataForMeshing w x z = None \<longleftrightarrow>
     \<not> (has_data w (x + 1) z \<and> has_data w (x - 1) z \<and> has_data w x (z + 1) \<and> has_data w x (z - 1))"
  unfolding getNeighbourDataForMeshing_def neighbourLoop_None_iff requiredOffsets_def
  by auto


section \<open>Lifecycle of a chunk\<close>

lemma set_update_subset: "set (AList.update k v al) \<subseteq> insert (k, v) (set al)"
  by (induction al) auto

lemma set_delete_subset: "set (AList.delete k al) \<subseteq> set al"
  by (induction al) auto

lemma gowd_iff:
  "geometry_only_with_data w \<longleftrightarrow>
     (\<forall>e \<in> set (chunkStorage w). mesh (snd e) \<noteq> None \<longrightarrow>
        state (snd e) = DATA_LOADED \<or> state (snd e) = MESHING \<or> state (snd e) = READY)"
  by (simp add: geometry_only_with_data_def list_all_iff)

lemma gowd_setChunk:
  assumes "geometry_only_with_data w"
    and "mesh c \<noteq> None \<longrightarrow> state c = DATA_LOADED \<or> state c = MESHING \<or> state c = READY"
  shows "geometry_only_with_data (setChunk w k c)"
  using assms set_update_subset[of k c "chunkStorage w"]
  unfolding gowd_iff setChunk_def by fastforce

lemma gowd_postMessage [simp]:
  "geometry_only_with_data (postMessage w r) = geometry_only_with_data w"
  by (simp add: gowd_iff postMessage_def)

lemma gowd_queue [simp]:
  "geometry_only_with_data (w\<lparr>meshRebuildQueue := q\<rparr>) = geometry_only_with_data w"
  by (simp add: gowd_iff)

lemma gowd_requestChunkMesh:
  "geometry_only_with_data w \<Longrightarrow> geometry_only_with_data (requestChunkMesh w k)"
  by (auto simp: requestChunkMesh_def intro!: gowd_setChunk split: option.splits)

lemma gowd_updateNeighboursLoop:
  "geometry_only_with_data w \<Longrightarrow> geometry_only_with_data (updateNeighboursLoop w x z offs)"
proof (induction w x z offs rule: updateNeighboursLoop.induct)
  case (1 w x z)
  then show ?case by simp
next
  case (2 w x z dx dz offs)
  then show ?case
    by (auto simp: gowd_requestChunkMesh split: option.splits)
qed

lemma gowd_requestChunkGeneration:
  "geometry_only_with_data w \<Longrightarrow> geometry_only_with_data (requestChunkGeneration w x z)"
  by (auto simp: requestChunkGeneration_def intro!: gowd_setChunk split: option.splits)

lemma gowd_onmessage:
  "geometry_only_with_data w \<Longrightarrow> geometry_only_with_data (onmessage w m)"
proof (cases m)
  case (Generated a b g)
  assume "geometry_only_with_data w"
  then show ?thesis
    unfolding Generated
    by (auto intro!: gowd_requestChunkMesh gowd_setChunk split: option.splits)
next
  case (Meshed a b gd)
  assume "geometry_only_with_data w"
  then show ?thesis
    unfolding Meshed
    by (auto simp: updateNeighboursOf_def intro!: gowd_updateNeighboursLoop gowd_setChunk
        split: option.splits)
qed simp_all

lemma gowd_flag:
  "geometry_only_with_data (flagChunkForRebuild w a b) = geometry_only_with_data w"
  by (simp add: gowd_iff)

lemma gowd_stored:
  "geometry_only_with_data w \<Longrightarrow> map_of (chunkStorage w) k = Some c \<Longrightarrow>
     mesh c \<noteq> None \<longrightarrow> state c = DATA_LOADED \<or> state c = MESHING \<or> state c = READY"
  unfolding gowd_iff by (auto dest!: map_of_SomeD)

lemma addBlock_Inr_cases:
  assumes "addBlock w x y z b = Inr w'"
  shows "w' = w \<or>
     (\<exists>c g'. map_of (chunkStorage w) (x div CHUNK_SIZE, z div CHUNK_SIZE) = Some c
        \<and> w' = flagAll (setChunk w (x div CHUNK_SIZE, z div CHUNK_SIZE) (c\<lparr>blocks := Some g'\<rparr>))
                 (rebuildTargets (x div CHUNK_SIZE) (z div CHUNK_SIZE)
                    (x mod CHUNK_SIZE) (z mod CHUNK_SIZE)))"
proof (cases "\<lfloor>y\<rfloor> < 0 \<or> CHUNK_HEIGHT \<le> \<lfloor>y\<rfloor>")
  case True
  then show ?thesis using assms by (simp add: addBlock_def worldToVoxelCoords_def)
next
  case inb: False
  show ?thesis
  proof (cases "getChunk w (x div CHUNK_SIZE) (z div CHUNK_SIZE)")
    case None
    then show ?thesis using assms inb by (simp add: addBlock_def worldToVoxelCoords_def)
  next
    case (Some c)
    show ?thesis
    proof (cases "blocks c")
      case None
      then show ?thesis using assms inb Some by (simp add: addBlock_def worldToVoxelCoords_def)
    next
      case g: (Some g)
      show ?thesis
      proof (cases "CHUNK_STATE (state c) < CHUNK_STATE DATA_LOADED")
        case True
        then show ?thesis
          using assms inb Some g by (simp add: addBlock_def worldToVoxelCoords_def)
      next
        case st: False
        show ?thesis
        proof (cases "cell g (x mod CHUNK_SIZE) \<lfloor>y\<rfloor> (z mod CHUNK_SIZE)")
          case (Inl e)
          then show ?thesis
            using assms inb Some g st by (simp add: addBlock_def worldToVoxelCoords_def)
        next
          case (Inr old)
          show ?thesis
          proof (cases "old = Some b")
            case True
            then show ?thesis
              using assms inb Some g st Inr by (simp add: addBlock_def worldToVoxelCoords_def)
          next
            case False
            have "0 \<le> \<lfloor>y\<rfloor>" "\<lfloor>y\<rfloor> < CHUNK_HEIGHT" "CHUNK_STATE DATA_LOADED \<le> CHUNK_STATE (state c)"
              using inb st by auto
            from addBlock_write[OF this(1,2) Some g this(3) Inr False] assms Some
            show ?thesis by (auto simp: getChunk_def)
          qed
        qed
      qed
    qed
  qed
qed

lemma gowd_flagAll [simp]:
  "geometry_only_with_data (flagAll w ks) = geometry_only_with_data w"
  by (simp add: gowd_iff)

lemma gowd_addBlock:
  assumes "geometry_only_with_data w" and "addBlock w x y z b = Inr w'"
  shows "geometry_only_with_data w'"
proof -
  from addBlock_Inr_cases[OF assms(2)]
  consider "w' = w"
    | c g' where "map_of (chunkStorage w) (x div CHUNK_SIZE, z div CHUNK_SIZE) = Some c"
        "w' = flagAll (setChunk w (x div CHUNK_SIZE, z div CHUNK_SIZE) (c\<lparr>blocks := Some g'\<rparr>))
                 (rebuildTargets (x div CHUNK_SIZE) (z div CHUNK_SIZE)
                    (x mod CHUNK_SIZE) (z mod CHUNK_SIZE))"
    by blast
  then show ?thesis
  proof cases
    case 1
    then show ?thesis using assms(1) by simp
  next
    case 2
    have "geometry_only_with_data (setChunk w (x div CHUNK_SIZE, z div CHUNK_SIZE) (c\<lparr>blocks := Some g'\<rparr>))"
      using gowd_stored[OF assms(1) 2(1)] by (intro gowd_setChunk assms(1)) simp
    then show ?thesis unfolding 2(2) by simp
  qed
qed

lemma gowd_rebuildLoop:
  "geometry_only_with_data w \<Longrightarrow> geometry_only_with_data (rebuildLoop n ks p w)"
proof (induction ks arbitrary: p w)
  case Nil
  then show ?case by simp
next
  case (Cons k ks)
  have dequeue: "\<And>v q. geometry_only_with_data v \<Longrightarrow>
      geometry_only_with_data (rebuildLoop n ks q (v\<lparr>meshRebuildQueue := removeAll k (meshRebuildQueue v)\<rparr>))"
    by (rule Cons.IH) simp
  show ?case
    using Cons.prems
    by (simp add: Let_def dequeue Cons.IH gowd_requestChunkMesh split: option.splits)
qed

lemma gowd_ensureChunk:
  "geometry_only_with_data w \<Longrightarrow> geometry_only_with_data (ensureChunk w k)"
  by (auto simp: ensureChunk_def gowd_requestChunkGeneration intro!: gowd_setChunk
      split: option.splits)

lemma gowd_unloadEntry:
  "geometry_only_with_data w \<Longrightarrow> geometry_only_with_data (unloadEntry ks w e)"
  using set_delete_subset[of "fst e" "chunkStorage w"]
  unfolding gowd_iff unloadEntry_def by auto

lemma gowd_ensureAll:
  "geometry_only_with_data w \<Longrightarrow> geometry_only_with_data (foldl ensureChunk w ks)"
  by (induction ks arbitrary: w) (simp_all add: gowd_ensureChunk)

lemma gowd_unloadAll:
  "geometry_only_with_data w \<Longrightarrow> geometry_only_with_data (foldl (unloadEntry keys) w es)"
  by (induction es arbitrary: w) (simp_all add: gowd_unloadEntry)

lemma gowd_updateWorld:
  assumes "geometry_only_with_data w"
  shows "geometry_only_with_data (updateWorld w px pz)"
proof -
  define keys where "keys = inRangeKeys \<lfloor>px / real_of_int CHUNK_SIZE\<rfloor> \<lfloor>pz / real_of_int CHUNK_SIZE\<rfloor>"
  define w1 where "w1 = foldl ensureChunk w keys"
  define w2 where "w2 = foldl (unloadEntry keys) w1 (chunkStorage w1)"
  have "geometry_only_with_data w1"
    unfolding w1_def by (rule gowd_ensureAll[OF assms])
  then have "geometry_only_with_data w2"
    unfolding w2_def by (rule gowd_unloadAll)
  then have "geometry_only_with_data (rebuildLoop 1 (meshRebuildQueue w2) 0 w2)"
    by (rule gowd_rebuildLoop)
  moreover have "updateWorld w px pz = rebuildLoop 1 (meshRebuildQueue w2) 0 w2"
    by (simp add: updateWorld_def Let_def processRebuildQueue_def w2_def w1_def keys_def)
  ultimately show ?thesis by simp
qed


lemma reachable_gowd:
  "reachable w \<Longrightarrow> geometry_only_with_data w"
proof (induction rule: reachable.induct)
  case reach_init
  show ?case by (simp add: gowd_iff emptyWorld_def)
next
  case (reach_resources w)
  then show ?case by (simp add: initializeWorldResources_def)
next
  case (reach_update w px pz)
  from reach_update.IH show ?case by (rule gowd_updateWorld)
next
  case (reach_message w m)
  from reach_message.IH show ?case by (rule gowd_onmessage)
next
  case (reach_addBlock w x y z b w')
  from reach_addBlock.IH reach_addBlock.hyps(2) show ?case by (rule gowd_addBlock)
next
  case (reach_rebuild w n)
  from reach_rebuild.IH show ?case unfolding processRebuildQueue_def by (rule gowd_rebuildLoop)
qed

subsection \<open>Distinct keys\<close>

lemma dk_setChunk: "distinct_keys w \<Longrightarrow> distinct_keys (setChunk w k c)"
  by (simp add: distinct_keys_def setChunk_def distinct_update)

lemma dk_postMessage [simp]: "distinct_keys (postMessage w r) = distinct_keys w"
  by (simp add: distinct_keys_def postMessage_def)

lemma dk_queue [simp]: "distinct_keys (w\<lparr>meshRebuildQueue := q\<rparr>) = distinct_keys w"
  by (simp add: distinct_keys_def)

lemma dk_requestChunkMesh: "distinct_keys w \<Longrightarrow> distinct_keys (requestChunkMesh w k)"
  by (auto simp: requestChunkMesh_def dk_setChunk split: option.splits)

lemma dk_updateNeighboursLoop:
  "distinct_keys w \<Longrightarrow> distinct_keys (updateNeighboursLoop w x z offs)"
proof (induction w x z offs rule: updateNeighboursLoop.induct)
  case (1 w x z)
  then show ?case by simp
next
  case (2 w x z dx dz offs)
  then show ?case by (auto simp: dk_requestChunkMesh split: option.splits)
qed

lemma dk_requestChunkGeneration:
  "distinct_keys w \<Longrightarrow> distinct_keys (requestChunkGeneration w x z)"
  by (auto simp: requestChunkGeneration_def dk_setChunk split: option.splits)

lemma dk_onmessage: "distinct_keys w \<Longrightarrow> distinct_keys (onmessage w m)"
  by (cases m)
     (auto simp: updateNeighboursOf_def dk_updateNeighboursLoop dk_requestChunkMesh dk_setChunk
        split: option.splits)

lemma dk_flag [simp]: "distinct_keys (flagChunkForRebuild w a b) = distinct_keys w"
  by (simp add: distinct_keys_def)

lemma dk_flagAll [simp]: "distinct_keys (flagAll w ks) = distinct_keys w"
  by (simp add: distinct_keys_def)

lemma dk_addBlock:
  assumes "distinct_keys w" and "addBlock w x y z b = Inr w'"
  shows "distinct_keys w'"
  using addBlock_Inr_cases[OF assms(2)] assms(1) by (auto simp: dk_setChunk)

lemma dk_rebuildLoop: "distinct_keys w \<Longrightarrow> distinct_keys (rebuildLoop n ks p w)"
proof (induction ks arbitrary: p w)
  case Nil
  then show ?case by simp
next
  case (Cons k ks)
  have dq: "\<And>v q. distinct_keys v \<Longrightarrow>
      distinct_keys (rebuildLoop n ks q (v\<lparr>meshRebuildQueue := removeAll k (meshRebuildQueue v)\<rparr>))"
    by (rule Cons.IH) simp
  show ?case
    using Cons.prems
    by (simp add: Let_def dq Cons.IH dk_requestChunkMesh split: option.splits)
qed

lemma dk_ensureChunk: "distinct_keys w \<Longrightarrow> distinct_keys (ensureChunk w k)"
  by (auto simp: ensureChunk_def dk_requestChunkGeneration dk_setChunk split: option.splits)

lemma dk_unloadEntry: "distinct_keys w \<Longrightarrow> distinct_keys (unloadEntry ks w e)"
  by (simp add: distinct_keys_def unloadEntry_def distinct_delete)

lemma dk_ensureAll: "distinct_keys w \<Longrightarrow> distinct_keys (foldl ensureChunk w ks)"
  by (induction ks arbitrary: w) (simp_all add: dk_ensureChunk)

lemma dk_unloadAll: "distinct_keys w \<Longrightarrow> distinct_keys (foldl (unloadEntry keys) w es)"
  by (induction es arbitrary: w) (simp_all add: dk_unloadEntry)

lemma dk_updateWorld: "distinct_keys w \<Longrightarrow> distinct_keys (updateWorld w px pz)"
  unfolding updateWorld_phases by (intro dk_rebuildLoop dk_unloadAll dk_ensureAll)

lemma dk_perform: "distinct_keys w \<Longrightarrow> distinct_keys (perform w ev)"
proof (cases ev)
  case (AddBlock x y z b)
  assume d: "distinct_keys w"
  show ?thesis
  proof (cases "addBlock w x y z b")
    case (Inl e)
    then show ?thesis using d AddBlock by simp
  next
    case (Inr w')
    then show ?thesis using dk_addBlock[OF d Inr] AddBlock by simp
  qed
qed (simp_all add: initializeWorldResources_def dk_updateWorld dk_onmessage
      processRebuildQueue_def dk_rebuildLoop)

subsection \<open>Where a mesh comes from\<close>

lemma mesh_kept_refl [simp]: "mesh_kept w w"
  by (simp add: mesh_kept_def)

lemma mesh_kept_trans: "mesh_kept a b \<Longrightarrow> mesh_kept b c \<Longrightarrow> mesh_kept a c"
  unfolding mesh_kept_def by metis

lemma mesh_kept_storage: "chunkStorage w' = chunkStorage w \<Longrightarrow> mesh_kept w w'"
  by (simp add: mesh_kept_def)

lemma mesh_kept_setChunk:
  "map_of (chunkStorage w) k = Some c \<Longrightarrow> mesh c' = mesh c \<Longrightarrow> mesh_kept w (setChunk w k c')"
  by (auto simp: mesh_kept_def lookup_setChunk)

lemma mesh_kept_setChunk_bare:
  "mesh c' = None \<Longrightarrow> mesh_kept w (setChunk w k c')"
  by (auto simp: mesh_kept_def lookup_setChunk)

lemma mesh_kept_requestChunkMesh: "mesh_kept w (requestChunkMesh w k)"
  unfolding mesh_kept_def using requestChunkMesh_state_only by blast

lemma mesh_kept_updateNeighboursLoop: "mesh_kept w (updateNeighboursLoop w x z offs)"
proof (induction w x z offs rule: updateNeighboursLoop.induct)
  case (1 w x z)
  show ?case by simp
next
  case (2 w x z dx dz offs)
  show ?case
  proof (cases "getChunk w (x + dx) (z + dz)")
    case None
    then show ?thesis using 2 by simp
  next
    case (Some n)
    show ?thesis
    proof (cases "state n = DATA_LOADED")
      case True
      have "mesh_kept (requestChunkMesh w (x + dx, z + dz))
              (updateNeighboursLoop (requestChunkMesh w (x + dx, z + dz)) x z offs)"
        using 2 Some True by simp
      then show ?thesis
        using mesh_kept_trans[OF mesh_kept_requestChunkMesh] Some True by simp
    next
      case False
      then show ?thesis using 2 Some by simp
    qed
  qed
qed

lemma mesh_kept_requestChunkGeneration: "mesh_kept w (requestChunkGeneration w x z)"
  by (auto simp: requestChunkGeneration_def mesh_kept_def lookup_setChunk split: option.splits)

lemma mesh_kept_rebuildLoop: "mesh_kept w (rebuildLoop n ks p w)"
proof (induction ks arbitrary: p w)
  case Nil
  show ?case by simp
next
  case (Cons k ks)
  have dq: "\<And>v q. mesh_kept v (rebuildLoop n ks q (v\<lparr>meshRebuildQueue := removeAll k (meshRebuildQueue v)\<rparr>))"
  proof -
    fix v q
    have "mesh_kept v (v\<lparr>meshRebuildQueue := removeAll k (meshRebuildQueue v)\<rparr>)"
      by (simp add: mesh_kept_def)
    then show "mesh_kept v (rebuildLoop n ks q (v\<lparr>meshRebuildQueue := removeAll k (meshRebuildQueue v)\<rparr>))"
      using Cons.IH mesh_kept_trans by blast
  qed
  have rq: "\<And>q. mesh_kept w (rebuildLoop n ks q
        ((requestChunkMesh w k)\<lparr>meshRebuildQueue := removeAll k (meshRebuildQueue (requestChunkMesh w k))\<rparr>))"
    using dq mesh_kept_requestChunkMesh mesh_kept_trans by blast
  show ?case
    by (simp add: Let_def dq rq Cons.IH split: option.splits)
qed

lemma mesh_kept_ensureChunk: "mesh_kept w (ensureChunk w k)"
  by (auto simp: ensureChunk_def mesh_kept_requestChunkGeneration mesh_kept_setChunk
      split: option.splits)

lemma mesh_kept_ensureAll: "mesh_kept w (foldl ensureChunk w ks)"
proof (induction ks arbitrary: w)
  case Nil
  show ?case by simp
next
  case (Cons k ks)
  show ?case using mesh_kept_trans[OF mesh_kept_ensureChunk Cons.IH] by simp
qed

lemma mesh_kept_unloadEntry: "mesh_kept w (unloadEntry keys w e)"
  by (auto simp: unloadEntry_def mesh_kept_def AList.delete_conv' split: if_splits)

lemma mesh_kept_unloadAll: "mesh_kept w (foldl (unloadEntry keys) w es)"
proof (induction es arbitrary: w)
  case Nil
  show ?case by simp
next
  case (Cons e es)
  show ?case using mesh_kept_trans[OF mesh_kept_unloadEntry Cons.IH] by simp
qed

lemma mesh_kept_updateWorld: "mesh_kept w (updateWorld w px pz)"
proof -
  define keys where "keys = inRangeKeys \<lfloor>px / real_of_int CHUNK_SIZE\<rfloor> \<lfloor>pz / real_of_int CHUNK_SIZE\<rfloor>"
  define w1 where "w1 = foldl ensureChunk w keys"
  define w2 where "w2 = foldl (unloadEntry keys) w1 (chunkStorage w1)"
  have u: "updateWorld w px pz = rebuildLoop 1 (meshRebuildQueue w) 0 w2"
    by (simp add: updateWorld_phases w2_def w1_def keys_def)
  have a: "mesh_kept w w1" unfolding w1_def by (rule mesh_kept_ensureAll)
  have b: "mesh_kept w1 w2" unfolding w2_def by (rule mesh_kept_unloadAll)
  have c: "mesh_kept w2 (rebuildLoop 1 (meshRebuildQueue w) 0 w2)" by (rule mesh_kept_rebuildLoop)
  show ?thesis unfolding u using mesh_kept_trans[OF mesh_kept_trans[OF a b] c] .
qed

lemma mesh_kept_addBlock:
  assumes "addBlock w x y z b = Inr w'"
  shows "mesh_kept w w'"
proof -
  from addBlock_Inr_cases[OF assms]
  consider "w' = w"
    | c g' where "map_of (chunkStorage w) (x div CHUNK_SIZE, z div CHUNK_SIZE) = Some c"
        "w' = flagAll (setChunk w (x div CHUNK_SIZE, z div CHUNK_SIZE) (c\<lparr>blocks := Some g'\<rparr>))
                 (rebuildTargets (x div CHUNK_SIZE) (z div CHUNK_SIZE)
                    (x mod CHUNK_SIZE) (z mod CHUNK_SIZE))"
    by blast
  then show ?thesis
  proof cases
    case 1
    then show ?thesis by simp
  next
    case 2
    have a: "mesh_kept w (setChunk w (x div CHUNK_SIZE, z div CHUNK_SIZE) (c\<lparr>blocks := Some g'\<rparr>))"
      using 2(1) by (intro mesh_kept_setChunk) simp_all
    have b: "mesh_kept (setChunk w (x div CHUNK_SIZE, z div CHUNK_SIZE) (c\<lparr>blocks := Some g'\<rparr>)) w'"
      unfolding 2(2) by (rule mesh_kept_storage) simp
    show ?thesis using mesh_kept_trans[OF a b] .
  qed
qed

lemma ready_updateNeighboursLoop:
  "map_of (chunkStorage w) k = Some c \<Longrightarrow> state c = READY \<Longrightarrow>
   map_of (chunkStorage (updateNeighboursLoop w x z offs)) k = Some c"
proof (induction w x z offs rule: updateNeighboursLoop.induct)
  case (1 w x z)
  then show ?case by simp
next
  case (2 w x z dx dz offs)
  show ?case
  proof (cases "getChunk w (x + dx) (z + dz)")
    case None
    then show ?thesis using 2 by simp
  next
    case (Some n)
    show ?thesis
    proof (cases "state n = DATA_LOADED")
      case True
      have ne: "k \<noteq> (x + dx, z + dz)"
        using Some True "2.prems" by (auto simp: getChunk_def)
      have "map_of (chunkStorage (requestChunkMesh w (x + dx, z + dz))) k = Some c"
        using "2.prems"(1) ne by (simp add: lookup_requestChunkMesh_other)
      then show ?thesis using 2 Some True by simp
    next
      case False
      then show ?thesis using 2 Some by simp
    qed
  qed
qed

lemma onmessage_mesh:
  assumes "map_of (chunkStorage (onmessage w m)) k = Some c'" and "mesh c' \<noteq> None"
  shows "state c' = READY \<or> (\<exists>c. map_of (chunkStorage w) k = Some c \<and> mesh c = mesh c')"
proof (cases m)
  case (Generated a b g)
  have "mesh_kept w (onmessage w m)"
  proof (cases "getChunk w a b")
    case None
    then show ?thesis using Generated by simp
  next
    case (Some c)
    show ?thesis
    proof (cases "state c = LOADING_DATA")
      case True
      have s: "mesh_kept w (setChunk w (a, b) (c\<lparr>blocks := Some g, state := DATA_LOADED\<rparr>))"
        using Some by (intro mesh_kept_setChunk) (simp_all add: getChunk_def)
      show ?thesis
        using mesh_kept_trans[OF s mesh_kept_requestChunkMesh] Some True Generated by simp
    next
      case False
      then show ?thesis using Some Generated by simp
    qed
  qed
  then show ?thesis using assms unfolding mesh_kept_def by blast
next
  case (Meshed a b gd)
  show ?thesis
  proof (cases "getChunk w a b")
    case None
    then show ?thesis using assms Meshed by auto
  next
    case (Some c)
    show ?thesis
    proof (cases "state c = MESHING")
      case False
      then show ?thesis using assms Some Meshed by auto
    next
      case True
      define new where "new = (buildMeshFromData c gd)\<lparr>state := READY\<rparr>"
      define w1 where "w1 = setChunk w (a, b) new"
      have e: "onmessage w m = updateNeighboursLoop w1 (cx c) (cz c) requiredOffsets"
        using Some True Meshed by (simp add: updateNeighboursOf_def w1_def new_def)
      have n1: "map_of (chunkStorage w1) (a, b) = Some new"
        by (simp add: w1_def lookup_setChunk)
      have rd: "state new = READY" by (simp add: new_def)
      have kept: "map_of (chunkStorage (onmessage w m)) (a, b) = Some new"
        unfolding e using n1 rd by (rule ready_updateNeighboursLoop)
      obtain c1 where c1: "map_of (chunkStorage w1) k = Some c1" "mesh c1 = mesh c'"
        using mesh_kept_updateNeighboursLoop[of w1 "cx c" "cz c" requiredOffsets] assms
        unfolding e mesh_kept_def by blast
      show ?thesis
      proof (cases "k = (a, b)")
        case True
        then have "c' = new" using kept assms(1) by simp
        then show ?thesis using rd by simp
      next
        case False
        then have "map_of (chunkStorage w) k = Some c1"
          using c1(1) by (simp add: w1_def lookup_setChunk)
        then show ?thesis using c1(2) by blast
      qed
    qed
  qed
next
  case (Log x)
  then show ?thesis using assms by auto
next
  case (Error x)
  then show ?thesis using assms by auto
qed

lemma perform_mesh:
  assumes "map_of (chunkStorage (perform w ev)) k = Some c'" and "mesh c' \<noteq> None"
  shows "state c' = READY \<or> (\<exists>c. map_of (chunkStorage w) k = Some c \<and> mesh c = mesh c')"
proof (cases ev)
  case (Message m)
  then show ?thesis using assms onmessage_mesh by simp
next
  case Resources
  then have "mesh_kept w (perform w ev)"
    by (simp add: initializeWorldResources_def mesh_kept_def)
  then show ?thesis using assms unfolding mesh_kept_def by blast
next
  case (Update px pz)
  then have "mesh_kept w (perform w ev)" by (simp add: mesh_kept_updateWorld)
  then show ?thesis using assms unfolding mesh_kept_def by blast
next
  case (AddBlock x y z b)
  have "mesh_kept w (perform w ev)"
  proof (cases "addBlock w x y z b")
    case (Inl e)
    then show ?thesis using AddBlock by simp
  next
    case (Inr w')
    then show ?thesis using AddBlock mesh_kept_addBlock[OF Inr] by simp
  qed
  then show ?thesis using assms unfolding mesh_kept_def by blast
next
  case (Rebuild n)
  then have "mesh_kept w (perform w ev)"
    by (simp add: processRebuildQueue_def mesh_kept_rebuildLoop)
  then show ?thesis using assms unfolding mesh_kept_def by blast
qed

lemma gowd_perform: "geometry_only_with_data w \<Longrightarrow> geometry_only_with_data (perform w ev)"
proof (cases ev)
  case (AddBlock x y z b)
  assume g: "geometry_only_with_data w"
  show ?thesis
  proof (cases "addBlock w x y z b")
    case (Inl e)
    then show ?thesis using g AddBlock by simp
  next
    case (Inr w')
    then show ?thesis using gowd_addBlock[OF g Inr] AddBlock by simp
  qed
qed (simp_all add: initializeWorldResources_def gowd_updateWorld gowd_onmessage
      processRebuildQueue_def gowd_rebuildLoop)

subsection \<open>Histories\<close>

lemma run_nonempty [simp]: "run w evs \<noteq> []"
  by (cases evs) simp_all

lemma run_snoc: "run w (evs @ [ev]) = run w evs @ [perform (last (run w evs)) ev]"
  by (induction evs arbitrary: w) simp_all

lemma last_run: "last (run w evs) = foldl perform w evs"
  by (induction evs arbitrary: w) simp_all

lemma run_invariants:
  "distinct_keys (last (run emptyWorld evs)) \<and> geometry_only_with_data (last (run emptyWorld evs))"
proof (induction evs rule: rev_induct)
  case Nil
  show ?case by (simp add: distinct_keys_def gowd_iff emptyWorld_def)
next
  case (snoc ev evs)
  then show ?case by (simp add: run_snoc dk_perform gowd_perform)
qed

lemma run_mesh_history:
  "map_of (chunkStorage (last (run emptyWorld evs))) k = Some c \<Longrightarrow> mesh c \<noteq> None \<Longrightarrow>
   \<exists>v \<in> set (run emptyWorld evs). held_when_READY v k (mesh c)"
proof (induction evs arbitrary: c rule: rev_induct)
  case Nil
  then show ?case by (simp add: emptyWorld_def)
next
  case (snoc ev evs)
  define w where "w = last (run emptyWorld evs)"
  have l: "map_of (chunkStorage (perform w ev)) k = Some c"
    using snoc.prems(1) by (simp add: run_snoc w_def)
  from perform_mesh[OF l snoc.prems(2)]
  show ?case
  proof
    assume "state c = READY"
    then have "held_when_READY (perform w ev) k (mesh c)"
      using l by (simp add: held_when_READY_def)
    then show ?thesis by (auto simp: run_snoc w_def)
  next
    assume "\<exists>c0. map_of (chunkStorage w) k = Some c0 \<and> mesh c0 = mesh c"
    then obtain c0 where c0: "map_of (chunkStorage w) k = Some c0" "mesh c0 = mesh c" by blast
    then have "mesh c0 \<noteq> None" using snoc.prems(2) by simp
    from snoc.IH[OF c0(1)[unfolded w_def] this] c0(2)
    show ?thesis by (auto simp: run_snoc)
  qed
qed


text \<open>
  Claim C5, as the code keeps it. Take any sequence of calls and messages from the empty
  store. In the state it ends in, a chunk whose mesh is non-null is READY, or it is in
  MESHING or DATA_LOADED and the chunk under its key held that same mesh in an earlier
  state of the history, in which it was READY. So a mesh is first set on the move to
  READY, a chunk holds none in UNKNOWN, LOADING_DATA or UNLOADING, and a chunk that is
  meshed again keeps its previous mesh while in MESHING (or in DATA_LOADED, when the
  request is deferred) until the new one replaces it.
\<close>

theorem run_geometry_since_READY:
  "geometry_since_READY (run emptyWorld evs)"
proof -
  define ws where "ws = run emptyWorld evs"
  have ne: "ws \<noteq> []" by (simp add: ws_def)
  have dk: "distinct (map fst (chunkStorage (last ws)))"
    using run_invariants[of evs] by (simp add: ws_def distinct_keys_def)
  have gd: "geometry_only_with_data (last ws)"
    using run_invariants[of evs] by (simp add: ws_def)
  have "mesh (snd e) \<noteq> None \<longrightarrow>
          state (snd e) = READY
          \<or> ((state (snd e) = MESHING \<or> state (snd e) = DATA_LOADED)
              \<and> list_ex (\<lambda>v. held_when_READY v (fst e) (mesh (snd e))) (butlast ws))"
    if mem: "e \<in> set (chunkStorage (last ws))" for e
  proof (intro impI)
    assume m: "mesh (snd e) \<noteq> None"
    obtain k c where e: "e = (k, c)" by (cases e) auto
    have l: "map_of (chunkStorage (last ws)) k = Some c"
      using dk mem unfolding e by simp
    have st: "state c = DATA_LOADED \<or> state c = MESHING \<or> state c = READY"
      using gowd_stored[OF gd l] m unfolding e by simp
    show "state (snd e) = READY
          \<or> ((state (snd e) = MESHING \<or> state (snd e) = DATA_LOADED)
              \<and> list_ex (\<lambda>v. held_when_READY v (fst e) (mesh (snd e))) (butlast ws))"
    proof (cases "state c = READY")
      case True
      then show ?thesis by (simp add: e)
    next
      case False
      obtain v where v: "v \<in> set ws" "held_when_READY v k (mesh c)"
        using run_mesh_history[OF l[unfolded ws_def]] m unfolding e ws_def by auto
      have "v \<noteq> last ws"
        using v(2) l False by (auto simp: held_when_READY_def)
      moreover have "ws = butlast ws @ [last ws]" using ne by simp
      ultimately have "v \<in> set (butlast ws)"
        using v(1) by (metis Un_iff empty_iff insert_iff list.set(1) list.set(2) set_append)
      then show ?thesis using st False v(2) by (auto simp: e list_ex_iff)
    qed
  qed
  then show ?thesis
    unfolding geometry_since_READY_def list_all_iff ws_def by blast
qed

lemma edited_eq: "addBlock centreMeshed 5 5 5 0 = Inr edited"
proof -
  let ?c = "\<lparr>cx = 0, cz = 0, blocks = Some (uniformGrid 2), mesh = Some [], state = READY\<rparr>"
  have h1: "0 \<le> \<lfloor>5::real\<rfloor>" and h2: "\<lfloor>5::real\<rfloor> < CHUNK_HEIGHT"
    by (simp_all add: CHUNK_HEIGHT_def)
  have h3: "getChunk centreMeshed (5 div CHUNK_SIZE) (5 div CHUNK_SIZE) = Some ?c"
    by (simp add: getChunk_def CHUNK_SIZE_def centreMeshed_centre)
  have h4: "blocks ?c = Some (uniformGrid 2)" by simp
  have h5: "CHUNK_STATE DATA_LOADED \<le> CHUNK_STATE (state ?c)" by simp
  have h6: "cell (uniformGrid 2) (5 mod CHUNK_SIZE) \<lfloor>5::real\<rfloor> (5 mod CHUNK_SIZE) = Inr (Some 2)"
    by (simp add: cell_uniformGrid CHUNK_SIZE_def CHUNK_HEIGHT_def)
  have h7: "Some (2::int) \<noteq> Some 0" by simp
  show ?thesis
    unfolding edited_def addBlock_write[OF h1 h2 h3 h4 h5 h6 h7] by simp
qed

lemma edited_storage:
  "chunkStorage edited =
     AList.update (0, 0)
       \<lparr>cx = 0, cz = 0, blocks = Some (cell_set (uniformGrid 2) 5 5 5 0), mesh = Some [], state = READY\<rparr>
       (chunkStorage centreMeshed)"
proof -
  let ?c = "\<lparr>cx = 0, cz = 0, blocks = Some (uniformGrid 2), mesh = Some [], state = READY\<rparr>"
  have h1: "0 \<le> \<lfloor>5::real\<rfloor>" and h2: "\<lfloor>5::real\<rfloor> < CHUNK_HEIGHT"
    by (simp_all add: CHUNK_HEIGHT_def)
  have h3: "getChunk centreMeshed (5 div CHUNK_SIZE) (5 div CHUNK_SIZE) = Some ?c"
    by (simp add: getChunk_def CHUNK_SIZE_def centreMeshed_centre)
  have h4: "blocks ?c = Some (uniformGrid 2)" by simp
  have h5: "CHUNK_STATE DATA_LOADED \<le> CHUNK_STATE (state ?c)" by simp
  have h6: "cell (uniformGrid 2) (5 mod CHUNK_SIZE) \<lfloor>5::real\<rfloor> (5 mod CHUNK_SIZE) = Inr (Some 2)"
    by (simp add: cell_uniformGrid CHUNK_SIZE_def CHUNK_HEIGHT_def)
  have h7: "Some (2::int) \<noteq> Some 0" by simp
  show ?thesis
    unfolding edited_def addBlock_write[OF h1 h2 h3 h4 h5 h6 h7]
    by (simp add: setChunk_def CHUNK_SIZE_def)
qed

lemma edited_queue: "meshRebuildQueue edited = [(0, 0)]"
proof -
  let ?c = "\<lparr>cx = 0, cz = 0, blocks = Some (uniformGrid 2), mesh = Some [], state = READY\<rparr>"
  have h1: "0 \<le> \<lfloor>5::real\<rfloor>" and h2: "\<lfloor>5::real\<rfloor> < CHUNK_HEIGHT"
    by (simp_all add: CHUNK_HEIGHT_def)
  have h3: "getChunk centreMeshed (5 div CHUNK_SIZE) (5 div CHUNK_SIZE) = Some ?c"
    by (simp add: getChunk_def CHUNK_SIZE_def centreMeshed_centre)
  have h4: "blocks ?c = Some (uniformGrid 2)" by simp
  have h5: "CHUNK_STATE DATA_LOADED \<le> CHUNK_STATE (state ?c)" by simp
  have h6: "cell (uniformGrid 2) (5 mod CHUNK_SIZE) \<lfloor>5::real\<rfloor> (5 mod CHUNK_SIZE) = Inr (Some 2)"
    by (simp add: cell_uniformGrid CHUNK_SIZE_def CHUNK_HEIGHT_def)
  have h7: "Some (2::int) \<noteq> Some 0" by simp
  show ?thesis
    unfolding edited_def addBlock_write[OF h1 h2 h3 h4 h5 h6 h7]
    by (simp add: rebuildTargets_def flagAll_def CHUNK_SIZE_def flagChunkForRebuild_def
        setChunk_def AList.update_conv' set_add_def centreMeshed_queue)
qed

lemma centreMeshed_neighbours:
  "map_of (chunkStorage centreMeshed) (1, 0) =
     Some \<lparr>cx = 1, cz = 0, blocks = Some (uniformGrid 2), mesh = None, state = DATA_LOADED\<rparr>"
  "map_of (chunkStorage centreMeshed) (0, 1) =
     Some \<lparr>cx = 0, cz = 1, blocks = Some (uniformGrid 2), mesh = None, state = DATA_LOADED\<rparr>"
  "map_of (chunkStorage centreMeshed) (0, -1) =
     Some \<lparr>cx = 0, cz = -1, blocks = Some (uniformGrid 2), mesh = None, state = DATA_LOADED\<rparr>"
  unfolding centreMeshed_def
  by (simp_all add: store_simps)

lemma remeshing_centre:
  "map_of (chunkStorage remeshing) (0, 0) =
     Some \<lparr>cx = 0, cz = 0, blocks = Some (cell_set (uniformGrid 2) 5 5 5 0), mesh = Some [],
           state = MESHING\<rparr>"
  unfolding remeshing_def processRebuildQueue_def
  by (simp add: edited_queue edited_storage AList.update_conv' requestChunkMesh_def
      getNeighbourDataForMeshing_def requiredOffsets_def getChunk_def centreMeshed_neighbours
      centreMeshed_west setChunk_def postMessage_def Let_def)

lemma reachable_remeshing: "reachable remeshing"
  unfolding remeshing_def
  by (intro reach_rebuild reach_addBlock[OF reachable_centreMeshed edited_eq])


lemma reachable_perform: "reachable w \<Longrightarrow> reachable (perform w ev)"
proof (cases ev)
  case (AddBlock x y z b)
  assume r: "reachable w"
  show ?thesis
  proof (cases "addBlock w x y z b")
    case (Inl e)
    then show ?thesis using r AddBlock by simp
  next
    case (Inr w')
    then show ?thesis using reach_addBlock[OF r Inr] AddBlock by simp
  qed
qed (auto intro: reachable.intros)

lemma reachable_run: "reachable (last (run emptyWorld evs))"
  by (induction evs rule: rev_induct) (simp_all add: run_snoc reach_init reachable_perform)

lemma reachable_is_run: "reachable w \<Longrightarrow> \<exists>evs. w = last (run emptyWorld evs)"
proof (induction rule: reachable.induct)
  case reach_init
  have "emptyWorld = last (run emptyWorld [])" by simp
  then show ?case by blast
next
  case (reach_resources w)
  then obtain evs where "w = last (run emptyWorld evs)" by blast
  then have "initializeWorldResources w = last (run emptyWorld (evs @ [Resources]))"
    by (simp add: run_snoc)
  then show ?case by blast
next
  case (reach_update w px pz)
  then obtain evs where "w = last (run emptyWorld evs)" by blast
  then have "updateWorld w px pz = last (run emptyWorld (evs @ [Update px pz]))"
    by (simp add: run_snoc)
  then show ?case by blast
next
  case (reach_message w m)
  then obtain evs where "w = last (run emptyWorld evs)" by blast
  then have "onmessage w m = last (run emptyWorld (evs @ [Message m]))"
    by (simp add: run_snoc)
  then show ?case by blast
next
  case (reach_addBlock w x y z b w')
  then obtain evs where "w = last (run emptyWorld evs)" by blast
  then have "w' = last (run emptyWorld (evs @ [AddBlock x y z b]))"
    using reach_addBlock.hyps(2) by (simp add: run_snoc)
  then show ?case by blast
next
  case (reach_rebuild w n)
  then obtain evs where "w = last (run emptyWorld evs)" by blast
  then have "processRebuildQueue w n = last (run emptyWorld (evs @ [Rebuild n]))"
    by (simp add: run_snoc)
  then show ?case by blast
qed

lemma reachable_iff_run: "reachable w \<longleftrightarrow> (\<exists>evs. w = last (run emptyWorld evs))"
  using reachable_is_run reachable_run by blast

lemma meshedEvents_edited: "foldl perform emptyWorld meshedEvents = edited"
proof -
  have "foldl perform emptyWorld meshedEvents =
      (case addBlock centreMeshed 5 5 5 0 of Inl e \<Rightarrow> centreMeshed | Inr w' \<Rightarrow> w')"
    unfolding meshedEvents_def centreMeshed_def started_def
    by (simp only: foldl_Cons foldl_Nil perform.simps)
  then show ?thesis by (simp add: edited_eq)
qed

lemma remeshEvents_remeshing: "last (run emptyWorld remeshEvents) = remeshing"
  by (simp add: last_run remeshEvents_def meshedEvents_edited remeshing_def)

lemma deferEvents_deferredRemesh: "last (run emptyWorld deferEvents) = deferredRemesh"
  by (simp add: last_run deferEvents_def meshedEvents_edited deferredRemesh_def)

lemma edited_lookups:
  "map_of (chunkStorage edited) (0, 0) =
     Some \<lparr>cx = 0, cz = 0, blocks = Some (cell_set (uniformGrid 2) 5 5 5 0), mesh = Some [], state = READY\<rparr>"
  "map_of (chunkStorage edited) (-1, 0) =
     Some \<lparr>cx = -1, cz = 0, blocks = Some (uniformGrid 2), mesh = None, state = DATA_LOADED\<rparr>"
  by (simp_all add: edited_storage AList.update_conv' centreMeshed_west)

lemma deferredRemesh_centre:
  "map_of (chunkStorage deferredRemesh) (0, 0) =
     Some \<lparr>cx = 0, cz = 0, blocks = Some (cell_set (uniformGrid 2) 5 5 5 0), mesh = Some [],
           state = DATA_LOADED\<rparr>"
proof -
  let ?c = "\<lparr>cx = 0, cz = 0, blocks = Some (cell_set (uniformGrid 2) 5 5 5 0), mesh = Some [], state = READY\<rparr>"
  let ?n = "\<lparr>cx = -1, cz = 0, blocks = Some (uniformGrid 2), mesh = None, state = DATA_LOADED\<rparr>"
  define keys where "keys = inRangeKeys \<lfloor>96 / real_of_int CHUNK_SIZE\<rfloor> \<lfloor>0 / real_of_int CHUNK_SIZE\<rfloor>"
  define w1 where "w1 = foldl ensureChunk edited keys"
  define w2 where "w2 = foldl (unloadEntry keys) w1 (chunkStorage w1)"
  have u: "deferredRemesh = rebuildLoop 1 [(0, 0)] 0 w2"
    by (simp add: deferredRemesh_def updateWorld_phases w2_def w1_def keys_def edited_queue)
  have near: "(0, 0) \<in> set keys"
    by (simp add: keys_def inRangeKeys_set RENDER_DISTANCE_def CHUNK_SIZE_def)
  have far: "(-1, 0) \<notin> set keys"
    by (simp add: keys_def inRangeKeys_set RENDER_DISTANCE_def CHUNK_SIZE_def)
  have c1: "map_of (chunkStorage w1) (0, 0) = Some ?c"
    unfolding w1_def by (rule lookup_ensureAll_keeps) (simp_all add: edited_lookups)
  have n1: "map_of (chunkStorage w1) (-1, 0) = Some ?n"
    unfolding w1_def by (rule lookup_ensureAll_keeps) (simp_all add: edited_lookups)
  have c2: "map_of (chunkStorage w2) (0, 0) = Some ?c"
    unfolding w2_def using c1 by (simp add: lookup_unloadAll_in_range[OF near])
  have "((-1, 0), ?n) \<in> set (chunkStorage w1)" using n1 by (rule map_of_SomeD)
  then have n2: "map_of (chunkStorage w2) (-1, 0) = None"
    unfolding w2_def using far by (rule lookup_unloadAll_out_of_range) simp
  have "\<not> has_data w2 (0 - 1) 0" using n2 by (simp add: has_data_def getChunk_def)
  then have nd: "getNeighbourDataForMeshing w2 0 0 = None"
    unfolding getNeighbourData_None_iff by blast
  have "requestChunkMesh w2 (0, 0) = setChunk w2 (0, 0) (?c\<lparr>state := DATA_LOADED\<rparr>)"
    by (simp add: requestChunkMesh_def c2 nd)
  then show ?thesis
    unfolding u by (simp add: c2 Let_def lookup_setChunk)
qed

lemma reachable_deferredRemesh: "reachable deferredRemesh"
  unfolding deferredRemesh_def
  by (intro reach_update reach_addBlock[OF reachable_centreMeshed edited_eq])


text \<open>
  Claim C5 as stated fails. After a block is placed in the READY chunk (0,0) and the
  rebuild queue is processed, the chunk is in MESHING and still holds its mesh. When the
  player has moved six chunks east before the queue is processed, the neighbour (-1,0) has
  been unloaded, the request is deferred, and the chunk is in DATA_LOADED and still holds
  its mesh.
\<close>

theorem geometry_outside_READY:
  "reachable remeshing \<and> \<not> geometry_only_when_READY remeshing
   \<and> map_option (\<lambda>c. (state c, mesh c)) (getChunk remeshing 0 0) = Some (MESHING, Some [])
   \<and> reachable deferredRemesh \<and> \<not> geometry_only_when_READY deferredRemesh
   \<and> map_option (\<lambda>c. (state c, mesh c)) (getChunk deferredRemesh 0 0) = Some (DATA_LOADED, Some [])"
proof -
  have "((0, 0), \<lparr>cx = 0, cz = 0, blocks = Some (cell_set (uniformGrid 2) 5 5 5 0), mesh = Some [],
           state = MESHING\<rparr>) \<in> set (chunkStorage remeshing)"
    using remeshing_centre by (rule map_of_SomeD)
  then have a: "\<not> geometry_only_when_READY remeshing"
    unfolding geometry_only_when_READY_def list_all_iff by force
  have "((0, 0), \<lparr>cx = 0, cz = 0, blocks = Some (cell_set (uniformGrid 2) 5 5 5 0), mesh = Some [],
           state = DATA_LOADED\<rparr>) \<in> set (chunkStorage deferredRemesh)"
    using deferredRemesh_centre by (rule map_of_SomeD)
  then have b: "\<not> geometry_only_when_READY deferredRemesh"
    unfolding geometry_only_when_READY_def list_all_iff by force
  show ?thesis
    using a b reachable_remeshing reachable_deferredRemesh
    by (simp add: getChunk_def remeshing_centre deferredRemesh_centre)
qed

lemma history_member:
  "geometry_since_READY ws \<Longrightarrow> map_of (chunkStorage (last ws)) k = Some c \<Longrightarrow>
   mesh c \<noteq> None \<Longrightarrow> state c \<noteq> READY \<Longrightarrow>
   list_ex (\<lambda>v. held_when_READY v k (mesh c)) (butlast ws)"
  unfolding geometry_since_READY_def list_all_iff
  by (auto dest!: map_of_SomeD)

theorem run_geometry_witness:
  "last (run emptyWorld remeshEvents) = remeshing
   \<and> map_option (\<lambda>c. (state c, mesh c)) (getChunk remeshing 0 0) = Some (MESHING, Some [])
   \<and> list_ex (\<lambda>v. held_when_READY v (0, 0) (Some [])) (butlast (run emptyWorld remeshEvents))
   \<and> last (run emptyWorld deferEvents) = deferredRemesh
   \<and> map_option (\<lambda>c. (state c, mesh c)) (getChunk deferredRemesh 0 0) = Some (DATA_LOADED, Some [])
   \<and> list_ex (\<lambda>v. held_when_READY v (0, 0) (Some [])) (butlast (run emptyWorld deferEvents))"
proof -
  have a: "list_ex (\<lambda>v. held_when_READY v (0, 0) (Some [])) (butlast (run emptyWorld remeshEvents))"
    using history_member[OF run_geometry_since_READY[of remeshEvents], of "(0, 0)"]
      remeshing_centre
    by (simp add: remeshEvents_remeshing)
  have b: "list_ex (\<lambda>v. held_when_READY v (0, 0) (Some [])) (butlast (run emptyWorld deferEvents))"
    using history_member[OF run_geometry_since_READY[of deferEvents], of "(0, 0)"]
      deferredRemesh_centre
    by (simp add: deferEvents_deferredRemesh)
  show ?thesis
    using a b
    by (simp add: remeshEvents_remeshing deferEvents_deferredRemesh getChunk_def
        remeshing_centre deferredRemesh_centre)
qed


section \<open>Deferred meshing\<close>

lemma requestChunkMesh_defers:
  assumes "map_of (chunkStorage w) k = Some c"
    and "\<not> (has_data w (cx c + 1) (cz c) \<and> has_data w (cx c - 1) (cz c)
            \<and> has_data w (cx c) (cz c + 1) \<and> has_data w (cx c) (cz c - 1))"
  shows "posted (requestChunkMesh w k) = posted w
     \<and> (state c = DATA_LOADED \<longrightarrow>
          map_option state (map_of (chunkStorage (requestChunkMesh w k)) k) = Some DATA_LOADED)"
  using assms getNeighbourData_None_iff[of w "cx c" "cz c"]
  by (auto simp: requestChunkMesh_def setChunk_def AList.update_conv' split: option.splits)

lemma centreWaiting_states:
  "state_of centreWaiting 0 0 = Some DATA_LOADED"
  "has_data centreWaiting 1 0" "has_data centreWaiting 0 1" "has_data centreWaiting 0 (-1)"
  "\<not> has_data centreWaiting (-1) 0"
  "state_of centreWaiting (-1) 0 = Some LOADING_DATA"
  unfolding centreWaiting_def state_of_def has_data_def
  by (simp_all add: store_simps)

lemma lastNeighbourLoaded_states:
  "state_of lastNeighbourLoaded 0 0 = Some DATA_LOADED"
  "has_data lastNeighbourLoaded 1 0" "has_data lastNeighbourLoaded 0 1"
  "has_data lastNeighbourLoaded 0 (-1)" "has_data lastNeighbourLoaded (-1) 0"
  unfolding lastNeighbourLoaded_def centreWaiting_def state_of_def has_data_def
  by (simp_all add: store_simps)

lemma lastNeighbourLoaded_posted: "posted lastNeighbourLoaded = posted started"
  unfolding lastNeighbourLoaded_def centreWaiting_def
  by (simp add: store_simps)

lemma reachable_centreWaiting: "reachable centreWaiting"
  unfolding centreWaiting_def by (intro reachable_messages reachable_started)


text \<open>
  Claim C2, evaluated on the code. Chunk (0,0) is in DATA_LOADED, deferred because its
  neighbour (-1,0) has no block data. The \<open>generated\<close> message for (-1,0) then arrives.
  Afterwards all four lateral neighbours of (0,0) have block data, yet (0,0) is still in
  DATA_LOADED and no mesh task has been posted: the handler requests a mesh for the chunk
  that arrived only, and does not call \<open>updateNeighboursOf\<close>.
\<close>

theorem generated_leaves_deferred_neighbour_waiting:
  "reachable centreWaiting
   \<and> state_of centreWaiting 0 0 = Some DATA_LOADED
   \<and> \<not> has_data centreWaiting (-1) 0
   \<and> lastNeighbourLoaded = onmessage centreWaiting (Generated (-1) 0 (uniformGrid 2))
   \<and> has_data lastNeighbourLoaded 1 0 \<and> has_data lastNeighbourLoaded (-1) 0
   \<and> has_data lastNeighbourLoaded 0 1 \<and> has_data lastNeighbourLoaded 0 (-1)
   \<and> state_of lastNeighbourLoaded 0 0 = Some DATA_LOADED
   \<and> \<not> list_ex is_MeshReq (posted lastNeighbourLoaded)"
proof -
  have "\<not> list_ex is_MeshReq (posted lastNeighbourLoaded)"
    by (simp add: lastNeighbourLoaded_posted posted_started list_ex_iff is_MeshReq_def)
  then show ?thesis
    using reachable_centreWaiting centreWaiting_states(1,5) lastNeighbourLoaded_states
      lastNeighbourLoaded_def
    by blast
qed


section \<open>The mesher\<close>

lemma forEachE_total:
  "(\<And>s x. x \<in> set xs \<Longrightarrow> f s x = Inr (g s x)) \<Longrightarrow> forEachE f s xs = Inr (foldl g s xs)"
  by (induction xs arbitrary: s) auto

lemma cellOrder_set:
  "(x, y, z) \<in> set (cellOrder t) \<longleftrightarrow>
     0 \<le> x \<and> x < m_chunkSize t \<and> 0 \<le> y \<and> y < m_chunkHeight t \<and> 0 \<le> z \<and> z < m_chunkSize t"
proof
  assume "(x, y, z) \<in> set (cellOrder t)"
  then show "0 \<le> x \<and> x < m_chunkSize t \<and> 0 \<le> y \<and> y < m_chunkHeight t \<and> 0 \<le> z \<and> z < m_chunkSize t"
    by (auto simp: cellOrder_def)
next
  assume h: "0 \<le> x \<and> x < m_chunkSize t \<and> 0 \<le> y \<and> y < m_chunkHeight t \<and> 0 \<le> z \<and> z < m_chunkSize t"
  then have "y \<in> {0..m_chunkHeight t - 1}" "z \<in> {0..m_chunkSize t - 1}" "x \<in> {0..m_chunkSize t - 1}"
    by auto
  then show "(x, y, z) \<in> set (cellOrder t)"
    unfolding cellOrder_def by (simp add: image_iff)
qed

lemma grid_readable_cell:
  assumes "grid_readable t"
    and "0 \<le> x" "x < m_chunkSize t" "0 \<le> y" "y < m_chunkHeight t" "0 \<le> z" "z < m_chunkSize t"
  shows "\<exists>v. cell (m_blocks t) x y z = Inr v"
proof -
  have "(x, y, z) \<in> set (cellOrder t)" using assms(2-) by (simp add: cellOrder_set)
  with assms(1) show ?thesis
    unfolding grid_readable_def list_all_iff by (fastforce split: sum.splits)
qed

lemma mesherGetBlock_total:
  assumes "grid_readable t"
  shows "\<exists>b. mesherGetBlock t nd lx ly lz = Inr b"
proof (cases "0 \<le> ly \<and> ly < m_chunkHeight t \<and> 0 \<le> lx \<and> lx < m_chunkSize t \<and> 0 \<le> lz \<and> lz < m_chunkSize t")
  case True
  then obtain v where "cell (m_blocks t) lx ly lz = Inr v"
    using grid_readable_cell[OF assms, of lx ly lz] by auto
  then show ?thesis using True
    by (cases v) (simp_all add: mesherGetBlock_def)
next
  case False
  then show ?thesis
    by (auto simp: mesherGetBlock_def Let_def split: option.splits)
qed

lemma shouldRenderFace_rule: "shouldRenderFace bts ct nb = face_emitted bts ct nb"
  by (auto simp: shouldRenderFace_def face_emitted_def split: option.splits)

lemma meshDirection_total:
  assumes "grid_readable t"
  shows "meshDirection t nd bts ct x y z gs d = Inr (dirStep t nd bts ct (x, y, z) gs d)"
proof -
  obtain d0 d1 d2 where d: "dir d = (d0, d1, d2)" by (cases "dir d") auto
  obtain b where b: "mesherGetBlock t nd (x + d0) (y + d1) (z + d2) = Inr b"
    using mesherGetBlock_total[OF assms] by blast
  show ?thesis
    by (simp add: meshDirection_def dirStep_def neighbourID_def d b shouldRenderFace_rule)
qed

lemma meshCell_total:
  assumes "grid_readable t" and "c \<in> set (cellOrder t)"
  shows "meshCell dirs t nd bts gs c = Inr (cellStep dirs t nd bts gs c)"
proof -
  obtain x y z where c: "c = (x, y, z)" by (cases c) auto
  obtain v where v: "cell (m_blocks t) x y z = Inr v"
    using grid_readable_cell[OF assms(1), of x y z] assms(2) unfolding c cellOrder_set by auto
  have dirs: "\<And>ct s. forEachE (meshDirection t nd bts ct x y z) s dirs
      = Inr (foldl (dirStep t nd bts ct (x, y, z)) s dirs)"
    by (rule forEachE_total) (rule meshDirection_total[OF assms(1)])
  show ?thesis
    unfolding c
    by (simp add: meshCell_def cellStep_def solidType_def v dirs split: option.splits)
qed

lemma dirStep_bucket:
  "bucketOf b (foldl (dirStep t nd bts ct c) gs ds) =
     foldl pushFaceOf (bucketOf b gs)
       (map (\<lambda>d. (c, ct, d))
          (filter (\<lambda>d. bt_transparent ct = b \<and> face_emitted bts ct (neighbourID t nd c d)) ds))"
proof (induction ds arbitrary: gs)
  case Nil
  show ?case by simp
next
  case (Cons d ds)
  obtain x y z where c: "c = (x, y, z)" by (cases c) auto
  have step: "bucketOf b (dirStep t nd bts ct c gs d) =
      (if bt_transparent ct = b \<and> face_emitted bts ct (neighbourID t nd c d)
       then pushFaceOf (bucketOf b gs) (c, ct, d) else bucketOf b gs)"
    by (auto simp: dirStep_def bucketOf_def pushFaceOf_def c)
  show ?case
    by (simp add: Cons.IH step)
qed

lemma cellStep_bucket1:
  "bucketOf b (cellStep dirs t nd bts gs c) =
     foldl pushFaceOf (bucketOf b gs)
       (case solidType t bts c of
          None \<Rightarrow> []
        | Some ct \<Rightarrow>
            map (\<lambda>d. (c, ct, d))
              (filter (\<lambda>d. bt_transparent ct = b \<and> face_emitted bts ct (neighbourID t nd c d))
                 dirs))"
  by (simp add: cellStep_def dirStep_bucket split: option.splits)

lemma cellStep_bucket:
  "bucketOf b (foldl (cellStep dirs t nd bts) gs cs) =
     foldl pushFaceOf (bucketOf b gs)
       (concat (map (\<lambda>c. case solidType t bts c of
                         None \<Rightarrow> []
                       | Some ct \<Rightarrow>
                           map (\<lambda>d. (c, ct, d))
                             (filter (\<lambda>d. bt_transparent ct = b
                                           \<and> face_emitted bts ct (neighbourID t nd c d))
                                dirs)) cs))"
proof (induction cs arbitrary: gs)
  case Nil
  show ?case by simp
next
  case (Cons c cs)
  show ?case
    by (simp add: Cons.IH cellStep_bucket1)
qed

lemma assemble_foldl: "assemble fs = foldl pushFaceOf emptyGeometry fs"
  by (simp add: assemble_def pushFaceOf_def[abs_def])

lemma buildMeshGeometryDataOver_refines:
  assumes "grid_readable t"
  shows "buildMeshGeometryDataOver dirs t nd bts =
           Inr \<lparr>opaque = finalizeGeometry (assemble (emittedFaces dirs t nd bts False)),
                transparent = finalizeGeometry (assemble (emittedFaces dirs t nd bts True))\<rparr>"
proof -
  have run: "forEachE (meshCell dirs t nd bts) emptyGeometries (cellOrder t)
      = Inr (foldl (cellStep dirs t nd bts) emptyGeometries (cellOrder t))"
    by (rule forEachE_total) (rule meshCell_total[OF assms])
  have o: "geo_opaque (foldl (cellStep dirs t nd bts) emptyGeometries (cellOrder t))
      = assemble (emittedFaces dirs t nd bts False)"
    using cellStep_bucket[of False dirs t nd bts emptyGeometries "cellOrder t"]
    by (simp add: bucketOf_def assemble_foldl emittedFaces_def emptyGeometries_def)
  have tr: "geo_transparent (foldl (cellStep dirs t nd bts) emptyGeometries (cellOrder t))
      = assemble (emittedFaces dirs t nd bts True)"
    using cellStep_bucket[of True dirs t nd bts emptyGeometries "cellOrder t"]
    by (simp add: bucketOf_def assemble_foldl emittedFaces_def emptyGeometries_def)
  show ?thesis
    by (simp add: buildMeshGeometryDataOver_def run o tr)
qed

lemma emittedFaces_iff:
  "(c, ct, d) \<in> set (emittedFaces dirs t nd bts b) \<longleftrightarrow>
     c \<in> set (cellOrder t) \<and> solidType t bts c = Some ct \<and> d \<in> set dirs
     \<and> bt_transparent ct = b \<and> face_emitted bts ct (neighbourID t nd c d)"
proof
  assume "(c, ct, d) \<in> set (emittedFaces dirs t nd bts b)"
  then show "c \<in> set (cellOrder t) \<and> solidType t bts c = Some ct \<and> d \<in> set dirs
     \<and> bt_transparent ct = b \<and> face_emitted bts ct (neighbourID t nd c d)"
    by (auto simp: emittedFaces_def split: option.splits)
next
  assume h: "c \<in> set (cellOrder t) \<and> solidType t bts c = Some ct \<and> d \<in> set dirs
     \<and> bt_transparent ct = b \<and> face_emitted bts ct (neighbourID t nd c d)"
  then have "(c, ct, d) \<in> set (case solidType t bts c of
                         None \<Rightarrow> []
                       | Some ct \<Rightarrow>
                           map (\<lambda>d. (c, ct, d))
                             (filter (\<lambda>d. bt_transparent ct = b
                                           \<and> face_emitted bts ct (neighbourID t nd c d))
                                dirs))"
    by simp
  with h show "(c, ct, d) \<in> set (emittedFaces dirs t nd bts b)"
    unfolding emittedFaces_def set_concat set_map by blast
qed


lemma pushCorners_positions:
  "positions (foldl (pushCorner ct x y z d) geo cs) =
     positions geo @ concat (map (\<lambda>corner. case corner of (c0, c1, c2) \<Rightarrow> [x + c0, y + c1, z + c2]) cs)"
  by (induction cs arbitrary: geo) (auto simp: pushCorner_def split: prod.splits)

lemma pushFaceOf_positions: "positions (pushFaceOf geo f) = positions geo @ facePositions f"
  by (auto simp: pushFaceOf_def pushFace_def Let_def facePositions_def pushCorners_positions
      split: prod.splits)

lemma assemble_positions: "positions (assemble fs) = concat (map facePositions fs)"
proof -
  have "positions (foldl pushFaceOf geo fs) = positions geo @ concat (map facePositions fs)" for geo
    by (induction fs arbitrary: geo) (simp_all add: pushFaceOf_positions)
  then show ?thesis by (simp add: assemble_foldl emptyGeometry_def)
qed

lemma mesherGetBlock_vertical:
  "ly < 0 \<or> m_chunkHeight t \<le> ly \<Longrightarrow> mesherGetBlock t nd lx ly lz = Inr BLOCK_AIR"
  by (auto simp: mesherGetBlock_def)

lemma mesherGetBlock_missing:
  "\<not> (0 \<le> lx \<and> lx < m_chunkSize t \<and> 0 \<le> lz \<and> lz < m_chunkSize t) \<Longrightarrow>
   neighbourMissing t nd lx lz \<Longrightarrow> mesherGetBlock t nd lx ly lz = Inr BLOCK_AIR"
  by (auto simp: mesherGetBlock_def neighbourMissing_def Let_def split: option.splits)


text \<open>
  The loop of the mesher follows the emission rule, over whichever direction table it is
  run. When no read of the chunk's own grid throws, it returns, for each bucket, exactly
  the faces that the rule selects, in loop order. For every cell that is not skipped and
  every direction of the table: if the resolved neighbour is air or of unknown type, the
  face is emitted, into the bucket of the cell's own transparency flag; an opaque block
  beside a transparent neighbour emits its face into the opaque bucket; a transparent
  block beside a transparent neighbour of any ID emits no face in either bucket. A
  neighbour outside the vertical bounds resolves to air, and so does a cell of a lateral
  neighbour that has no entry or no block data.
\<close>

lemma loop_emits_faces_by_rule:
  assumes "grid_readable t"
  shows "buildMeshGeometryDataOver dirs t nd bts =
           Inr \<lparr>opaque = finalizeGeometry (assemble (emittedFaces dirs t nd bts False)),
                transparent = finalizeGeometry (assemble (emittedFaces dirs t nd bts True))\<rparr>
     \<and> (\<forall>c ct d. c \<in> set (cellOrder t) \<and> solidType t bts c = Some ct \<and> d \<in> set dirs \<longrightarrow>
          (neighbourID t nd c d = BLOCK_AIR \<or> map_of bts (neighbourID t nd c d) = None \<longrightarrow>
             (c, ct, d) \<in> set (emittedFaces dirs t nd bts (bt_transparent ct)))
          \<and> (\<forall>nt. map_of bts (neighbourID t nd c d) = Some nt \<and> bt_transparent nt
                   \<and> \<not> bt_transparent ct \<longrightarrow>
                (c, ct, d) \<in> set (emittedFaces dirs t nd bts False))
          \<and> (\<forall>nt. neighbourID t nd c d \<noteq> BLOCK_AIR
                   \<and> map_of bts (neighbourID t nd c d) = Some nt \<and> bt_transparent nt
                   \<and> bt_transparent ct \<longrightarrow>
                (c, ct, d) \<notin> set (emittedFaces dirs t nd bts True)
                \<and> (c, ct, d) \<notin> set (emittedFaces dirs t nd bts False)))
     \<and> (\<forall>lx ly lz. ly < 0 \<or> m_chunkHeight t \<le> ly \<longrightarrow>
          mesherGetBlock t nd lx ly lz = Inr BLOCK_AIR)
     \<and> (\<forall>lx ly lz. \<not> (0 \<le> lx \<and> lx < m_chunkSize t \<and> 0 \<le> lz \<and> lz < m_chunkSize t)
                    \<and> neighbourMissing t nd lx lz \<longrightarrow>
          mesherGetBlock t nd lx ly lz = Inr BLOCK_AIR)"
proof (intro conjI)
  show "buildMeshGeometryDataOver dirs t nd bts =
           Inr \<lparr>opaque = finalizeGeometry (assemble (emittedFaces dirs t nd bts False)),
                transparent = finalizeGeometry (assemble (emittedFaces dirs t nd bts True))\<rparr>"
    by (rule buildMeshGeometryDataOver_refines[OF assms])
next
  show "\<forall>c ct d. c \<in> set (cellOrder t) \<and> solidType t bts c = Some ct \<and> d \<in> set dirs \<longrightarrow>
          (neighbourID t nd c d = BLOCK_AIR \<or> map_of bts (neighbourID t nd c d) = None \<longrightarrow>
             (c, ct, d) \<in> set (emittedFaces dirs t nd bts (bt_transparent ct)))
          \<and> (\<forall>nt. map_of bts (neighbourID t nd c d) = Some nt \<and> bt_transparent nt
                   \<and> \<not> bt_transparent ct \<longrightarrow>
                (c, ct, d) \<in> set (emittedFaces dirs t nd bts False))
          \<and> (\<forall>nt. neighbourID t nd c d \<noteq> BLOCK_AIR
                   \<and> map_of bts (neighbourID t nd c d) = Some nt \<and> bt_transparent nt
                   \<and> bt_transparent ct \<longrightarrow>
                (c, ct, d) \<notin> set (emittedFaces dirs t nd bts True)
                \<and> (c, ct, d) \<notin> set (emittedFaces dirs t nd bts False))"
    unfolding emittedFaces_iff by (auto simp: face_emitted_def)
next
  show "\<forall>lx ly lz. ly < 0 \<or> m_chunkHeight t \<le> ly \<longrightarrow>
          mesherGetBlock t nd lx ly lz = Inr BLOCK_AIR"
    using mesherGetBlock_vertical by blast
next
  show "\<forall>lx ly lz. \<not> (0 \<le> lx \<and> lx < m_chunkSize t \<and> 0 \<le> lz \<and> lz < m_chunkSize t)
                    \<and> neighbourMissing t nd lx lz \<longrightarrow>
          mesherGetBlock t nd lx ly lz = Inr BLOCK_AIR"
    using mesherGetBlock_missing by blast
qed

lemma readable_waterBesideStone: "grid_readable waterBesideStone"
  by code_simp

lemma readable_waterBesideWater: "grid_readable waterBesideWater"
  by code_simp

lemma mesher_DIRECTIONS_members: "mesher_DIRECTIONS ! 0 \<in> set mesher_DIRECTIONS" "mesher_DIRECTIONS ! 1 \<in> set mesher_DIRECTIONS"
  by (simp_all add: mesher_DIRECTIONS_def)

lemma waterBesideStone_facts:
  "(0, 0, 0) \<in> set (cellOrder waterBesideStone)"
  "(1, 0, 0) \<in> set (cellOrder waterBesideStone)"
  "solidType waterBesideStone BLOCK_TYPES (0, 0, 0) = Some water"
  "solidType waterBesideStone BLOCK_TYPES (1, 0, 0) = Some stone"
  "neighbourID waterBesideStone (Some []) (0, 0, 0) (mesher_DIRECTIONS ! 1) = BLOCK_AIR"
  "neighbourID waterBesideStone (Some []) (1, 0, 0) (mesher_DIRECTIONS ! 1) = 3"
  "neighbourID waterBesideStone (Some []) (0, 0, 0) (mesher_DIRECTIONS ! 0) = 2"
  "map_of BLOCK_TYPES 3 = Some water" "map_of BLOCK_TYPES 2 = Some stone"
  "bt_transparent water" "\<not> bt_transparent stone"
  by code_simp+

lemma waterBesideWater_facts:
  "(0, 0, 0) \<in> set (cellOrder waterBesideWater)"
  "solidType waterBesideWater BLOCK_TYPES (0, 0, 0) = Some water"
  "neighbourID waterBesideWater (Some []) (0, 0, 0) (mesher_DIRECTIONS ! 0) = 3"
  "(3::int) \<noteq> BLOCK_AIR"
  by code_simp+

lemma loop_emits_faces_example:
  "((0, 0, 0), water, mesher_DIRECTIONS ! 1) \<in> set (emittedFaces mesher_DIRECTIONS waterBesideStone (Some []) BLOCK_TYPES True)
   \<and> ((1, 0, 0), stone, mesher_DIRECTIONS ! 1) \<in> set (emittedFaces mesher_DIRECTIONS waterBesideStone (Some []) BLOCK_TYPES False)
   \<and> ((0, 0, 0), water, mesher_DIRECTIONS ! 0) \<notin> set (emittedFaces mesher_DIRECTIONS waterBesideWater (Some []) BLOCK_TYPES True)
   \<and> ((0, 0, 0), water, mesher_DIRECTIONS ! 0) \<notin> set (emittedFaces mesher_DIRECTIONS waterBesideWater (Some []) BLOCK_TYPES False)
   \<and> mesherGetBlock waterBesideStone (Some []) 0 1 0 = Inr BLOCK_AIR
   \<and> mesherGetBlock waterBesideStone (Some []) (-1) 0 0 = Inr BLOCK_AIR"
proof -
  note a = loop_emits_faces_by_rule[OF readable_waterBesideStone, of mesher_DIRECTIONS "Some []" BLOCK_TYPES]
  note b = loop_emits_faces_by_rule[OF readable_waterBesideWater, of mesher_DIRECTIONS "Some []" BLOCK_TYPES]
  have up: "(1::int) < 0 \<or> m_chunkHeight waterBesideStone \<le> 1"
    by (simp add: waterBesideStone_def)
  have out: "\<not> (0 \<le> (-1::int) \<and> -1 < m_chunkSize waterBesideStone \<and> 0 \<le> (0::int) \<and> 0 < m_chunkSize waterBesideStone)
      \<and> neighbourMissing waterBesideStone (Some []) (-1) 0"
    by (simp add: neighbourMissing_def)
  have 1: "((0, 0, 0), water, mesher_DIRECTIONS ! 1) \<in> set (emittedFaces mesher_DIRECTIONS waterBesideStone (Some []) BLOCK_TYPES True)"
    using a waterBesideStone_facts(1,3,5,10) mesher_DIRECTIONS_members(2) by metis
  have 2: "((1, 0, 0), stone, mesher_DIRECTIONS ! 1) \<in> set (emittedFaces mesher_DIRECTIONS waterBesideStone (Some []) BLOCK_TYPES False)"
    using a waterBesideStone_facts(2,4,6,8,10,11) mesher_DIRECTIONS_members(2) by metis
  have 3: "((0, 0, 0), water, mesher_DIRECTIONS ! 0) \<notin> set (emittedFaces mesher_DIRECTIONS waterBesideWater (Some []) BLOCK_TYPES True)
    \<and> ((0, 0, 0), water, mesher_DIRECTIONS ! 0) \<notin> set (emittedFaces mesher_DIRECTIONS waterBesideWater (Some []) BLOCK_TYPES False)"
    using b waterBesideWater_facts waterBesideStone_facts(8,10) mesher_DIRECTIONS_members(1) by metis
  have 4: "mesherGetBlock waterBesideStone (Some []) 0 1 0 = Inr BLOCK_AIR"
    using a up by blast
  have 5: "mesherGetBlock waterBesideStone (Some []) (-1) 0 0 = Inr BLOCK_AIR"
    using a out by blast
  show ?thesis using 1 2 3 4 5 by blast
qed



lemma emittedFaces_no_table: "emittedFaces [] t nd bts b = []"
  by (simp add: emittedFaces_def split: option.splits)

lemma buildMeshGeometryData_no_face:
  "grid_readable t \<Longrightarrow>
   buildMeshGeometryData t nd bts = Inr \<lparr>opaque = None, transparent = None\<rparr>"
  by (simp add: buildMeshGeometryData_def DIRECTIONS_def buildMeshGeometryDataOver_refines
      emittedFaces_no_table assemble_def emptyGeometry_def finalizeGeometry_def)

lemma stoneTask_cell:
  "0 \<le> x \<Longrightarrow> x < 16 \<Longrightarrow> 0 \<le> y \<Longrightarrow> y < 64 \<Longrightarrow> 0 \<le> z \<Longrightarrow> z < 16 \<Longrightarrow>
   cell (m_blocks stoneTask) x y z = Inr (Some 2)"
  by (simp add: stoneTask_def cell_uniformGrid CHUNK_SIZE_def CHUNK_HEIGHT_def)

lemma readable_stoneTask: "grid_readable stoneTask"
proof -
  have "\<And>c. c \<in> set (cellOrder stoneTask) \<Longrightarrow>
      (case c of (x, y, z) \<Rightarrow> (case cell (m_blocks stoneTask) x y z of Inl e \<Rightarrow> False | Inr v \<Rightarrow> True))"
  proof -
    fix c assume c: "c \<in> set (cellOrder stoneTask)"
    obtain x y z where e: "c = (x, y, z)" by (cases c) auto
    from c have "0 \<le> x \<and> x < 16 \<and> 0 \<le> y \<and> y < 64 \<and> 0 \<le> z \<and> z < 16"
      unfolding e cellOrder_set by (simp add: stoneTask_def CHUNK_SIZE_def CHUNK_HEIGHT_def)
    then show "case c of (x, y, z) \<Rightarrow> (case cell (m_blocks stoneTask) x y z of Inl e \<Rightarrow> False | Inr v \<Rightarrow> True)"
      unfolding e by (simp add: stoneTask_cell)
  qed
  then show ?thesis unfolding grid_readable_def list_all_iff by blast
qed

lemma stoneTask_top:
  "(0, 63, 0) \<in> set (cellOrder stoneTask)"
  "solidType stoneTask BLOCK_TYPES (0, 63, 0) = Some stone"
  "mesher_DIRECTIONS ! 2 \<in> set mesher_DIRECTIONS"
  "dir (mesher_DIRECTIONS ! 2) = (0, 1, 0)"
  "neighbourID stoneTask (m_neighbourData stoneTask) (0, 63, 0) (mesher_DIRECTIONS ! 2) = BLOCK_AIR"
      apply (simp add: cellOrder_set stoneTask_def CHUNK_SIZE_def CHUNK_HEIGHT_def)
     apply (simp add: solidType_def stoneTask_cell BLOCK_TYPES_def BLOCK_AIR_def stone_def)
    apply (simp add: mesher_DIRECTIONS_def)
   apply (simp add: mesher_DIRECTIONS_def)
  apply (simp add: neighbourID_def mesher_DIRECTIONS_def mesherGetBlock_def stoneTask_def CHUNK_HEIGHT_def)
  done

lemma stoneTask_posted: "last (posted centreMeshed) = MeshReq stoneTask"
  unfolding centreMeshed_def stoneTask_def
  by (simp add: store_simps posted_started CHUNK_SIZE_def CHUNK_HEIGHT_def)

lemma topFace: "assemble [((0, 63, 0), stone, mesher_DIRECTIONS ! 2)] =
       \<lparr>positions = [1, 64, 1, 0, 64, 1, 0, 64, 0, 1, 64, 0],
        normals = [0, 1, 0, 0, 1, 0, 0, 1, 0, 0, 1, 0],
        uvs = [1, 1, 0, 1, 0, 0, 1, 0],
        indices = [0, 1, 2, 2, 1, 3]\<rparr>"
  by code_simp


text \<open>
  Claim C4, evaluated on the code. The mesh task is the one that \<open>requestChunkMesh\<close> posts
  for a chunk of stone among four neighbours of stone. The block at (0,63,0) is stone and
  the cell above it is outside the vertical bounds, so it resolves to air: by the emission
  rule the top face is emitted into the opaque bucket, and with the table of worldMesher.js
  the loop adds its four vertices, normals and texture coordinates and its two triangles.
  The table \<open>DIRECTIONS\<close> of worldWorker.js is empty, so \<open>buildMeshGeometryData\<close> never
  enters its loop over the directions: it returns no geometry in either bucket, and the
  worker answers with a \<open>meshed\<close> message that carries none. That holds whichever
  block-type table the worker has; as world.js posts \<open>initBlocks\<close> without a \<open>data\<close> field,
  the handler throws on it and the table of the worker stays empty.
\<close>

theorem worker_mesher_emits_no_face:
  "last (posted centreMeshed) = MeshReq stoneTask
   \<and> DIRECTIONS = []
   \<and> solidType stoneTask BLOCK_TYPES (0, 63, 0) = Some stone
   \<and> dir (mesher_DIRECTIONS ! 2) = (0, 1, 0)
   \<and> neighbourID stoneTask (m_neighbourData stoneTask) (0, 63, 0) (mesher_DIRECTIONS ! 2) = BLOCK_AIR
   \<and> ((0, 63, 0), stone, mesher_DIRECTIONS ! 2)
       \<in> set (emittedFaces mesher_DIRECTIONS stoneTask (m_neighbourData stoneTask) BLOCK_TYPES False)
   \<and> assemble [((0, 63, 0), stone, mesher_DIRECTIONS ! 2)] =
       \<lparr>positions = [1, 64, 1, 0, 64, 1, 0, 64, 0, 1, 64, 0],
        normals = [0, 1, 0, 0, 1, 0, 0, 1, 0, 0, 1, 0],
        uvs = [1, 1, 0, 1, 0, 0, 1, 0],
        indices = [0, 1, 2, 2, 1, 3]\<rparr>
   \<and> buildMeshGeometryData stoneTask (m_neighbourData stoneTask) BLOCK_TYPES =
       Inr \<lparr>opaque = None, transparent = None\<rparr>
   \<and> worker_onmessage (\<lambda>x z. Inr (uniformGrid 2)) \<lparr>w_BLOCK_TYPES = BLOCK_TYPES\<rparr> (MeshReq stoneTask) =
       (\<lparr>w_BLOCK_TYPES = BLOCK_TYPES\<rparr>, [Meshed 0 0 \<lparr>opaque = None, transparent = None\<rparr>])
   \<and> worker_onmessage (\<lambda>x z. Inr (uniformGrid 2)) initialWorker (InitBlocks BLOCK_TYPES) =
       (initialWorker, [Error TypeError])
   \<and> worker_onmessage (\<lambda>x z. Inr (uniformGrid 2)) initialWorker (MeshReq stoneTask) =
       (initialWorker, [Meshed 0 0 \<lparr>opaque = None, transparent = None\<rparr>])"
proof -
  have f: "((0, 63, 0), stone, mesher_DIRECTIONS ! 2)
       \<in> set (emittedFaces mesher_DIRECTIONS stoneTask (m_neighbourData stoneTask) BLOCK_TYPES False)"
    unfolding emittedFaces_iff using stoneTask_top
    by (simp add: face_emitted_def stone_def)
  have b: "buildMeshGeometryData stoneTask (m_neighbourData stoneTask) bts =
       Inr \<lparr>opaque = None, transparent = None\<rparr>" for bts
    by (rule buildMeshGeometryData_no_face[OF readable_stoneTask])
  have w: "worker_onmessage (\<lambda>x z. Inr (uniformGrid 2)) ws (MeshReq stoneTask) =
       (ws, [Meshed 0 0 \<lparr>opaque = None, transparent = None\<rparr>])" for ws
    by (simp add: b) (simp add: stoneTask_def)
  have i: "worker_onmessage (\<lambda>x z. Inr (uniformGrid 2)) initialWorker (InitBlocks BLOCK_TYPES) =
       (initialWorker, [Error TypeError])"
    by simp
  show ?thesis
    using f b w i stoneTask_top(2,4,5) topFace DIRECTIONS_def stoneTask_posted by blast
qed


text \<open>
  Claim C1, evaluated on the code. A water block (transparent) at (0,0,0) has a stone
  block (opaque) at (1,0,0) as its +X neighbour. Both face-culling decisions, the worker's
  and the one of \<open>buildChunkMesh\<close>, are false for that face. Run over the table of
  worldMesher.js, the loop of the worker returns a transparent bucket that holds the five
  other faces of the water block only: the face of a transparent block against an opaque
  neighbour is suppressed. \<open>buildMeshGeometryData\<close> itself, over the empty table of
  worldWorker.js, returns no face at all.
\<close>

theorem water_face_against_stone_suppressed:
  "solidType waterBesideStone BLOCK_TYPES (0, 0, 0) = Some water \<and> bt_transparent water
   \<and> neighbourID waterBesideStone (Some []) (0, 0, 0) (mesher_DIRECTIONS ! 0) = 2
   \<and> map_of BLOCK_TYPES 2 = Some stone \<and> \<not> bt_transparent stone
   \<and> \<not> shouldRenderFace BLOCK_TYPES water 2
   \<and> \<not> buildChunkMesh_shouldRenderFace BLOCK_TYPES 3 water 2
   \<and> buildMeshGeometryDataOver mesher_DIRECTIONS waterBesideStone (Some []) BLOCK_TYPES =
       Inr \<lparr>opaque = Some (assemble (map (\<lambda>d. ((1, 0, 0), stone, d)) mesher_DIRECTIONS)),
            transparent = Some (assemble (map (\<lambda>d. ((0, 0, 0), water, d)) (tl mesher_DIRECTIONS)))\<rparr>
   \<and> buildMeshGeometryData waterBesideStone (Some []) BLOCK_TYPES =
       Inr \<lparr>opaque = None, transparent = None\<rparr>"
  by code_simp


section \<open>Failure of a worker task\<close>



lemma edited_posted: "posted edited = posted centreMeshed"
proof -
  let ?c = "\<lparr>cx = 0, cz = 0, blocks = Some (uniformGrid 2), mesh = Some [], state = READY\<rparr>"
  have h1: "0 \<le> \<lfloor>5::real\<rfloor>" and h2: "\<lfloor>5::real\<rfloor> < CHUNK_HEIGHT"
    by (simp_all add: CHUNK_HEIGHT_def)
  have h3: "getChunk centreMeshed (5 div CHUNK_SIZE) (5 div CHUNK_SIZE) = Some ?c"
    by (simp add: getChunk_def CHUNK_SIZE_def centreMeshed_centre)
  have h4: "blocks ?c = Some (uniformGrid 2)" by simp
  have h5: "CHUNK_STATE DATA_LOADED \<le> CHUNK_STATE (state ?c)" by simp
  have h6: "cell (uniformGrid 2) (5 mod CHUNK_SIZE) \<lfloor>5::real\<rfloor> (5 mod CHUNK_SIZE) = Inr (Some 2)"
    by (simp add: cell_uniformGrid CHUNK_SIZE_def CHUNK_HEIGHT_def)
  have h7: "Some (2::int) \<noteq> Some 0" by simp
  show ?thesis
    unfolding edited_def addBlock_write[OF h1 h2 h3 h4 h5 h6 h7] by simp
qed






section \<open>Biome weights\<close>

lemma update_fresh: "k \<notin> fst ` set al \<Longrightarrow> AList.update k v al = al @ [(k, v)]"
  by (induction al) auto

lemma weightLoop_distinct:
  assumes "distinct (map fst ws @ map b_name bs)"
  shows "weightLoop bs v ws t =
           (ws @ map (\<lambda>b. (b_name b, triangularWeight b v)) bs,
            t + sum_list (map (\<lambda>b. triangularWeight b v) bs))"
  using assms
proof (induction bs arbitrary: ws t)
  case Nil
  show ?case by simp
next
  case (Cons b bs)
  have fresh: "b_name b \<notin> fst ` set ws" using Cons.prems by auto
  have d: "distinct (map fst (ws @ [(b_name b, triangularWeight b v)]) @ map b_name bs)"
    using Cons.prems by auto
  show ?case
    using Cons.IH[OF d]
    by (simp add: Let_def update_fresh[OF fresh] triangularWeight_def add.assoc)
qed

lemma triangularWeight_nonneg: "0 \<le> triangularWeight b v"
  by (simp add: triangularWeight_def)

lemma sum_triangular_nonneg: "0 \<le> sum_list (map (\<lambda>b. triangularWeight b v) bs)"
  by (induction bs) (simp_all add: triangularWeight_nonneg)

lemma sum_list_divide: "sum_list (map (\<lambda>b. f b / (t::real)) bs) = sum_list (map f bs) / t"
  by (induction bs) (simp_all add: add_divide_distrib)

lemma closestLoop_nearest:
  assumes "cur \<in> S" and "set bs \<subseteq> S"
    and "case m of None \<Rightarrow> True | Some d \<Rightarrow> d = \<bar>v - noiseCenter cur\<bar>"
    and "m = None \<longrightarrow> bs \<noteq> []"
  shows "closestLoop bs v cur m \<in> S
     \<and> (\<forall>b \<in> set bs. \<bar>v - noiseCenter (closestLoop bs v cur m)\<bar> \<le> \<bar>v - noiseCenter b\<bar>)
     \<and> (m \<noteq> None \<longrightarrow> \<bar>v - noiseCenter (closestLoop bs v cur m)\<bar> \<le> \<bar>v - noiseCenter cur\<bar>)"
  using assms
proof (induction bs arbitrary: cur m)
  case Nil
  then show ?case by simp
next
  case (Cons b bs)
  show ?case
  proof (cases "case m of None \<Rightarrow> True | Some d \<Rightarrow> \<bar>v - noiseCenter b\<bar> < d")
    case True
    have ih: "closestLoop bs v b (Some \<bar>v - noiseCenter b\<bar>) \<in> S
     \<and> (\<forall>x \<in> set bs. \<bar>v - noiseCenter (closestLoop bs v b (Some \<bar>v - noiseCenter b\<bar>))\<bar> \<le> \<bar>v - noiseCenter x\<bar>)
     \<and> \<bar>v - noiseCenter (closestLoop bs v b (Some \<bar>v - noiseCenter b\<bar>))\<bar> \<le> \<bar>v - noiseCenter b\<bar>"
      using Cons.IH[of b "Some \<bar>v - noiseCenter b\<bar>"] Cons.prems(2) by auto
    have step: "closestLoop (b # bs) v cur m = closestLoop bs v b (Some \<bar>v - noiseCenter b\<bar>)"
      using True by (simp add: Let_def)
    show ?thesis
      unfolding step using ih True Cons.prems(3)
      by (cases m) auto
  next
    case False
    then obtain d where m: "m = Some d" and ge: "d \<le> \<bar>v - noiseCenter b\<bar>"
      by (cases m) auto
    have d: "d = \<bar>v - noiseCenter cur\<bar>" using Cons.prems(3) m by simp
    have ih: "closestLoop bs v cur m \<in> S
     \<and> (\<forall>x \<in> set bs. \<bar>v - noiseCenter (closestLoop bs v cur m)\<bar> \<le> \<bar>v - noiseCenter x\<bar>)
     \<and> \<bar>v - noiseCenter (closestLoop bs v cur m)\<bar> \<le> \<bar>v - noiseCenter cur\<bar>"
      using Cons.IH[of cur m] Cons.prems(1,2,3) m by auto
    have step: "closestLoop (b # bs) v cur m = closestLoop bs v cur m"
      using False by (simp add: Let_def)
    show ?thesis
      unfolding step using ih ge d m by auto
  qed
qed

lemma indicator_sum:
  assumes "distinct (map b_name bs)" and "c \<in> set bs"
  shows "sum_list (map (\<lambda>b. if b_name b = b_name c then 1 else (0::real)) bs) = 1"
  using assms
proof (induction bs)
  case Nil
  then show ?case by simp
next
  case (Cons b bs)
  show ?case
  proof (cases "b_name b = b_name c")
    case True
    have nb: "b_name b \<notin> set (map b_name bs)" using Cons.prems(1) by simp
    have "\<forall>x \<in> set bs. b_name x \<noteq> b_name c"
    proof
      fix x
      assume "x \<in> set bs"
      then have "b_name x \<in> set (map b_name bs)" by simp
      with nb True show "b_name x \<noteq> b_name c" by metis
    qed
    then have "sum_list (map (\<lambda>b. if b_name b = b_name c then 1 else (0::real)) bs) = 0"
      by (induction bs) auto
    then show ?thesis using True by simp
  next
    case False
    then have "c \<in> set bs" using Cons.prems(2) by auto
    then show ?thesis using Cons.IH Cons.prems(1) False by simp
  qed
qed

lemma fallback_weights:
  assumes "distinct (map b_name bs)" and "c \<in> set bs"
  shows "map (\<lambda>e. if fst e \<noteq> b_name c then (fst e, 0) else e)
           (AList.update (b_name c) 1 (map (\<lambda>b. (b_name b, w b)) bs))
       = map (\<lambda>b. (b_name b, if b_name b = b_name c then 1 else (0::real))) bs"
  using assms
proof (induction bs)
  case Nil
  then show ?case by simp
next
  case (Cons b bs)
  show ?case
  proof (cases "b_name b = b_name c")
    case True
    have nb: "b_name b \<notin> set (map b_name bs)" using Cons.prems(1) by simp
    have "\<forall>x \<in> set bs. b_name x \<noteq> b_name c"
    proof
      fix x
      assume "x \<in> set bs"
      then have "b_name x \<in> set (map b_name bs)" by simp
      with nb True show "b_name x \<noteq> b_name c" by metis
    qed
    then have "map (\<lambda>e. if fst e \<noteq> b_name c then (fst e, 0) else e) (map (\<lambda>b. (b_name b, w b)) bs)
        = map (\<lambda>b. (b_name b, if b_name b = b_name c then 1 else (0::real))) bs"
      by (induction bs) auto
    then show ?thesis using True by simp
  next
    case False
    then have "c \<in> set bs" using Cons.prems(2) by auto
    then show ?thesis using Cons.IH Cons.prems(1) False by simp
  qed
qed

lemma map_of_names:
  "distinct (map b_name bs) \<Longrightarrow> b \<in> set bs \<Longrightarrow>
     map_of (map (\<lambda>b. (b_name b, f b)) bs) (b_name b) = Some (f b)"
  by (induction bs) (auto simp: image_iff)

lemma calculateBiomeWeightsOver_normalised:
  assumes "bs \<noteq> []" and "distinct (map b_name bs)"
  shows "\<exists>ws. calculateBiomeWeightsOver bs v = Inr ws
     \<and> map fst ws = map b_name bs
     \<and> (\<forall>e \<in> set ws. 0 \<le> snd e)
     \<and> sum_list (map snd ws) = 1
     \<and> ((\<forall>b \<in> set bs. triangularWeight b v = 0) \<longrightarrow>
          (\<exists>c \<in> set bs. (\<forall>b \<in> set bs. \<bar>v - noiseCenter c\<bar> \<le> \<bar>v - noiseCenter b\<bar>)
              \<and> map_of ws (b_name c) = Some 1
              \<and> (\<forall>b \<in> set bs. b_name b \<noteq> b_name c \<longrightarrow> map_of ws (b_name b) = Some 0)))"
proof -
  define total where "total = sum_list (map (\<lambda>b. triangularWeight b v) bs)"
  have loop: "weightLoop bs v [] 0 = (map (\<lambda>b. (b_name b, triangularWeight b v)) bs, total)"
    using weightLoop_distinct[of "[]" bs v 0] assms(2) by (simp add: total_def)
  show ?thesis
  proof (cases "total > 0")
    case True
    let ?ws = "map (\<lambda>b. (b_name b, triangularWeight b v / total)) bs"
    have r: "calculateBiomeWeightsOver bs v = Inr ?ws"
      using True by (simp add: calculateBiomeWeightsOver_def loop comp_def)
    have names: "map fst ?ws = map b_name bs" by (simp add: comp_def)
    have nonneg: "\<forall>e \<in> set ?ws. 0 \<le> snd e"
      using True by (auto simp: triangularWeight_nonneg)
    have one: "sum_list (map snd ?ws) = 1"
      using True by (simp add: comp_def sum_list_divide total_def[symmetric])
    have pos: "\<not> (\<forall>b \<in> set bs. triangularWeight b v = 0)"
    proof
      assume "\<forall>b \<in> set bs. triangularWeight b v = 0"
      then have "sum_list (map (\<lambda>b. triangularWeight b v) bs) = 0"
        by (induction bs) auto
      then show False using True by (simp add: total_def)
    qed
    show ?thesis using r names nonneg one pos by blast
  next
    case False
    obtain b0 rest where bs: "bs = b0 # rest" using assms(1) by (cases bs) auto
    define c where "c = closestLoop bs v b0 None"
    have near: "c \<in> set bs \<and> (\<forall>b \<in> set bs. \<bar>v - noiseCenter c\<bar> \<le> \<bar>v - noiseCenter b\<bar>)"
      using closestLoop_nearest[where cur = b0 and S = "set bs" and bs = bs and m = None and v = v] assms(1) bs
      by (simp add: c_def)
    let ?ws = "map (\<lambda>b. (b_name b, if b_name b = b_name c then 1 else (0::real))) bs"
    have "calculateBiomeWeightsOver bs v =
        Inr (map (\<lambda>e. if fst e \<noteq> b_name c then (fst e, 0) else e)
               (AList.update (b_name c) 1 (map (\<lambda>b. (b_name b, triangularWeight b v)) bs)))"
      unfolding calculateBiomeWeightsOver_def loop c_def using False
      by (simp add: bs Let_def)
    then have r: "calculateBiomeWeightsOver bs v = Inr ?ws"
      using fallback_weights[OF assms(2), of c "\<lambda>b. triangularWeight b v"] near by simp
    have names: "map fst ?ws = map b_name bs" by (simp add: comp_def)
    have nonneg: "\<forall>e \<in> set ?ws. 0 \<le> snd e" by auto
    have one: "sum_list (map snd ?ws) = 1"
      using indicator_sum[OF assms(2)] near by (simp add: comp_def)
    have w1: "map_of ?ws (b_name c) = Some 1"
      using map_of_names[OF assms(2), of c "\<lambda>b. if b_name b = b_name c then 1 else (0::real)"] near
      by simp
    have w0: "\<forall>b \<in> set bs. b_name b \<noteq> b_name c \<longrightarrow> map_of ?ws (b_name b) = Some 0"
      using map_of_names[OF assms(2), of _ "\<lambda>b. if b_name b = b_name c then 1 else (0::real)"]
      by simp
    show ?thesis using r names nonneg one near w1 w0 by blast
  qed
qed



text \<open>
  Claim C6. For every selector value (in particular every one in [0,1]),
  \<open>calculateBiomeWeights\<close> returns one weight per biome of the table, in table order,
  each non-negative, and the weights sum to 1; and when the triangular weight of every
  biome is zero, a biome whose centre is nearest to the selector has weight 1 and every
  other biome has weight 0. Numbers are real numbers here, so the sum is exactly 1.
\<close>

theorem calculateBiomeWeights_normalised:
  "\<exists>ws. calculateBiomeWeights v = Inr ws
     \<and> map fst ws = map b_name BIOMES
     \<and> (\<forall>e \<in> set ws. 0 \<le> snd e)
     \<and> sum_list (map snd ws) = 1
     \<and> ((\<forall>b \<in> set BIOMES. triangularWeight b v = 0) \<longrightarrow>
          (\<exists>c \<in> set BIOMES. (\<forall>b \<in> set BIOMES. \<bar>v - noiseCenter c\<bar> \<le> \<bar>v - noiseCenter b\<bar>)
              \<and> map_of ws (b_name c) = Some 1
              \<and> (\<forall>b \<in> set BIOMES. b_name b \<noteq> b_name c \<longrightarrow> map_of ws (b_name b) = Some 0)))"
proof -
  have "BIOMES \<noteq> []" and "distinct (map b_name BIOMES)"
    by (simp_all add: BIOMES_def)
  then show ?thesis
    unfolding calculateBiomeWeights_def by (rule calculateBiomeWeightsOver_normalised)
qed

theorem calculateBiomeWeights_witness:
  "map (\<lambda>b. triangularWeight b (11/10)) BIOMES = [0, 0, 0]
   \<and> (\<exists>ws. calculateBiomeWeights (11/10) = Inr ws
         \<and> map fst ws = [''desert'', ''plains'', ''hills'']
         \<and> sum_list (map snd ws) = 1
         \<and> map_of ws ''hills'' = Some 1
         \<and> map_of ws ''plains'' = Some 0
         \<and> map_of ws ''desert'' = Some 0)"
proof -
  have zero: "\<forall>b \<in> set BIOMES. triangularWeight b (11/10) = 0"
    by (simp add: BIOMES_def triangularWeight_def)
  from calculateBiomeWeights_normalised[of "11/10"] zero
  obtain ws c where r: "calculateBiomeWeights (11/10) = Inr ws"
    and names: "map fst ws = map b_name BIOMES"
    and one: "sum_list (map snd ws) = 1"
    and c: "c \<in> set BIOMES"
    and near: "\<forall>b \<in> set BIOMES. \<bar>11/10 - noiseCenter c\<bar> \<le> \<bar>11/10 - noiseCenter b\<bar>"
    and w1: "map_of ws (b_name c) = Some 1"
    and w0: "\<forall>b \<in> set BIOMES. b_name b \<noteq> b_name c \<longrightarrow> map_of ws (b_name b) = Some 0"
    by blast
  have hills: "c = \<lparr>b_name = ''hills'', noiseCenter = 85 / 100, noiseRadius = 2 / 10\<rparr>"
    using c near by (auto simp: BIOMES_def)
  have h1: "map_of ws ''hills'' = Some 1" using w1 hills by simp
  have h2: "map_of ws ''plains'' = Some 0" and h3: "map_of ws ''desert'' = Some 0"
    using w0 hills by (simp_all add: BIOMES_def)
  have names': "map fst ws = [''desert'', ''plains'', ''hills'']"
    using names by (simp add: BIOMES_def)
  have "calculateBiomeWeights (11/10) = Inr ws
         \<and> map fst ws = [''desert'', ''plains'', ''hills'']
         \<and> sum_list (map snd ws) = 1
         \<and> map_of ws ''hills'' = Some 1
         \<and> map_of ws ''plains'' = Some 0
         \<and> map_of ws ''desert'' = Some 0"
    by (intro conjI) (fact r, fact names', fact one, fact h1, fact h2, fact h3)
  then have "\<exists>ws. calculateBiomeWeights (11/10) = Inr ws
         \<and> map fst ws = [''desert'', ''plains'', ''hills'']
         \<and> sum_list (map snd ws) = 1
         \<and> map_of ws ''hills'' = Some 1
         \<and> map_of ws ''plains'' = Some 0
         \<and> map_of ws ''desert'' = Some 0"
    by (rule exI[where x = ws])
  moreover have "map (\<lambda>b. triangularWeight b (11/10)) BIOMES = [0, 0, 0]"
    by (simp add: BIOMES_def triangularWeight_def)
  ultimately show ?thesis by (rule conjI[rotated])
qed


section \<open>Noise\<close>

lemma swap_nth:
  "i < length p \<Longrightarrow> j < length p \<Longrightarrow> k < length p \<Longrightarrow>
     (p[i := p ! j, j := p ! i]) ! k = p ! swapPos i j k"
  by (auto simp: swapPos_def nth_list_update)

lemma pick_le: "pick u i \<le> i"
proof -
  define t where "t = uint u * (int i + 1)"
  define m where "m = int i + 1"
  have "uint u < 4294967296" using uint_bounded[of u] by simp
  moreover have "0 < m" by (simp add: m_def)
  ultimately have "uint u * m < 4294967296 * m"
    by (rule mult_strict_right_mono)
  then have "t < 4294967296 * m" by (simp add: t_def m_def)
  then have "t div 4294967296 < m" by linarith
  then show ?thesis by (simp add: pick_def t_def m_def)
qed

lemma shuffleIndices_bounds:
  "s \<in> set (shuffleIndices n seed) \<Longrightarrow> fst s \<le> n \<and> snd s \<le> fst s"
proof (induction n arbitrary: seed)
  case 0
  then show ?case by simp
next
  case (Suc n)
  obtain seed' u where m: "mulberry32 seed = (seed', u)" by (cases "mulberry32 seed") auto
  from Suc.prems m have
    "s = (Suc n, pick u (Suc n)) \<or> s \<in> set (shuffleIndices n seed')"
    by (auto simp: pick_def)
  then show ?case
    using Suc.IH[of seed'] pick_le[of u "Suc n"] by auto
qed

lemma tracePos_bound:
  "(\<And>s. s \<in> set L \<Longrightarrow> fst s < n \<and> snd s < n) \<Longrightarrow> k < n \<Longrightarrow> tracePos L k < n"
  by (induction L) (auto simp: swapPos_def)

lemma shuffleLoop_nth:
  "n < length p \<Longrightarrow> k < length p \<Longrightarrow>
     shuffleLoop n seed p ! k = p ! tracePos (shuffleIndices n seed) k"
proof (induction n arbitrary: seed p)
  case 0
  then show ?case by simp
next
  case (Suc n)
  obtain seed' u where m: "mulberry32 seed = (seed', u)" by (cases "mulberry32 seed") auto
  let ?j = "pick u (Suc n)"
  let ?p = "p[Suc n := p ! ?j, ?j := p ! Suc n]"
  have j: "?j < length p" using pick_le[of u "Suc n"] Suc.prems(1) by simp
  have tr: "tracePos (shuffleIndices n seed') k < length p"
  proof (rule tracePos_bound)
    fix s
    assume "s \<in> set (shuffleIndices n seed')"
    then show "fst s < length p \<and> snd s < length p"
      using shuffleIndices_bounds[of s n seed'] Suc.prems(1) by auto
  qed (rule Suc.prems(2))
  have "shuffleLoop (Suc n) seed p ! k = shuffleLoop n seed' ?p ! k"
    by (simp add: m pick_def Let_def)
  also have "\<dots> = ?p ! tracePos (shuffleIndices n seed') k"
    using Suc.IH[of ?p seed'] Suc.prems by simp
  also have "\<dots> = p ! swapPos (Suc n) ?j (tracePos (shuffleIndices n seed') k)"
    using swap_nth[OF _ j tr] Suc.prems(1) by simp
  finally show ?case by (simp add: m pick_def)
qed

lemma generatePermutation_nth:
  "k < 512 \<Longrightarrow> generatePermutation seed ! k =
     tracePos (shuffleIndices 255 (word_of_int (seed * 10000 + 1234))) (k mod 256)"
proof -
  assume k: "k < 512"
  have b: "tracePos (shuffleIndices 255 (word_of_int (seed * 10000 + 1234))) (k mod 256) < 256"
  proof (rule tracePos_bound)
    fix s
    assume "s \<in> set (shuffleIndices 255 (word_of_int (seed * 10000 + 1234)))"
    then show "fst s < 256 \<and> snd s < 256"
      using shuffleIndices_bounds[of s 255] by fastforce
  qed simp
  have "generatePermutation seed ! k =
      shuffleLoop 255 (word_of_int (seed * 10000 + 1234)) [0 ..< 256] ! (k mod 256)"
    using k by (simp add: generatePermutation_def Let_def del: upt_Suc)
  also have "\<dots> = [0 ..< 256] ! tracePos (shuffleIndices 255 (word_of_int (seed * 10000 + 1234))) (k mod 256)"
    by (rule shuffleLoop_nth) simp_all
  also have "\<dots> = tracePos (shuffleIndices 255 (word_of_int (seed * 10000 + 1234))) (k mod 256)"
    using b by (simp del: upt_Suc)
  finally show ?thesis .
qed


lemma mulberry32_flat:
  "mulberry32 seed = (seed + 0x6D2B79F5, mb_out (mb_t2 (mb_t1 (seed + 0x6D2B79F5))))"
  unfolding mulberry32_def Let_def mb_t1_def mb_t2_def mb_out_def by (rule refl)

lemma shuffleIndices_numeral:
  "shuffleIndices (numeral k) seed =
     (numeral k, pick (mb_out (mb_t2 (mb_t1 (seed + 0x6D2B79F5)))) (numeral k))
       # shuffleIndices (pred_numeral k) (seed + 0x6D2B79F5)"
  unfolding numeral_eq_Suc shuffleIndices.simps mulberry32_flat pick_def by simp

lemma shuffleIndices_one:
  "shuffleIndices (Suc 0) seed =
     [(Suc 0, pick (mb_out (mb_t2 (mb_t1 (seed + 0x6D2B79F5)))) (Suc 0))]"
  unfolding shuffleIndices.simps mulberry32_flat pick_def by simp

lemma tracePos_seed0:
  "tracePos seed0Indices 0 = 201" "tracePos seed0Indices (Suc 0) = 236"
  "tracePos seed0Indices 201 = 234" "tracePos seed0Indices 236 = 205"
  "tracePos seed0Indices 234 = 231" "tracePos seed0Indices 205 = 110"
  unfolding seed0Indices_def by (simp_all add: swapPos_def)


lemma shuffleIndices_seed0: "shuffleIndices 255 1234 = seed0Indices"
  unfolding seed0Indices_def
  by (simp add: shuffleIndices_numeral shuffleIndices_one mb_t1_def mb_t2_def mb_out_def pick_def
      del: shuffleIndices.simps)

lemma Perlin0_entries:
  "permutation Perlin0 ! 0 = 201" "permutation Perlin0 ! Suc 0 = 236"
  "permutation Perlin0 ! 201 = 234" "permutation Perlin0 ! 236 = 205"
  "permutation Perlin0 ! 234 = 231" "permutation Perlin0 ! 205 = 110"
  using generatePermutation_nth[of 0 0] generatePermutation_nth[of 1 0]
    generatePermutation_nth[of 201 0] generatePermutation_nth[of 236 0]
    generatePermutation_nth[of 234 0] generatePermutation_nth[of 205 0]
  by (simp_all add: Perlin0_def newPerlin_def shuffleIndices_seed0 tracePos_seed0)

lemma grad_origin: "grad h 0 0 0 = 0"
  by (simp add: grad_def Let_def)

lemma noise_lattice: "noise p (of_int a) (of_int b) (of_int c) = 0"
  by (simp add: noise_def Let_def fade_def lerp_def grad_origin)

lemma noise_Perlin0_half: "noise Perlin0 (1/2) 0 0 = - 1/2"
  by (simp add: noise_def Let_def fade_def lerp_def Perlin0_entries grad_def)

text \<open>
  The cell of the default generator at (238, 172, 17): the entries that \<open>noise\<close> reads
  there, and the sample at the point (238.5, 172.75, 17.5) of that cell, which is above 1.
\<close>

lemma tracePos_seed0_cell:
  "tracePos seed0Indices 238 = 21" "tracePos seed0Indices 239 = 119"
  "tracePos seed0Indices 193 = 250" "tracePos seed0Indices 194 = 243"
  "tracePos seed0Indices 35 = 233" "tracePos seed0Indices 36 = 216"
  "tracePos seed0Indices 11 = 24" "tracePos seed0Indices 250 = 29"
  "tracePos seed0Indices 4 = 84" "tracePos seed0Indices 233 = 213"
  "tracePos seed0Indices 12 = 186" "tracePos seed0Indices 251 = 10"
  "tracePos seed0Indices 5 = 150"
  unfolding seed0Indices_def by (simp_all add: swapPos_def)

lemma Perlin0_cell:
  "permutation Perlin0 ! 238 = 21" "permutation Perlin0 ! 239 = 119"
  "permutation Perlin0 ! 193 = 250" "permutation Perlin0 ! 194 = 243"
  "permutation Perlin0 ! 291 = 233" "permutation Perlin0 ! 292 = 216"
  "permutation Perlin0 ! 267 = 24" "permutation Perlin0 ! 250 = 29"
  "permutation Perlin0 ! 260 = 84" "permutation Perlin0 ! 233 = 213"
  "permutation Perlin0 ! 268 = 186" "permutation Perlin0 ! 251 = 10"
  "permutation Perlin0 ! 261 = 150"
  using generatePermutation_nth[of 238 0] generatePermutation_nth[of 239 0]
    generatePermutation_nth[of 193 0] generatePermutation_nth[of 194 0]
    generatePermutation_nth[of 291 0] generatePermutation_nth[of 292 0]
    generatePermutation_nth[of 267 0] generatePermutation_nth[of 250 0]
    generatePermutation_nth[of 260 0] generatePermutation_nth[of 233 0]
    generatePermutation_nth[of 268 0] generatePermutation_nth[of 251 0]
    generatePermutation_nth[of 261 0]
  by (simp_all add: Perlin0_def newPerlin_def shuffleIndices_seed0 tracePos_seed0_cell)

lemma noise_Perlin0_cell: "noise Perlin0 (477/2) (691/4) (35/2) = 2101/2048"
  by (simp add: noise_def Let_def fade_def lerp_def Perlin0_cell Perlin0_entries grad_def)

lemma fbmLoop_closed:
  "fbmLoop p x y z (i + int m) pers lac i tot f a mv =
     (tot + (\<Sum>k < m. noise p (x * (f * lac ^ k)) (y * (f * lac ^ k)) (z * (f * lac ^ k))
                       * (a * pers ^ k)),
      mv + (\<Sum>k < m. a * pers ^ k))"
proof (induction m arbitrary: i tot f a mv)
  case 0
  show ?case by (subst fbmLoop.simps) simp
next
  case (Suc m)
  have e: "i + int (Suc m) = (i + 1) + int m" by simp
  have lt: "i < i + int (Suc m)" by simp
  show ?case
    apply (subst fbmLoop.simps)
    apply (simp only: lt if_True e Suc.IH)
    apply (simp add: sum.lessThan_Suc_shift mult.assoc add.assoc del: sum.lessThan_Suc)
    done
qed

lemma fbm_closed:
  "fbm p x y z (int n) pers lac =
     (if amplitudeSum pers n = 0 then 0
      else octaveSum p x y z pers lac n / amplitudeSum pers n)"
  using fbmLoop_closed[of p x y z 0 n pers lac 0 1 1 0]
  by (simp add: fbm_def octaveSum_def amplitudeSum_def)

lemma fbm_one_octave: "fbm p x y z 1 pers lac = noise p x y z"
  using fbm_closed[of p x y z 1 pers lac]
  by (simp add: amplitudeSum_def octaveSum_def)

lemma amplitudeSum_pos: "1 \<le> n \<Longrightarrow> 0 \<le> pers \<Longrightarrow> 1 \<le> amplitudeSum pers n"
proof (induction n)
  case 0
  then show ?case by simp
next
  case (Suc n)
  show ?case
  proof (cases "n = 0")
    case True
    then show ?thesis by (simp add: amplitudeSum_def)
  next
    case False
    then have "1 \<le> amplitudeSum pers n" using Suc by simp
    moreover have "0 \<le> pers ^ n" using Suc.prems(2) by simp
    ultimately show ?thesis by (simp add: amplitudeSum_def)
  qed
qed

lemma octaveSum_bound:
  assumes "0 \<le> pers"
    and "\<forall>k < n. \<bar>noise p (x * lac ^ k) (y * lac ^ k) (z * lac ^ k)\<bar> \<le> B"
  shows "\<bar>octaveSum p x y z pers lac n\<bar> \<le> B * amplitudeSum pers n"
proof -
  have "\<bar>octaveSum p x y z pers lac n\<bar>
      \<le> (\<Sum>k < n. \<bar>noise p (x * lac ^ k) (y * lac ^ k) (z * lac ^ k) * pers ^ k\<bar>)"
    unfolding octaveSum_def by (rule sum_abs)
  also have "\<dots> \<le> (\<Sum>k < n. B * pers ^ k)"
  proof (rule sum_mono)
    fix k
    assume "k \<in> {..<n}"
    then have "\<bar>noise p (x * lac ^ k) (y * lac ^ k) (z * lac ^ k)\<bar> \<le> B"
      using assms(2) by simp
    moreover have "0 \<le> pers ^ k" using assms(1) by simp
    ultimately show "\<bar>noise p (x * lac ^ k) (y * lac ^ k) (z * lac ^ k) * pers ^ k\<bar> \<le> B * pers ^ k"
      by (simp add: abs_mult mult_right_mono)
  qed
  also have "\<dots> = B * amplitudeSum pers n"
    by (simp add: amplitudeSum_def sum_distrib_left)
  finally show ?thesis .
qed


text \<open>
  Claim C7, as the code has it. \<open>fbm\<close> returns 0 for 0 octaves. For n octaves it returns
  the sum of the octave samples, taken at frequency lacunarity^k with amplitude
  persistence^k, divided by the sum of the amplitudes, and 0 when that sum is zero. When
  n is at least 1, the persistence is not negative and every octave sample lies within
  [-B, B], the sum of the amplitudes is positive and the result lies within [-B, B]; with
  B = 1 this is the interval [-1, 1]. The samples themselves are not clamped by \<open>noise\<close>.
\<close>

theorem fbm_normalised_sum:
  "fbm p x y z 0 pers lac = 0
   \<and> fbm p x y z (int n) pers lac =
       (if amplitudeSum pers n = 0 then 0
        else octaveSum p x y z pers lac n / amplitudeSum pers n)
   \<and> (1 \<le> n \<and> 0 \<le> pers
        \<and> (\<forall>k < n. \<bar>noise p (x * lac ^ k) (y * lac ^ k) (z * lac ^ k)\<bar> \<le> B)
      \<longrightarrow> 0 < amplitudeSum pers n \<and> \<bar>fbm p x y z (int n) pers lac\<bar> \<le> B)"
proof (intro conjI impI)
  show "fbm p x y z 0 pers lac = 0"
    using fbm_closed[of p x y z 0 pers lac] by (simp add: amplitudeSum_def)
next
  show "fbm p x y z (int n) pers lac =
       (if amplitudeSum pers n = 0 then 0
        else octaveSum p x y z pers lac n / amplitudeSum pers n)"
    by (rule fbm_closed)
next
  assume h: "1 \<le> n \<and> 0 \<le> pers
        \<and> (\<forall>k < n. \<bar>noise p (x * lac ^ k) (y * lac ^ k) (z * lac ^ k)\<bar> \<le> B)"
  then have a: "1 \<le> amplitudeSum pers n" using amplitudeSum_pos by blast
  then show "0 < amplitudeSum pers n" by simp
  have "\<bar>octaveSum p x y z pers lac n\<bar> \<le> B * amplitudeSum pers n"
    using octaveSum_bound h by blast
  then have "\<bar>octaveSum p x y z pers lac n\<bar> / amplitudeSum pers n \<le> B"
    using a by (simp add: pos_divide_le_eq)
  then show "\<bar>fbm p x y z (int n) pers lac\<bar> \<le> B"
    using a by (simp add: fbm_closed)
qed

lemma octaves_Perlin0:
  "noise Perlin0 (1/2 * 2 ^ 0) (0 * 2 ^ 0) (0 * 2 ^ 0) = - 1/2"
  "noise Perlin0 (1/2 * 2 ^ 1) (0 * 2 ^ 1) (0 * 2 ^ 1) = 0"
  using noise_Perlin0_half noise_lattice[of Perlin0 1 0 0] by simp_all

lemma sums_Perlin0:
  "amplitudeSum (1/2) 2 = 3/2" "octaveSum Perlin0 (1/2) 0 0 (1/2) 2 2 = - 1/2"
  "amplitudeSum (- 3/4) 2 = 1/4" "octaveSum Perlin0 (1/2) 0 0 (- 3/4) 2 2 = - 1/2"
  using octaves_Perlin0
  by (simp_all add: amplitudeSum_def octaveSum_def lessThan_Suc numeral_2_eq_2)

theorem fbm_normalised_sum_witness:
  "fbm Perlin0 (1/2) 0 0 2 (1/2) 2 = - 1/3 \<and> \<bar>fbm Perlin0 (1/2) 0 0 2 (1/2) 2\<bar> \<le> 1"
proof -
  have samples: "\<forall>k < (2::nat). \<bar>noise Perlin0 (1/2 * 2 ^ k) (0 * 2 ^ k) (0 * 2 ^ k)\<bar> \<le> 1"
  proof (intro allI impI)
    fix k :: nat
    assume "k < 2"
    then have "k = 0 \<or> k = 1" by auto
    then show "\<bar>noise Perlin0 (1/2 * 2 ^ k) (0 * 2 ^ k) (0 * 2 ^ k)\<bar> \<le> 1"
      using octaves_Perlin0 by auto
  qed
  have i: "int 2 = 2" by simp
  note t = fbm_normalised_sum[of Perlin0 "1/2" 0 0 "1/2" 2 2 1, unfolded sums_Perlin0 i]
  have v: "fbm Perlin0 (1/2) 0 0 2 (1/2) 2 = - 1/3" using t by simp
  have b: "\<bar>fbm Perlin0 (1/2) 0 0 2 (1/2) 2\<bar> \<le> 1" using t samples by simp
  show ?thesis using v b by simp
qed


text \<open>
  Claim C7 as stated fails, for both reasons that the bound depends on. With the generator
  of the default seed, one octave, persistence 1/2 and lacunarity 2, \<open>fbm\<close> at
  (238.5, 172.75, 17.5) is the single sample 2101/2048, above 1. With 2 octaves,
  persistence -3/4 and lacunarity 2, \<open>fbm\<close> at (1/2, 0, 0) is -2, although both samples lie
  within [-1, 1].
\<close>

theorem fbm_outside_unit_interval:
  "1 < fbm Perlin0 (477/2) (691/4) (35/2) 1 (1/2) 2
   \<and> fbm Perlin0 (1/2) 0 0 2 (- 3/4) 2 < - 1"
proof -
  have i: "int 2 = 2" by simp
  note t = fbm_closed[of Perlin0 "1/2" 0 0 2 "- 3/4" 2, unfolded sums_Perlin0 i]
  have a: "fbm Perlin0 (1/2) 0 0 2 (- 3/4) 2 = - 2" using t by simp
  have b: "fbm Perlin0 (477/2) (691/4) (35/2) 1 (1/2) 2 = 2101/2048"
    by (simp add: fbm_one_octave noise_Perlin0_cell)
  show ?thesis unfolding a b by simp
qed


end
